(* ===== verification/LTT_Prelude.thy ===== *)
theory LTT_Prelude
  imports Main "HOL-Library.Word" "HOL-Library.Monad_Syntax"
begin

text \<open>
  Shared vocabulary of the development.

  \<^item> Machine integers: \<open>u8\<close>, \<open>u16\<close>, \<open>u32\<close>, \<open>u64\<close> and \<open>size_t\<close> (64 bit) are words.
  \<^item> Runs: a C function that can hit undefined behaviour, a failed \<open>assert\<close> or an \<open>abort\<close>
    returns a value of type \<open>'a run\<close>; \<open>None\<close> is such a crash, and an error code of the source
    is an ordinary value inside \<open>Some\<close>.
  \<^item> Memory: an object is a list of cells; a cell is \<open>Some b\<close> or, when the byte is
    indeterminate (fresh from \<open>malloc\<close> or \<open>realloc\<close>), \<open>None\<close>. Reads and writes outside the
    object crash.
  \<^item> Allocation: a \<open>heap\<close> carries the outcomes of the next allocations and the number of
    outstanding ones, so that every allocation failure is a branch and leaks can be stated.
  \<^item> Little-endian encoding of fixed-width fields.
\<close>

section \<open>Machine types and runs\<close>

type_synonym byte = "8 word"
type_synonym u8 = "8 word"
type_synonym u16 = "16 word"
type_synonym u32 = "32 word"
type_synonym u64 = "64 word"
type_synonym size_t = "64 word"

type_synonym 'a run = "'a option"

abbreviation (input) crash :: "'a run" where
  "crash \<equiv> None"

definition c_assert :: "bool \<Rightarrow> unit run" where
  "c_assert b = (if b then Some () else crash)"

named_theorems wire_simps \<open>evaluation of memory accesses and wire encodings\<close>
named_theorems heap_simps \<open>effect of operations on the allocation ledger\<close>

lemma c_assert_simps [simp]:
  "c_assert True = Some ()" "c_assert False = None"
  by (simp_all add: c_assert_def)

lemma c_assert_eq_Some [simp]: "c_assert b = Some u \<longleftrightarrow> b"
  by (simp add: c_assert_def)

lemma bind_c_assert: "Option.bind (c_assert b) f = (if b then f () else None)"
  by (simp add: c_assert_def)

text \<open>
  \<open>post P r\<close>: if the run returns, its result satisfies \<open>P\<close>. The rules of \<open>post_intros\<close> follow the
  structure of a do-block.
\<close>

definition post :: "('a \<Rightarrow> bool) \<Rightarrow> 'a run \<Rightarrow> bool" where
  "post P r = (case r of None \<Rightarrow> True | Some x \<Rightarrow> P x)"

lemma post_Some_iff: "post P (Some x) \<longleftrightarrow> P x"
  by (simp add: post_def)

lemma post_SomeI: "P x \<Longrightarrow> post P (Some x)"
  by (simp add: post_def)

lemma post_None: "post P None"
  by (simp add: post_def)

lemma post_bind: "(\<And>x. m = Some x \<Longrightarrow> post P (f x)) \<Longrightarrow> post P (Option.bind m f)"
  by (cases m) (simp_all add: post_def)

lemma post_if: "(b \<Longrightarrow> post P x) \<Longrightarrow> (\<not> b \<Longrightarrow> post P y) \<Longrightarrow> post P (if b then x else y)"
  by simp

lemma post_case_prod: "(\<And>a b. e = (a, b) \<Longrightarrow> post P (f a b)) \<Longrightarrow> post P (case e of (a, b) \<Rightarrow> f a b)"
  by (cases e) simp

lemma post_case_prod3:
  "(\<And>a b c. e = (a, b, c) \<Longrightarrow> post P (f a b c)) \<Longrightarrow> post P (case e of (a, b, c) \<Rightarrow> f a b c)"
  by (cases e) simp

lemma post_bind3:
  "(\<And>a b c. m = Some (a, b, c) \<Longrightarrow> post P (f a b c)) \<Longrightarrow> post P (Option.bind m (\<lambda>(a, b, c). f a b c))"
  by (cases m) (auto simp: post_def)

lemmas post_intros = post_if post_bind post_case_prod3 post_case_prod post_None post_SomeI

lemma postD: "post P r \<Longrightarrow> r = Some x \<Longrightarrow> P x"
  by (simp add: post_def)

text \<open>\<open>safe r\<close>: the run returns; the rules follow a do-block in the same way.\<close>

definition safe :: "'a run \<Rightarrow> bool" where
  "safe r \<longleftrightarrow> r \<noteq> None"

lemma safe_Some: "safe (Some x)"
  by (simp add: safe_def)

lemma safe_bind: "safe m \<Longrightarrow> (\<And>x. m = Some x \<Longrightarrow> safe (f x)) \<Longrightarrow> safe (Option.bind m f)"
  by (cases m) (simp_all add: safe_def)

lemma safe_if: "(b \<Longrightarrow> safe x) \<Longrightarrow> (\<not> b \<Longrightarrow> safe y) \<Longrightarrow> safe (if b then x else y)"
  by simp

lemma safe_case_prod: "(\<And>a b. e = (a, b) \<Longrightarrow> safe (f a b)) \<Longrightarrow> safe (case e of (a, b) \<Rightarrow> f a b)"
  by (cases e) simp

lemma safe_case_prod3:
  "(\<And>a b c. e = (a, b, c) \<Longrightarrow> safe (f a b c)) \<Longrightarrow> safe (case e of (a, b, c) \<Rightarrow> f a b c)"
  by (cases e) simp

lemmas safe_intros = safe_if safe_bind safe_case_prod3 safe_case_prod safe_Some

lemma safeI: "r = Some x \<Longrightarrow> safe r"
  by (simp add: safe_def)

section \<open>Memory objects\<close>

type_synonym cell = "byte option"
type_synonym mem = "cell list"

definition rd :: "mem \<Rightarrow> int \<Rightarrow> byte run" where
  "rd m a = (if 0 \<le> a \<and> nat a < length m then m ! nat a else crash)"

definition rd_bytes :: "mem \<Rightarrow> nat \<Rightarrow> nat \<Rightarrow> byte list run" where
  "rd_bytes m a n = (if a + n \<le> length m then those (take n (drop a m)) else crash)"

definition wr_cells :: "mem \<Rightarrow> nat \<Rightarrow> cell list \<Rightarrow> mem run" where
  "wr_cells m a cs =
     (if a + length cs \<le> length m
      then Some (take a m @ cs @ drop (a + length cs) m) else crash)"

definition wr_bytes :: "mem \<Rightarrow> nat \<Rightarrow> byte list \<Rightarrow> mem run" where
  "wr_bytes m a bs = wr_cells m a (map Some bs)"

text \<open>The C string that starts a list of cells: it crashes when no terminator is found.\<close>

fun strz :: "mem \<Rightarrow> byte list run" where
  "strz [] = crash"
| "strz (None # m) = crash"
| "strz (Some b # m) = (if b = 0 then Some [] else map_option ((#) b) (strz m))"

definition c_string_at :: "mem \<Rightarrow> nat \<Rightarrow> byte list run" where
  "c_string_at m a = strz (drop a m)"

lemma those_map_Some [simp]: "those (map Some bs) = Some bs"
  by (induction bs) simp_all

lemma those_eq_Some_iff: "those cs = Some bs \<longleftrightarrow> cs = map Some bs"
  by (induction cs arbitrary: bs) (auto split: option.splits)

lemma rd_bytes_append [simp]:
  "length p = a \<Longrightarrow> length bs = n \<Longrightarrow> rd_bytes (p @ map Some bs @ q) a n = Some bs"
  by (simp add: rd_bytes_def)

lemma rd_bytes_length: "rd_bytes m a n = Some bs \<Longrightarrow> length bs = n"
  by (auto simp: rd_bytes_def those_eq_Some_iff split: if_splits dest: arg_cong[of _ _ length])

lemma rd_bytes_total:
  "a + n \<le> length m \<Longrightarrow> None \<notin> set m \<Longrightarrow> \<exists>bs. rd_bytes m a n = Some bs"
proof -
  assume a: "a + n \<le> length m" and m: "None \<notin> set m"
  have "\<exists>bs. cs = map Some bs" if "None \<notin> set cs" for cs :: mem
    using that
  proof (induction cs)
    case Nil
    then show ?case by simp
  next
    case (Cons c cs)
    then obtain b bs where "c = Some b" "cs = map Some bs" by (cases c) auto
    then have "c # cs = map Some (b # bs)" by simp
    then show ?case by (rule exI)
  qed
  moreover have "None \<notin> set (take n (drop a m))"
    using m by (meson in_set_dropD in_set_takeD)
  ultimately obtain bs where "take n (drop a m) = map Some bs" by blast
  with a show ?thesis by (simp add: rd_bytes_def)
qed

lemma wr_cells_append [simp]:
  "length p = a \<Longrightarrow> length old = length cs \<Longrightarrow> wr_cells (p @ old @ q) a cs = Some (p @ cs @ q)"
  by (simp add: wr_cells_def)

lemma wr_cells_length: "wr_cells m a cs = Some m' \<Longrightarrow> length m' = length m"
  by (auto simp: wr_cells_def split: if_splits)

lemma wr_bytes_length: "wr_bytes m a bs = Some m' \<Longrightarrow> length m' = length m"
  unfolding wr_bytes_def by (rule wr_cells_length)

lemma wr_bytes_split:
  assumes "a + length bs \<le> length m"
  shows "wr_bytes m a bs = Some (take a m @ map Some bs @ drop (a + length bs) m)"
  using assms by (simp add: wr_bytes_def wr_cells_def)

lemma strz_Some_append [simp]:
  "0 \<notin> set s \<Longrightarrow> strz (map Some s @ Some 0 # q) = Some s"
  by (induction s) auto

lemma strz_no_nul: "strz m = Some s \<Longrightarrow> 0 \<notin> set s"
  by (induction m arbitrary: s rule: strz.induct) (auto split: if_splits)

lemma strz_prefix: "strz m = Some s \<Longrightarrow> \<exists>q. m = map Some s @ Some 0 # q"
  by (induction m arbitrary: s rule: strz.induct) (auto split: if_splits)

section \<open>Little-endian fields\<close>

lemma unat_bounds:
  "unat (a :: u8) < 256" "unat (b :: u16) < 65536"
  "unat (c :: u32) < 4294967296" "unat (d :: u64) < 18446744073709551616"
  using unsigned_less[where ?'a = nat, of a] unsigned_less[where ?'a = nat, of b]
    unsigned_less[where ?'a = nat, of c] unsigned_less[where ?'a = nat, of d]
  by simp_all

lemma unat_ucast_u64 [simp]: "unat (ucast (x :: u32) :: u64) = unat x"
  using unat_bounds(3)[of x] by (simp add: unsigned_ucast_eq take_bit_nat_eq_self_iff)

lemma unat_of_nat_u32: "n < 2 ^ 32 \<Longrightarrow> unat (of_nat n :: u32) = n"
  by (simp add: unat_of_nat)

fun le :: "nat \<Rightarrow> nat \<Rightarrow> byte list" where
  "le 0 x = []"
| "le (Suc n) x = of_nat (x mod 256) # le n (x div 256)"

fun le_val :: "byte list \<Rightarrow> nat" where
  "le_val [] = 0"
| "le_val (b # bs) = unat b + 256 * le_val bs"

lemma length_le [simp]: "length (le n x) = n"
  by (induction n arbitrary: x) simp_all

lemma unat_of_nat_byte [simp]: "unat (of_nat (x mod 256) :: byte) = x mod 256"
  by (simp add: unat_of_nat)

lemma le_val_le: "le_val (le n x) = x mod 256 ^ n"
proof (induction n arbitrary: x)
  case 0
  then show ?case by simp
next
  case (Suc n)
  have "x mod 256 ^ Suc n = x mod 256 + 256 * (x div 256 mod 256 ^ n)"
    using mod_mult2_eq[of x 256 "256 ^ n"] by (simp add: mult.commute)
  with Suc show ?case by simp
qed

lemma le_val_bound: "le_val bs < 256 ^ length bs"
proof (induction bs)
  case Nil
  then show ?case by simp
next
  case (Cons b bs)
  have "unat b < 256" by (rule unat_bounds)
  with Cons show ?case by simp
qed

text \<open>The bytes of an unsigned word, and the word of its bytes.\<close>

definition bytes_u32 :: "u32 \<Rightarrow> byte list" where
  "bytes_u32 w = le 4 (unat w)"

definition bytes_u64 :: "u64 \<Rightarrow> byte list" where
  "bytes_u64 w = le 8 (unat w)"

definition bytes_u16 :: "u16 \<Rightarrow> byte list" where
  "bytes_u16 w = le 2 (unat w)"

lemma bytes_u32_expand:
  "bytes_u32 w = [of_nat (unat w mod 256), of_nat (unat w div 256 mod 256),
     of_nat (unat w div 256 div 256 mod 256), of_nat (unat w div 256 div 256 div 256 mod 256)]"
proof -
  have "(4 :: nat) = Suc (Suc (Suc (Suc 0)))" by simp
  then show ?thesis by (simp only: bytes_u32_def le.simps)
qed

lemma length_bytes [simp]:
  "length (bytes_u16 x) = 2" "length (bytes_u32 y) = 4" "length (bytes_u64 z) = 8"
  by (simp_all add: bytes_u16_def bytes_u32_def bytes_u64_def)

lemma u32_bytes_u32 [simp]: "of_nat (le_val (bytes_u32 w)) = w"
proof -
  have "unat w mod 256 ^ 4 = unat w"
    using unat_bounds(3)[of w] by (intro mod_less) simp
  then show ?thesis by (simp add: bytes_u32_def le_val_le)
qed

lemma u64_bytes_u64 [simp]: "of_nat (le_val (bytes_u64 w)) = w"
proof -
  have "unat w mod 256 ^ 8 = unat w"
    using unat_bounds(4)[of w] by (intro mod_less) simp
  then show ?thesis by (simp add: bytes_u64_def le_val_le)
qed

lemma u16_bytes_u16 [simp]: "of_nat (le_val (bytes_u16 w)) = w"
proof -
  have "unat w mod 256 ^ 2 = unat w"
    using unat_bounds(2)[of w] by (intro mod_less) simp
  then show ?thesis by (simp add: bytes_u16_def le_val_le)
qed

section \<open>Allocation ledger\<close>

text \<open>
  \<open>outcomes\<close> lists the outcomes of the next allocations (allocations beyond its end succeed);
  \<open>live\<close> counts the blocks that were allocated and not released.
\<close>

record heap =
  outcomes :: "bool list"
  live :: int

definition zmalloc :: "heap \<Rightarrow> bool \<times> heap" where
  "zmalloc h = (case outcomes h of
       [] \<Rightarrow> (True, h\<lparr>live := live h + 1\<rparr>)
     | b # bs \<Rightarrow> (b, h\<lparr>outcomes := bs, live := (if b then live h + 1 else live h)\<rparr>))"

definition c_free :: "heap \<Rightarrow> heap" where
  "c_free h = h\<lparr>live := live h - 1\<rparr>"

definition c_free_opt :: "'a option \<Rightarrow> heap \<Rightarrow> heap" where
  "c_free_opt p h = (case p of None \<Rightarrow> h | Some _ \<Rightarrow> c_free h)"

lemma zmalloc_live [heap_simps]:
  "zmalloc h = (ok, h') \<Longrightarrow> live h' = live h + (if ok then 1 else 0)"
  by (auto simp: zmalloc_def split: list.splits)

lemma zmalloc_all_ok [simp]: "outcomes h = [] \<Longrightarrow> zmalloc h = (True, h\<lparr>live := live h + 1\<rparr>)"
  by (simp add: zmalloc_def)

lemma live_c_free [simp]: "live (c_free h) = live h - 1" "outcomes (c_free h) = outcomes h"
  by (simp_all add: c_free_def)

lemma live_c_free_opt [simp]:
  "live (c_free_opt p h) = live h - (if p = None then 0 else 1)"
  "outcomes (c_free_opt p h) = outcomes h"
  by (auto simp: c_free_opt_def split: option.splits)

end
