(* ===== verification/Count_Order.thy ===== *)
theory Count_Order
  imports LTT_Prelude
begin

text \<open>
  Power-of-two orders of \<open>src/common/utils.c\<close>: the portable \<open>fls\<close> (position of the most
  significant bit, the binary search the code uses where no \<open>bsr\<close> instruction exists) at 32
  and 64 bits, and \<open>utils_get_count_order_u32/u64\<close>. The binary search is proved to return the
  position of the top bit, so that the order is the least one whose power of two is not below
  the argument.
\<close>

unbundle bit_operations_syntax

section \<open>Definitions\<close>

text \<open>One \<open>if (!(x & m)) { x <<= k; r -= k; }\<close> of the search.\<close>

definition fls_step :: "'a::len word \<Rightarrow> nat \<Rightarrow> 'a word \<times> nat \<Rightarrow> 'a word \<times> nat" where
  "fls_step m k = (\<lambda>(x, r). if x AND m = 0 then (push_bit k x, r - k) else (x, r))"

definition fls_u64 :: "u64 \<Rightarrow> nat" where
  "fls_u64 x =
     (if x = 0 then 0
      else let s = (x, 64);
               s = fls_step 0xFFFFFFFF00000000 32 s;
               s = fls_step 0xFFFF000000000000 16 s;
               s = fls_step 0xFF00000000000000 8 s;
               s = fls_step 0xF000000000000000 4 s;
               s = fls_step 0xC000000000000000 2 s;
               s = fls_step 0x8000000000000000 1 s
           in snd s)"

definition fls_u32 :: "u32 \<Rightarrow> nat" where
  "fls_u32 x =
     (if x = 0 then 0
      else let s = (x, 32);
               s = fls_step 0xFFFF0000 16 s;
               s = fls_step 0xFF000000 8 s;
               s = fls_step 0xF0000000 4 s;
               s = fls_step 0xC0000000 2 s;
               s = fls_step 0x80000000 1 s
           in snd s)"

definition utils_get_count_order_u32 :: "u32 \<Rightarrow> int" where
  "utils_get_count_order_u32 x = (if x = 0 then -1 else int (fls_u32 (x - 1)))"

definition utils_get_count_order_u64 :: "u64 \<Rightarrow> int" where
  "utils_get_count_order_u64 x = (if x = 0 then -1 else int (fls_u64 (x - 1)))"

section \<open>The search finds the top bit\<close>

lemma and_high_mask_eq_0:
  fixes x :: "'a::len word"
  assumes "m = NOT (mask n)" "n < LENGTH('a)"
  shows "x AND m = 0 \<longleftrightarrow> unat x < 2 ^ n"
proof -
  have "x AND m = 0 \<longleftrightarrow> x AND mask n = x"
    unfolding assms(1) by (auto simp: bit_eq_iff bit_simps)
  also have "\<dots> \<longleftrightarrow> unat x < 2 ^ n"
  proof -
    have "uint x = int (unat x)" by simp
    then show ?thesis by (simp only: mask_eq_iff of_nat_less_numeral_power_cancel_iff)
  qed
  finally show ?thesis .
qed

text \<open>
  Loop invariant of the search at width \<open>w\<close>: the current word is the argument shifted by
  \<open>w - r\<close> places without losing a bit, and one of its top \<open>k\<close> bits is set.
\<close>

definition fls_inv :: "nat \<Rightarrow> nat \<Rightarrow> 'a::len word \<Rightarrow> 'a word \<times> nat \<Rightarrow> bool" where
  "fls_inv w k x0 s \<longleftrightarrow>
     (let (x, r) = s in
      r \<le> w \<and> k \<le> r \<and> unat x = unat x0 * 2 ^ (w - r) \<and> 2 ^ (w - k) \<le> unat x)"

lemma fls_inv_step:
  fixes x0 :: "'a::len word"
  assumes inv: "fls_inv w j x0 s" and j: "j = 2 * k" and w: "w = LENGTH('a)" and k: "0 < k" "2 * k \<le> w"
    and m: "m = NOT (mask (w - k))"
  shows "fls_inv w k x0 (fls_step m k s)"
proof -
  obtain x r where s: "s = (x, r)" by (cases s)
  from inv s have r: "r \<le> w" "2 * k \<le> r" and x: "unat x = unat x0 * 2 ^ (w - r)"
    and top: "2 ^ (w - 2 * k) \<le> unat x"
    by (simp_all add: fls_inv_def j)
  have test: "x AND m = 0 \<longleftrightarrow> unat x < 2 ^ (w - k)"
    using k w by (intro and_high_mask_eq_0 m) simp
  show ?thesis
  proof (cases "unat x < 2 ^ (w - k)")
    case True
    have lt: "unat x * 2 ^ k < 2 ^ w"
    proof -
      have "unat x * 2 ^ k < 2 ^ (w - k) * 2 ^ k" using True by simp
      also have "\<dots> = 2 ^ w" using k by (simp flip: power_add)
      finally show ?thesis .
    qed
    then have sh: "unat (push_bit k x) = unat x * 2 ^ k"
      using w by (simp add: unsigned_push_bit_eq push_bit_nat_def take_bit_nat_eq_self)
    have "2 ^ (w - k) = 2 ^ (w - 2 * k) * (2 :: nat) ^ k"
      using k by (simp flip: power_add)
    also have "\<dots> \<le> unat x * 2 ^ k" using top by simp
    finally have "2 ^ (w - k) \<le> unat (push_bit k x)" using sh by simp
    moreover have "unat (push_bit k x) = unat x0 * 2 ^ (w - (r - k))"
    proof -
      have "w - (r - k) = (w - r) + k" using r k by arith
      then show ?thesis using sh x by (simp add: power_add)
    qed
    ultimately show ?thesis
      using True test r k s by (auto simp: fls_step_def fls_inv_def)
  next
    case False
    then show ?thesis using test s r x k by (auto simp: fls_step_def fls_inv_def)
  qed
qed

lemma fls_inv_final:
  fixes x0 :: "'a::len word"
  assumes inv: "fls_inv w 1 x0 s" and w: "w = LENGTH('a)" and "snd s = r"
  shows "0 < r \<and> r \<le> w \<and> 2 ^ (r - 1) \<le> unat x0 \<and> unat x0 < 2 ^ r"
proof -
  obtain x where s: "s = (x, r)" using assms(3) by (cases s) auto
  from inv s have r: "r \<le> w" "1 \<le> r" and x: "unat x = unat x0 * 2 ^ (w - r)"
    and top: "2 ^ (w - 1) \<le> unat x"
    by (simp_all add: fls_inv_def)
  have "unat x < 2 ^ w" using w unsigned_less[where ?'a = nat, of x] by simp
  then have "unat x0 * 2 ^ (w - r) < 2 ^ r * 2 ^ (w - r)" using x r by (simp flip: power_add)
  then have up: "unat x0 < 2 ^ r" by simp
  have "w - 1 = (r - 1) + (w - r)" using r by arith
  then have "2 ^ (r - 1) * 2 ^ (w - r) \<le> unat x0 * 2 ^ (w - r)"
    using top x by (simp flip: power_add)
  then show ?thesis using r up by simp
qed

lemma fls_inv_init:
  fixes x0 :: "'a::len word"
  assumes "x0 \<noteq> 0" "w = LENGTH('a)"
  shows "fls_inv w w x0 (x0, w)"
  using assms by (simp add: fls_inv_def unat_gt_0 Suc_le_eq)

lemma fls_u64_bounds:
  assumes "x \<noteq> 0"
  shows "0 < fls_u64 x \<and> fls_u64 x \<le> 64 \<and> 2 ^ (fls_u64 x - 1) \<le> unat x \<and> unat x < 2 ^ fls_u64 x"
proof -
  have m: "0xFFFFFFFF00000000 = (NOT (mask (64 - 32)) :: u64)"
    "0xFFFF000000000000 = (NOT (mask (64 - 16)) :: u64)"
    "0xFF00000000000000 = (NOT (mask (64 - 8)) :: u64)"
    "0xF000000000000000 = (NOT (mask (64 - 4)) :: u64)"
    "0xC000000000000000 = (NOT (mask (64 - 2)) :: u64)"
    "0x8000000000000000 = (NOT (mask (64 - 1)) :: u64)"
    by (simp_all add: mask_eq_exp_minus_1)
  have i0: "fls_inv 64 64 x (x, 64)" using assms by (intro fls_inv_init) simp_all
  let ?s1 = "fls_step 0xFFFFFFFF00000000 32 (x, 64)"
  have i1: "fls_inv 64 32 x ?s1"
    by (rule fls_inv_step[OF i0 _ _ _ _ m(1)]) simp_all
  let ?s2 = "fls_step 0xFFFF000000000000 16 ?s1"
  have i2: "fls_inv 64 16 x ?s2"
    by (rule fls_inv_step[OF i1 _ _ _ _ m(2)]) simp_all
  let ?s3 = "fls_step 0xFF00000000000000 8 ?s2"
  have i3: "fls_inv 64 8 x ?s3"
    by (rule fls_inv_step[OF i2 _ _ _ _ m(3)]) simp_all
  let ?s4 = "fls_step 0xF000000000000000 4 ?s3"
  have i4: "fls_inv 64 4 x ?s4"
    by (rule fls_inv_step[OF i3 _ _ _ _ m(4)]) simp_all
  let ?s5 = "fls_step 0xC000000000000000 2 ?s4"
  have i5: "fls_inv 64 2 x ?s5"
    by (rule fls_inv_step[OF i4 _ _ _ _ m(5)]) simp_all
  let ?s6 = "fls_step 0x8000000000000000 1 ?s5"
  have i6: "fls_inv 64 1 x ?s6"
    by (rule fls_inv_step[OF i5 _ _ _ _ m(6)]) simp_all
  have "fls_u64 x = snd ?s6" using assms by (simp only: fls_u64_def Let_def if_False)
  with fls_inv_final[OF i6] show ?thesis by simp
qed

lemma fls_u32_bounds:
  assumes "x \<noteq> 0"
  shows "0 < fls_u32 x \<and> fls_u32 x \<le> 32 \<and> 2 ^ (fls_u32 x - 1) \<le> unat x \<and> unat x < 2 ^ fls_u32 x"
proof -
  have m: "0xFFFF0000 = (NOT (mask (32 - 16)) :: u32)"
    "0xFF000000 = (NOT (mask (32 - 8)) :: u32)"
    "0xF0000000 = (NOT (mask (32 - 4)) :: u32)"
    "0xC0000000 = (NOT (mask (32 - 2)) :: u32)"
    "0x80000000 = (NOT (mask (32 - 1)) :: u32)"
    by (simp_all add: mask_eq_exp_minus_1)
  have i0: "fls_inv 32 32 x (x, 32)" using assms by (intro fls_inv_init) simp_all
  let ?s1 = "fls_step 0xFFFF0000 16 (x, 32)"
  have i1: "fls_inv 32 16 x ?s1"
    by (rule fls_inv_step[OF i0 _ _ _ _ m(1)]) simp_all
  let ?s2 = "fls_step 0xFF000000 8 ?s1"
  have i2: "fls_inv 32 8 x ?s2"
    by (rule fls_inv_step[OF i1 _ _ _ _ m(2)]) simp_all
  let ?s3 = "fls_step 0xF0000000 4 ?s2"
  have i3: "fls_inv 32 4 x ?s3"
    by (rule fls_inv_step[OF i2 _ _ _ _ m(3)]) simp_all
  let ?s4 = "fls_step 0xC0000000 2 ?s3"
  have i4: "fls_inv 32 2 x ?s4"
    by (rule fls_inv_step[OF i3 _ _ _ _ m(4)]) simp_all
  let ?s5 = "fls_step 0x80000000 1 ?s4"
  have i5: "fls_inv 32 1 x ?s5"
    by (rule fls_inv_step[OF i4 _ _ _ _ m(5)]) simp_all
  have "fls_u32 x = snd ?s5" using assms by (simp only: fls_u32_def Let_def if_False)
  with fls_inv_final[OF i5] show ?thesis by simp
qed

lemma fls_0 [simp]: "fls_u64 0 = 0" "fls_u32 0 = 0"
  by (simp_all add: fls_u64_def fls_u32_def)

section \<open>The order is the least power of two\<close>

lemma count_order_least:
  fixes n :: nat
  assumes "n \<noteq> 0" "r = (if n = 1 then 0 else q)"
    and "n \<noteq> 1 \<Longrightarrow> 0 < q \<and> 2 ^ (q - 1) \<le> n - 1 \<and> n - 1 < 2 ^ q"
  shows "n \<le> 2 ^ r \<and> (\<forall>j. n \<le> 2 ^ j \<longrightarrow> r \<le> j)"
proof (cases "n = 1")
  case True
  with assms show ?thesis by simp
next
  case False
  with assms have q: "0 < q" "2 ^ (q - 1) \<le> n - 1" "n - 1 < 2 ^ q" and r: "r = q" by auto
  have "q \<le> j" if "n \<le> 2 ^ j" for j
  proof (rule ccontr)
    assume "\<not> q \<le> j"
    then have "(2::nat) ^ j \<le> 2 ^ (q - 1)" by (intro power_increasing) auto
    with q that assms(1) show False by linarith
  qed
  with q r show ?thesis by auto
qed

lemma unat_minus_1: "x \<noteq> 0 \<Longrightarrow> unat (x - 1 :: 'a::len word) = unat x - 1"
  by (simp add: unat_minus_one)

lemma count_order_u64:
  "if x = 0 then utils_get_count_order_u64 x = -1
   else \<exists>r. utils_get_count_order_u64 x = int r \<and> r \<le> 64 \<and> unat x \<le> 2 ^ r \<and>
        (\<forall>j. unat x \<le> 2 ^ j \<longrightarrow> r \<le> j)"
proof (cases "x = 0")
  case True
  then show ?thesis by (simp add: utils_get_count_order_u64_def)
next
  case False
  let ?q = "fls_u64 (x - 1)"
  have n: "unat x \<noteq> 0" using False by (simp add: unat_eq_0)
  have one: "x - 1 = 0 \<longleftrightarrow> unat x = 1" 
    by (metis right_minus_eq unat_1 unsigned_word_eqI)
  have "?q = (if unat x = 1 then 0 else ?q)" using one by auto
  moreover have "0 < ?q \<and> 2 ^ (?q - 1) \<le> unat x - 1 \<and> unat x - 1 < 2 ^ ?q" if "unat x \<noteq> 1"
    using fls_u64_bounds[of "x - 1"] one that False by (simp add: unat_minus_1)
  ultimately have "unat x \<le> 2 ^ ?q \<and> (\<forall>j. unat x \<le> 2 ^ j \<longrightarrow> ?q \<le> j)"
    by (rule count_order_least[OF n])
  moreover have "?q \<le> 64" using fls_u64_bounds[of "x - 1"] by (cases "x - 1 = 0") auto
  ultimately show ?thesis using False by (auto simp: utils_get_count_order_u64_def)
qed

lemma count_order_u64_obtain:
  assumes "0 < unat x"
  obtains r where "utils_get_count_order_u64 x = int r" "r \<le> 64" "unat x \<le> 2 ^ r"
    "\<And>j. unat x \<le> 2 ^ j \<Longrightarrow> r \<le> j"
proof -
  from assms have "x \<noteq> 0" by auto
  with count_order_u64[of x] show ?thesis by (auto intro: that)
qed

text \<open>
  C35: \<open>utils_get_count_order_u64\<close> returns the least order whose power of two is at least the
  argument, at most 64, for every non-zero argument, and -1 for zero.
\<close>

theorem count_order_u64_least:
  "if x = 0 then utils_get_count_order_u64 x = -1
   else \<exists>r. utils_get_count_order_u64 x = int r \<and> r \<le> 64 \<and> unat x \<le> 2 ^ r \<and>
        (\<forall>j. unat x \<le> 2 ^ j \<longrightarrow> r \<le> j)"
  by (rule count_order_u64)

theorem count_order_u64_least_witness:
  "\<exists>r. utils_get_count_order_u64 5 = int r \<and> 5 \<le> (2::nat) ^ r \<and> r \<le> 3"
proof -
  obtain r where r: "utils_get_count_order_u64 5 = int r" "unat (5 :: u64) \<le> 2 ^ r"
    and least: "\<forall>j. unat (5 :: u64) \<le> 2 ^ j \<longrightarrow> r \<le> j"
    using count_order_u64_least[of 5] by auto
  have "unat (5 :: u64) \<le> 2 ^ 3" by simp
  with least have "r \<le> 3" by blast
  with r show ?thesis by auto
qed

end
