(* ===== verification/Dynamic_Buffer.thy ===== *)
theory Dynamic_Buffer
  imports Count_Order
begin

text \<open>
  The growable byte buffer of \<open>src/common/dynamic-buffer.c\<close> and the read-only views of
  \<open>src/common/buffer-view.c\<close>.

  A buffer's \<open>data\<close> pointer is null, a live block of \<open>_capacity\<close> cells, or dangling (after
  \<open>lttng_dynamic_buffer_reset\<close>, which frees the block and keeps the pointer). Growing goes
  through \<open>realloc\<close>: the cells beyond the old block are indeterminate.
\<close>

section \<open>The buffer\<close>

datatype block = Null | Freed | Live mem

record lttng_dynamic_buffer =
  bdata :: block
  bsize :: size_t
  bcapacity :: size_t

definition round_to_power_of_2 :: "size_t \<Rightarrow> size_t run" where
  "round_to_power_of_2 val =
     (let order = utils_get_count_order_u64 val in do {
        c_assert (0 \<le> order);
        c_assert (order < 64); \<comment> \<open>a wider shift is undefined\<close>
        let rounded = push_bit (nat order) (1 :: size_t);
        c_assert (val \<le> rounded);
        Some rounded
      })"

definition lttng_dynamic_buffer_init :: lttng_dynamic_buffer where
  "lttng_dynamic_buffer_init = \<lparr>bdata = Null, bsize = 0, bcapacity = 0\<rparr>"

text \<open>\<open>realloc\<close>: the result keeps the common prefix; a null result leaves the block alone.\<close>

definition realloc :: "heap \<Rightarrow> block \<Rightarrow> nat \<Rightarrow> (block option \<times> heap) run" where
  "realloc h p n = (case p of
       Freed \<Rightarrow> crash
     | Null \<Rightarrow> (let (ok, h') = zmalloc h in
         Some (if ok then Some (Live (replicate n None)) else None, h'))
     | Live m \<Rightarrow> (let (ok, h') = zmalloc h in
         Some (if ok then (Some (Live (take n m @ replicate (n - length m) None)), c_free h')
               else (None, h'))))"

text \<open>A null \<open>buffer\<close> argument is \<open>None\<close>; the calls return the error code and the new state.\<close>

definition lttng_dynamic_buffer_set_capacity ::
  "heap \<Rightarrow> lttng_dynamic_buffer option \<Rightarrow> size_t \<Rightarrow> (int \<times> lttng_dynamic_buffer option \<times> heap) run"
where
  "lttng_dynamic_buffer_set_capacity h buffer demanded_capacity = do {
     new_capacity \<leftarrow> round_to_power_of_2 demanded_capacity;
     (case buffer of
        None \<Rightarrow> Some (-1, buffer, h)
      | Some b \<Rightarrow>
          if demanded_capacity < bsize b then Some (-1, buffer, h)
          else if new_capacity = bcapacity b then Some (0, buffer, h)
          else do {
            (new_buf, h') \<leftarrow> realloc h (bdata b) (unat new_capacity);
            (case new_buf of
               None \<Rightarrow> Some (-1, buffer, h')
             | Some p \<Rightarrow> Some (0, Some (b\<lparr>bdata := p, bcapacity := new_capacity\<rparr>), h'))
          })
   }"

text \<open>Stores into the block of a buffer (\<open>memcpy\<close> and \<open>memset\<close> at an offset of \<open>data\<close>).\<close>

definition store :: "lttng_dynamic_buffer \<Rightarrow> nat \<Rightarrow> cell list \<Rightarrow> lttng_dynamic_buffer run" where
  "store b off cs = (case bdata b of
       Live m \<Rightarrow> map_option (\<lambda>m'. b\<lparr>bdata := Live m'\<rparr>) (wr_cells m off cs)
     | _ \<Rightarrow> if cs = [] then Some b else crash)"

definition lttng_dynamic_buffer_append ::
  "heap \<Rightarrow> lttng_dynamic_buffer option \<Rightarrow> cell list option \<Rightarrow> size_t \<Rightarrow>
     (int \<times> lttng_dynamic_buffer option \<times> heap) run"
where
  "lttng_dynamic_buffer_append h buffer buf len =
     (case buffer of
        None \<Rightarrow> Some (-1, buffer, h)
      | Some b \<Rightarrow>
          if buf = None \<and> len \<noteq> 0 then Some (-1, buffer, h)
          else if len = 0 then Some (0, buffer, h)
          else do {
            c_assert (bsize b \<le> bcapacity b);
            (ret, buffer', h') \<leftarrow>
              (if bcapacity b < len + bsize b
               then lttng_dynamic_buffer_set_capacity h buffer
                      (bcapacity b + (len - (bcapacity b - bsize b)))
               else Some (0, buffer, h));
            if ret \<noteq> 0 then Some (ret, buffer', h')
            else do {
              b' \<leftarrow> buffer';
              c_assert (unat len \<le> length (the buf)); \<comment> \<open>the source object is large enough\<close>
              b'' \<leftarrow> store b' (unat (bsize b')) (take (unat len) (the buf));
              Some (0, Some (b''\<lparr>bsize := bsize b'' + len\<rparr>), h')
            }
          })"

text \<open>The cells of the buffer that are in use.\<close>

definition block_cells :: "block \<Rightarrow> cell list option" where
  "block_cells p = (case p of Live m \<Rightarrow> Some m | _ \<Rightarrow> None)"

definition lttng_dynamic_buffer_append_buffer ::
  "heap \<Rightarrow> lttng_dynamic_buffer option \<Rightarrow> lttng_dynamic_buffer option \<Rightarrow>
     (int \<times> lttng_dynamic_buffer option \<times> heap) run"
where
  "lttng_dynamic_buffer_append_buffer h dst_buffer src_buffer =
     (case (dst_buffer, src_buffer) of
        (Some d, Some s) \<Rightarrow>
          lttng_dynamic_buffer_append h dst_buffer (block_cells (bdata s)) (bsize s)
      | _ \<Rightarrow> Some (-1, dst_buffer, h))"

definition lttng_dynamic_buffer_set_size ::
  "heap \<Rightarrow> lttng_dynamic_buffer option \<Rightarrow> size_t \<Rightarrow> (int \<times> lttng_dynamic_buffer option \<times> heap) run"
where
  "lttng_dynamic_buffer_set_size h buffer new_size =
     (case buffer of
        None \<Rightarrow> Some (0, buffer, h)
      | Some b \<Rightarrow>
          if new_size = bsize b then Some (0, buffer, h)
          else if bcapacity b < new_size then do {
            let original_size = bsize b;
            let original_capacity = bcapacity b;
            (ret, buffer', h') \<leftarrow> lttng_dynamic_buffer_set_capacity h buffer new_size;
            if ret \<noteq> 0 then Some (ret, buffer', h')
            else do {
              b' \<leftarrow> buffer';
              b'' \<leftarrow> store b' (unat original_size)
                      (replicate (unat (original_capacity - original_size)) (Some 0));
              Some (0, Some (b''\<lparr>bsize := new_size\<rparr>), h')
            }
          }
          else if bsize b < new_size then do {
            b' \<leftarrow> store b (unat (bsize b)) (replicate (unat (new_size - bsize b)) (Some 0));
            Some (0, Some (b'\<lparr>bsize := new_size\<rparr>), h)
          }
          else Some (0, Some (b\<lparr>bsize := new_size\<rparr>), h))"

definition lttng_dynamic_buffer_reset ::
  "heap \<Rightarrow> lttng_dynamic_buffer option \<Rightarrow> (lttng_dynamic_buffer option \<times> heap) run"
where
  "lttng_dynamic_buffer_reset h buffer =
     (case buffer of
        None \<Rightarrow> Some (None, h)
      | Some b \<Rightarrow> (case bdata b of
          Freed \<Rightarrow> crash
        | Null \<Rightarrow> Some (Some (b\<lparr>bsize := 0, bcapacity := 0\<rparr>), h)
        | Live m \<Rightarrow> Some (Some (b\<lparr>bsize := 0, bcapacity := 0, bdata := Freed\<rparr>), c_free h)))"

section \<open>Views\<close>

text \<open>
  A view's \<open>data\<close> is null or an offset into the object the view was taken from. \<open>len\<close> is a
  \<open>ptrdiff_t\<close>; compared with a \<open>size_t\<close> it is converted to unsigned.
\<close>

record lttng_buffer_view =
  vdata :: "nat option"
  vsize :: size_t

abbreviation null_view :: lttng_buffer_view where
  "null_view \<equiv> \<lparr>vdata = None, vsize = 0\<rparr>"

definition view_of :: "nat option \<Rightarrow> size_t \<Rightarrow> size_t \<Rightarrow> int \<Rightarrow> lttng_buffer_view" where
  "view_of data sz offset len =
     (if sz < offset then null_view
      else if len \<noteq> -1 \<and> sz - offset < word_of_int len then null_view
      else \<lparr>vdata = map_option (\<lambda>a. a + unat offset) data,
            vsize = (if len = -1 then sz - offset else word_of_int len)\<rparr>)"

definition lttng_buffer_view_from_view ::
  "lttng_buffer_view option \<Rightarrow> size_t \<Rightarrow> int \<Rightarrow> lttng_buffer_view run"
where
  "lttng_buffer_view_from_view src offset len =
     (case src of None \<Rightarrow> crash | Some s \<Rightarrow> Some (view_of (vdata s) (vsize s) offset len))"

definition lttng_buffer_view_from_dynamic_buffer ::
  "lttng_dynamic_buffer option \<Rightarrow> size_t \<Rightarrow> int \<Rightarrow> lttng_buffer_view run"
where
  "lttng_buffer_view_from_dynamic_buffer src offset len =
     (case src of
        None \<Rightarrow> crash
      | Some b \<Rightarrow>
          Some (view_of (case bdata b of Live _ \<Rightarrow> Some 0 | _ \<Rightarrow> None) (bsize b) offset len))"

section \<open>Invariant and contents\<close>

definition buf_ok :: "lttng_dynamic_buffer \<Rightarrow> bool" where
  "buf_ok b \<longleftrightarrow>
     (case bdata b of
        Null \<Rightarrow> bcapacity b = 0
      | Freed \<Rightarrow> False
      | Live m \<Rightarrow> length m = unat (bcapacity b) \<and> (\<exists>k < 64. unat (bcapacity b) = 2 ^ k)) \<and>
     bsize b \<le> bcapacity b"

definition contents :: "lttng_dynamic_buffer \<Rightarrow> cell list" where
  "contents b = (case bdata b of Live m \<Rightarrow> take (unat (bsize b)) m | _ \<Rightarrow> [])"

lemma buf_ok_init [simp]: "buf_ok lttng_dynamic_buffer_init" "contents lttng_dynamic_buffer_init = []"
  by (simp_all add: buf_ok_def contents_def lttng_dynamic_buffer_init_def)

lemma buf_ok_size_le: "buf_ok b \<Longrightarrow> unat (bsize b) \<le> unat (bcapacity b)"
  by (simp add: buf_ok_def word_le_nat_alt)

lemma length_contents: "buf_ok b \<Longrightarrow> length (contents b) = unat (bsize b)"
  using buf_ok_size_le[of b]
  by (auto simp: buf_ok_def contents_def split: block.splits)

lemma buf_ok_cases [consumes 1, case_names empty live]:
  assumes "buf_ok b"
  obtains "bdata b = Null" "bcapacity b = 0" "bsize b = 0" "contents b = []"
  | m k where "bdata b = Live m" "length m = unat (bcapacity b)" "k < 64"
      "unat (bcapacity b) = 2 ^ k" "contents b = take (unat (bsize b)) m"
  using assms by (auto simp: buf_ok_def contents_def word_le_nat_alt unat_eq_0 split: block.splits)

lemma unat_1_shift: "k < 64 \<Longrightarrow> unat (push_bit k (1 :: u64)) = 2 ^ k"
  by (simp add: unsigned_push_bit_eq push_bit_nat_def take_bit_nat_eq_self del: push_bit_of_1)

lemma round_to_power_of_2_Some:
  assumes "0 < val" "unat val \<le> 2 ^ 63"
  shows "\<exists>r k. round_to_power_of_2 val = Some r \<and> val \<le> r \<and> k < 64 \<and> unat r = 2 ^ k"
proof -
  from assms have "0 < unat val" by (simp add: word_less_nat_alt)
  then obtain r where r: "utils_get_count_order_u64 val = int r" "unat val \<le> 2 ^ r"
    and least: "\<And>j. unat val \<le> 2 ^ j \<Longrightarrow> r \<le> j"
    by (rule count_order_u64_obtain) blast
  from least[of 63] assms have k: "r < 64" by simp
  then show ?thesis
    using r by (auto simp: round_to_power_of_2_def word_le_nat_alt unat_1_shift
        simp del: push_bit_of_1 intro!: exI[of _ r])
qed

lemma round_to_power_of_2_crash:
  "val = 0 \<or> 2 ^ 63 < unat val \<Longrightarrow> round_to_power_of_2 val = crash"
proof (elim disjE)
  assume "2 ^ 63 < unat val"
  moreover from this have "0 < unat val" by linarith
  then obtain r where r: "utils_get_count_order_u64 val = int r" "unat val \<le> 2 ^ r"
    by (rule count_order_u64_obtain)
  ultimately have "2 ^ 63 < (2::nat) ^ r" by linarith
  then have "63 < r" using power_strict_increasing_iff[of "2::nat" 63 r] by simp
  with r show ?thesis by (simp add: round_to_power_of_2_def bind_c_assert)
qed (simp add: round_to_power_of_2_def utils_get_count_order_u64_def bind_c_assert)

text \<open>What \<open>realloc\<close> does to a well-formed buffer.\<close>

lemma realloc_buf:
  assumes b: "buf_ok b" and n: "unat n = 2 ^ k" "k < 64" "bsize b \<le> n"
  shows "\<exists>h'. realloc h (bdata b) (unat n) = Some (None, h') \<and> \<not> fst (zmalloc h) \<or>
    (\<exists>m'. realloc h (bdata b) (unat n) = Some (Some (Live m'), h') \<and> length m' = unat n \<and>
       (\<forall>i. i \<le> unat n \<longrightarrow> take i m' =
          take i (contents b) @ take (i - unat (bsize b))
            (drop (unat (bsize b)) (case bdata b of Live m \<Rightarrow> m | _ \<Rightarrow> []) @
             replicate (unat n - unat (bcapacity b)) None)) \<and>
       buf_ok (b\<lparr>bdata := Live m', bcapacity := n\<rparr>))"
proof -
  obtain ok h1 where z: "zmalloc h = (ok, h1)" by (cases "zmalloc h")
  show ?thesis
    using b
  proof (cases rule: buf_ok_cases)
    case empty
    then show ?thesis
      using z n by (cases ok) (auto simp: realloc_def buf_ok_def)
  next
    case (live m j)
    let ?m' = "take (unat n) m @ replicate (unat n - length m) None"
    have sz: "unat (bsize b) \<le> length m" using live buf_ok_size_le[OF b] by simp
    have "take i ?m' = take i (contents b) @ take (i - unat (bsize b))
            (drop (unat (bsize b)) m @ replicate (unat n - unat (bcapacity b)) None)"
      if "i \<le> unat n" for i
    proof -
      have "m = contents b @ drop (unat (bsize b)) m" using live by simp
      moreover have "length (contents b) = unat (bsize b)" using b by (rule length_contents)
      ultimately have "take i (m @ replicate (unat n - length m) None) =
          take i (contents b) @ take (i - unat (bsize b))
            (drop (unat (bsize b)) m @ replicate (unat n - length m) None)"
        by (metis append.assoc take_append)
      moreover have "take i ?m' = take i (m @ replicate (unat n - length m) None)"
        using that by (simp add: min_def)
      ultimately show ?thesis using live by simp
    qed
    then show ?thesis
      using z n live by (cases ok) (auto simp: realloc_def buf_ok_def)
  qed
qed

section \<open>Capacity changes\<close>

text \<open>The block behind a buffer, read as a list of cells.\<close>

definition cells :: "lttng_dynamic_buffer \<Rightarrow> cell list" where
  "cells b = (case bdata b of Live m \<Rightarrow> m | _ \<Rightarrow> [])"

lemma length_cells: "buf_ok b \<Longrightarrow> length (cells b) = unat (bcapacity b)"
  by (auto simp: buf_ok_def cells_def split: block.splits)

lemma contents_cells: "buf_ok b \<Longrightarrow> contents b = take (unat (bsize b)) (cells b)"
  by (auto simp: contents_def cells_def split: block.splits)

lemma set_capacity_ok:
  assumes b: "buf_ok b" and d: "0 < d" "unat d \<le> 2 ^ 63"
  obtains (fails) h' where
      "lttng_dynamic_buffer_set_capacity h (Some b) d = Some (-1, Some b, h')"
      "d < bsize b \<or> \<not> fst (zmalloc h)"
  | (grows) b' h' where
      "lttng_dynamic_buffer_set_capacity h (Some b) d = Some (0, Some b', h')"
      "buf_ok b'" "bsize b' = bsize b" "contents b' = contents b" "unat d \<le> unat (bcapacity b')"
      "\<And>i. unat d \<le> i \<Longrightarrow> i \<le> unat (bcapacity b') \<Longrightarrow> unat (bcapacity b) \<le> i \<Longrightarrow> take i (cells b') =
         cells b @ replicate (i - unat (bcapacity b)) None"
proof -
  obtain n k where n: "round_to_power_of_2 d = Some n" "d \<le> n" "k < 64" "unat n = 2 ^ k"
    using round_to_power_of_2_Some[OF d] by blast
  show thesis
  proof (cases "d < bsize b \<or> n = bcapacity b")
    case True
    then show thesis
    proof (cases "d < bsize b")
      case False
      with True n b show thesis
        by (intro grows[of b h])
          (auto simp: lttng_dynamic_buffer_set_capacity_def word_le_nat_alt length_cells)
    qed (use n in \<open>auto simp: lttng_dynamic_buffer_set_capacity_def intro: fails\<close>)
  next
    case False
    then have "bsize b \<le> n" using n(2) by auto
    from realloc_buf[OF b n(4) n(3) this, of h] obtain h' where
      "realloc h (bdata b) (unat n) = Some (None, h') \<and> \<not> fst (zmalloc h) \<or>
       (\<exists>m'. realloc h (bdata b) (unat n) = Some (Some (Live m'), h') \<and> length m' = unat n \<and>
         (\<forall>i. i \<le> unat n \<longrightarrow> take i m' = take i (contents b) @ take (i - unat (bsize b))
            (drop (unat (bsize b)) (cells b) @ replicate (unat n - unat (bcapacity b)) None)) \<and>
         buf_ok (b\<lparr>bdata := Live m', bcapacity := n\<rparr>))"
      by (auto simp: cells_def)
    then show thesis
    proof (elim disjE exE conjE)
      assume "realloc h (bdata b) (unat n) = Some (None, h')" "\<not> fst (zmalloc h)"
      with n False show thesis
        by (intro fails[of h']) (simp_all add: lttng_dynamic_buffer_set_capacity_def)
    next
      fix m'
      let ?b' = "b\<lparr>bdata := Live m', bcapacity := n\<rparr>"
      assume r: "realloc h (bdata b) (unat n) = Some (Some (Live m'), h')"
        and len: "length m' = unat n" and ok: "buf_ok ?b'"
        and pre: "\<forall>i. i \<le> unat n \<longrightarrow> take i m' = take i (contents b) @ take (i - unat (bsize b))
            (drop (unat (bsize b)) (cells b) @ replicate (unat n - unat (bcapacity b)) None)"
      have sz: "unat (bsize b) \<le> unat n" using \<open>bsize b \<le> n\<close> by (simp add: word_le_nat_alt)
      have lc: "length (contents b) = unat (bsize b)" using b by (rule length_contents)
      have le: "unat (bsize b) \<le> unat (bcapacity b)" using b by (rule buf_ok_size_le)
      have tk: "take i m' = cells b @ replicate (i - unat (bcapacity b)) None"
        if "i \<le> unat n" "unat (bcapacity b) \<le> i" for i
      proof -
        have "take i m' = contents b @ take (i - unat (bsize b))
            (drop (unat (bsize b)) (cells b) @ replicate (unat n - unat (bcapacity b)) None)"
          using pre that le lc by simp
        also have "\<dots> = contents b @ drop (unat (bsize b)) (cells b) @
            replicate (i - unat (bcapacity b)) None"
          using that le length_cells[OF b] by (simp add: min_def)
        finally show ?thesis using b by (simp add: contents_cells flip: append.assoc)
      qed
      show thesis
      proof (rule grows)
        show "lttng_dynamic_buffer_set_capacity h (Some b) d = Some (0, Some ?b', h')"
          using n False r by (simp add: lttng_dynamic_buffer_set_capacity_def)
        show "contents ?b' = contents b" using pre sz lc by (simp add: contents_def)
      qed (use ok n tk in \<open>auto simp: word_le_nat_alt cells_def\<close>)
    qed
  qed
qed

lemma store_ok:
  assumes b: "buf_ok b" and "off + length cs \<le> unat (bcapacity b)"
  obtains b' where "store b off cs = Some b'" "buf_ok b'" "bsize b' = bsize b"
    "bcapacity b' = bcapacity b" "cells b' = take off (cells b) @ cs @ drop (off + length cs) (cells b)"
proof (cases "bdata b")
  case (Live m)
  then have "length m = unat (bcapacity b)" using b by (simp add: buf_ok_def)
  with Live assms show ?thesis
    by (intro that[of "b\<lparr>bdata := Live (take off m @ cs @ drop (off + length cs) m)\<rparr>"])
      (auto simp: store_def wr_cells_def buf_ok_def cells_def)
next
  case Null
  then have "cs = []" using assms by (simp add: buf_ok_def)
  with Null b show ?thesis by (intro that[of b]) (auto simp: store_def cells_def buf_ok_def)
qed (use b in \<open>simp add: buf_ok_def\<close>)

lemma buf_ok_resize: "buf_ok b \<Longrightarrow> n \<le> bcapacity b \<Longrightarrow> buf_ok (b\<lparr>bsize := n\<rparr>)"
  by (auto simp: buf_ok_def split: block.splits)

lemma cells_resize [simp]: "cells (b\<lparr>bsize := n\<rparr>) = cells b"
  by (simp add: cells_def)

section \<open>Append\<close>

lemma append_ok:
  assumes b: "buf_ok b" and len: "unat len = length cs" and small: "unat (bsize b) + unat len \<le> 2 ^ 63"
  obtains (fails) h' where
      "lttng_dynamic_buffer_append h (Some b) (Some cs) len = Some (-1, Some b, h')"
      "\<not> fst (zmalloc h)" "unat (bcapacity b) < unat (bsize b) + unat len"
  | (appends) b' h' where
      "lttng_dynamic_buffer_append h (Some b) (Some cs) len = Some (0, Some b', h')"
      "buf_ok b'" "bsize b' = bsize b + len" "contents b' = contents b @ cs"
proof (cases "len = 0")
  case True
  then show ?thesis
    using b len by (intro appends[of b h]) (simp_all add: lttng_dynamic_buffer_append_def)
next
  case False
  have sum: "unat (len + bsize b) = unat len + unat (bsize b)"
    using small by (subst unat_add_lem[symmetric]) simp
  have assn: "bsize b \<le> bcapacity b" using b by (simp add: buf_ok_def)
  have put: thesis
    if b': "buf_ok b'" "bsize b' = bsize b" "contents b' = contents b"
      "unat (len + bsize b) \<le> unat (bcapacity b')"
      and run: "lttng_dynamic_buffer_append h (Some b) (Some cs) len =
        Option.bind (store b' (unat (bsize b')) (take (unat len) cs))
          (\<lambda>b''. Some (0, Some (b''\<lparr>bsize := bsize b'' + len\<rparr>), h'))" for b' h'
  proof -
    have "unat (bsize b') + length cs \<le> unat (bcapacity b')" using b' sum len by simp
    then obtain b'' where s: "store b' (unat (bsize b')) cs = Some b''" "buf_ok b''"
      "bsize b'' = bsize b" "bcapacity b'' = bcapacity b'"
      "cells b'' = take (unat (bsize b')) (cells b') @ cs @ drop (unat (bsize b') + length cs) (cells b')"
      using store_ok[OF b'(1)] b'(2) by metis
    show thesis
    proof (rule appends)
      show "lttng_dynamic_buffer_append h (Some b) (Some cs) len =
          Some (0, Some (b''\<lparr>bsize := bsize b'' + len\<rparr>), h')"
        using run s len by simp
      show ok: "buf_ok (b''\<lparr>bsize := bsize b'' + len\<rparr>)"
        using s b' by (intro buf_ok_resize) (simp_all add: word_le_nat_alt add.commute)
      show "contents (b''\<lparr>bsize := bsize b'' + len\<rparr>) = contents b @ cs"
        using s sum len b' contents_cells[OF ok] length_contents[OF b] contents_cells[OF b'(1)]
        by (simp add: add.commute[of len])
    qed (use s in simp)
  qed
  show ?thesis
  proof (cases "bcapacity b < len + bsize b")
    case True
    have dem: "bcapacity b + (len - (bcapacity b - bsize b)) = len + bsize b" by simp
    have pos: "0 < len + bsize b" "unat (len + bsize b) \<le> 2 ^ 63"
      using False small sum by (auto simp: word_less_nat_alt unat_gt_0)
    from b pos show ?thesis
    proof (cases rule: set_capacity_ok[where h = h])
      case (fails h')
      then show ?thesis
        using False True assn dem sum
        by (intro that(1)[of h'])
          (simp_all add: lttng_dynamic_buffer_append_def word_less_nat_alt)
    next
      case (grows b' h')
      then show ?thesis
        using False True assn dem len
        by (intro put[of b' h']) (simp_all add: lttng_dynamic_buffer_append_def)
    qed
  next
    case nogrow: False
    then show ?thesis
      using False assn b len
      by (intro put[of b h]) (simp_all add: lttng_dynamic_buffer_append_def word_less_nat_alt)
  qed
qed

section \<open>Size changes\<close>

lemma set_size_ok:
  assumes b: "buf_ok b" and small: "unat n \<le> 2 ^ 63"
  obtains (fails) h' where "lttng_dynamic_buffer_set_size h (Some b) n = Some (-1, Some b, h')"
      "\<not> fst (zmalloc h)"
  | (resizes) b' h' where "lttng_dynamic_buffer_set_size h (Some b) n = Some (0, Some b', h')"
      "buf_ok b'" "bsize b' = n"
      "contents b' = take (unat n) (contents b @
         replicate (unat (bcapacity b) - unat (bsize b)) (Some 0) @
         replicate (unat n - unat (bcapacity b)) None)"
proof -
  let ?s = "unat (bsize b)" and ?c = "unat (bcapacity b)" and ?n = "unat n"
  have sc: "?s \<le> ?c" using b by (rule buf_ok_size_le)
  have lc: "length (contents b) = ?s" using b by (rule length_contents)
  consider (same) "n = bsize b" | (grow) "bcapacity b < n" | (zero) "bsize b < n" "n \<le> bcapacity b"
    | (shrink) "n < bsize b" by fastforce
  then show thesis
  proof cases
    case same
    with b lc sc show thesis
      by (intro resizes[of b h]) (simp_all add: lttng_dynamic_buffer_set_size_def)
  next
    case shrink
    have le: "?n \<le> ?s" using shrink by (simp add: word_less_nat_alt)
    have "n \<le> bcapacity b" using le sc by (simp add: word_le_nat_alt)
    then have ok: "buf_ok (b\<lparr>bsize := n\<rparr>)" using b by (rule buf_ok_resize[rotated])
    show thesis
    proof (rule resizes)
      show "lttng_dynamic_buffer_set_size h (Some b) n = Some (0, Some (b\<lparr>bsize := n\<rparr>), h)"
        using shrink le sc
        by (auto simp: lttng_dynamic_buffer_set_size_def word_less_nat_alt)
      show "contents (b\<lparr>bsize := n\<rparr>) = take ?n (contents b @
         replicate (?c - ?s) (Some 0) @ replicate (?n - ?c) None)"
        using contents_cells[OF ok] contents_cells[OF b] le lc by (simp add: min_def)
    qed (use ok in simp_all)
  next
    case zero
    have le: "?s < ?n" "?n \<le> ?c" using zero by (simp_all add: word_less_nat_alt word_le_nat_alt)
    have d: "unat (n - bsize b) = ?n - ?s" using zero(1) by (intro unat_sub) simp
    obtain b' where s: "store b ?s (replicate (?n - ?s) (Some 0)) = Some b'" "buf_ok b'"
      "bsize b' = bsize b" "bcapacity b' = bcapacity b"
      "cells b' = take ?s (cells b) @ replicate (?n - ?s) (Some 0) @ drop (?s + (?n - ?s)) (cells b)"
      using store_ok[OF b, of ?s "replicate (?n - ?s) (Some 0)"] le by auto
    have ok: "buf_ok (b'\<lparr>bsize := n\<rparr>)" using s zero by (intro buf_ok_resize) simp_all
    show thesis
    proof (rule resizes)
      show "lttng_dynamic_buffer_set_size h (Some b) n = Some (0, Some (b'\<lparr>bsize := n\<rparr>), h)"
        using zero s d by (auto simp: lttng_dynamic_buffer_set_size_def)
      show "contents (b'\<lparr>bsize := n\<rparr>) = take ?n (contents b @
         replicate (?c - ?s) (Some 0) @ replicate (?n - ?c) None)"
        using contents_cells[OF ok] contents_cells[OF b] le lc s by (simp add: min_def)
    qed (use ok in simp_all)
  next
    case grow
    have le: "?c < ?n" using grow by (simp add: word_less_nat_alt)
    have ne: "n \<noteq> bsize b" using le sc by auto
    have "0 < n" using le by (simp add: word_less_nat_alt)
    from b this small show thesis
    proof (cases rule: set_capacity_ok[where h = h])
      case (fails h')
      with grow ne le sc show thesis
        by (intro that(1)[of h'])
          (auto simp: lttng_dynamic_buffer_set_size_def word_less_nat_alt)
    next
      case (grows b' h')
      have d: "unat (bcapacity b - bsize b) = ?c - ?s"
        using sc by (intro unat_sub) (simp add: word_le_nat_alt)
      obtain b'' where s: "store b' ?s (replicate (?c - ?s) (Some 0)) = Some b''" "buf_ok b''"
        "bsize b'' = bsize b" "bcapacity b'' = bcapacity b'"
        "cells b'' = take ?s (cells b') @ replicate (?c - ?s) (Some 0) @ drop (?s + (?c - ?s)) (cells b')"
        using store_ok[OF grows(2), of ?s "replicate (?c - ?s) (Some 0)"] le sc grows by auto
      have ok: "buf_ok (b''\<lparr>bsize := n\<rparr>)"
        using s grows by (intro buf_ok_resize) (simp_all add: word_le_nat_alt)
      have "take (?n - ?c) (drop ?c (cells b')) = drop ?c (take ?n (cells b'))"
        using le by (simp add: take_drop)
      also have "\<dots> = replicate (?n - ?c) None"
        using grows(6)[of ?n] grows(5) le length_cells[OF b] by simp
      finally have tail: "take (?n - ?c) (drop ?c (cells b')) = replicate (?n - ?c) None" .
      have head: "take ?s (cells b') = contents b"
        using contents_cells[OF grows(2)] grows by simp
      show thesis
      proof (rule resizes)
        show "lttng_dynamic_buffer_set_size h (Some b) n = Some (0, Some (b''\<lparr>bsize := n\<rparr>), h')"
          using grow ne s d grows(1) by (auto simp: lttng_dynamic_buffer_set_size_def)
        show "contents (b''\<lparr>bsize := n\<rparr>) = take ?n (contents b @
           replicate (?c - ?s) (Some 0) @ replicate (?n - ?c) None)"
          using contents_cells[OF ok] s head tail sc le lc by (simp add: min_def)
      qed (use ok in simp_all)
    qed
  qed
qed

section \<open>Reachable buffers\<close>

text \<open>
  The calls a client makes on a live buffer, with the sizes kept below \<open>2 ^ 63\<close> (beyond that
  rounding to a power of two is undefined).
\<close>

inductive buf_step :: "lttng_dynamic_buffer \<Rightarrow> lttng_dynamic_buffer \<Rightarrow> bool" where
  append: "lttng_dynamic_buffer_append h (Some b) (Some cs) len = Some (ret, Some b', h') \<Longrightarrow>
    unat len = length cs \<Longrightarrow> unat (bsize b) + unat len \<le> 2 ^ 63 \<Longrightarrow> buf_step b b'"
| append_buffer: "lttng_dynamic_buffer_append_buffer h (Some b) (Some src) = Some (ret, Some b', h') \<Longrightarrow>
    buf_ok src \<Longrightarrow> unat (bsize b) + unat (bsize src) \<le> 2 ^ 63 \<Longrightarrow> buf_step b b'"
| set_size: "lttng_dynamic_buffer_set_size h (Some b) n = Some (ret, Some b', h') \<Longrightarrow>
    unat n \<le> 2 ^ 63 \<Longrightarrow> buf_step b b'"
| set_capacity: "lttng_dynamic_buffer_set_capacity h (Some b) n = Some (ret, Some b', h') \<Longrightarrow>
    0 < n \<Longrightarrow> unat n \<le> 2 ^ 63 \<Longrightarrow> buf_step b b'"

inductive buf_reachable :: "lttng_dynamic_buffer \<Rightarrow> bool" where
  init: "buf_reachable lttng_dynamic_buffer_init"
| step: "buf_reachable b \<Longrightarrow> buf_step b b' \<Longrightarrow> buf_reachable b'"

text \<open>Appending a well-formed buffer copies the whole of its contents.\<close>

lemma append_buffer_is_append:
  assumes src: "buf_ok src" and b: "buf_ok b"
  shows "lttng_dynamic_buffer_append_buffer h (Some b) (Some src) =
    lttng_dynamic_buffer_append h (Some b) (Some (contents src)) (bsize src)"
  using src
proof (cases rule: buf_ok_cases)
  case empty
  then show ?thesis
    by (simp add: lttng_dynamic_buffer_append_buffer_def lttng_dynamic_buffer_append_def)
next
  case (live m k)
  have "unat (bsize src) \<le> length m" using live buf_ok_size_le[OF src] by simp
  then show ?thesis
    using live
    by (auto simp: lttng_dynamic_buffer_append_buffer_def lttng_dynamic_buffer_append_def
        block_cells_def min_def cong: if_cong)
qed

lemma buf_step_ok: "buf_step b b' \<Longrightarrow> buf_ok b \<Longrightarrow> buf_ok b'"
proof (induction rule: buf_step.induct)
  case (append h b cs len ret b' h')
  from append(4,2,3) show ?case using append(1,4)
    by (cases rule: append_ok[where h = h]) auto
next
  case (append_buffer h b src ret b' h')
  have "unat (bsize src) = length (contents src)" using append_buffer(2) by (simp add: length_contents)
  from append_buffer(4) this append_buffer(3) show ?case
    using append_buffer(1,4) append_buffer_is_append[OF append_buffer(2,4)]
    by (cases rule: append_ok[where h = h]) auto
next
  case (set_size h b n ret b' h')
  from set_size(3,2) show ?case using set_size(1,3)
    by (cases rule: set_size_ok[where h = h]) auto
next
  case (set_capacity h b n ret b' h')
  from set_capacity(4,2,3) show ?case using set_capacity(1,4)
    by (cases rule: set_capacity_ok[where h = h]) auto
qed

lemma buf_reachable_ok: "buf_reachable b \<Longrightarrow> buf_ok b"
  by (induction rule: buf_reachable.induct) (auto intro: buf_step_ok)

section \<open>Properties\<close>

abbreviation heap0 :: heap where
  "heap0 \<equiv> \<lparr>outcomes = [], live = 0\<rparr>"

lemma round_to_power_of_2_3: "round_to_power_of_2 3 = Some 4"
  by (simp add: round_to_power_of_2_def utils_get_count_order_u64_def fls_u64_def fls_step_def
      Let_def)



text \<open>
  C7: Appending to a well-formed buffer either appends exactly the given cells and keeps the
  buffer well-formed, or, only when an allocation was needed and failed, returns -1 and leaves
  the buffer as it was.
\<close>

theorem dynamic_buffer_append_correct:
  assumes "buf_ok b" "unat len = length cs" "unat (bsize b) + unat len \<le> 2 ^ 63"
  shows "(\<exists>h'. lttng_dynamic_buffer_append h (Some b) (Some cs) len = Some (-1, Some b, h') \<and>
            \<not> fst (zmalloc h) \<and> unat (bcapacity b) < unat (bsize b) + unat len) \<or>
    (\<exists>b' h'. lttng_dynamic_buffer_append h (Some b) (Some cs) len = Some (0, Some b', h') \<and>
       buf_ok b' \<and> contents b' = contents b @ cs)"
  using assms by (cases rule: append_ok[where h = h]) auto

theorem dynamic_buffer_append_correct_witness:
  "\<exists>b' h'. lttng_dynamic_buffer_append heap0 (Some lttng_dynamic_buffer_init)
      (Some [Some 7, Some 8]) 2 = Some (0, Some b', h') \<and> contents b' = [Some 7, Some 8]"
  using dynamic_buffer_append_correct[of lttng_dynamic_buffer_init 2 "[Some 7, Some 8]" heap0]
  by (auto simp: lttng_dynamic_buffer_init_def contents_def buf_ok_def)

text \<open>
  \<open>lttng_dynamic_buffer_set_size\<close> yields exactly: the old contents, zeroes up to the capacity
  the buffer had before the call, and indeterminate bytes beyond it (cut at the new size). The
  bytes gained by a capacity increase are not zeroed.
\<close>

theorem dynamic_buffer_set_size_contents:
  assumes "buf_ok b" "unat n \<le> 2 ^ 63"
  shows "(\<exists>h'. lttng_dynamic_buffer_set_size h (Some b) n = Some (-1, Some b, h') \<and>
            \<not> fst (zmalloc h)) \<or>
    (\<exists>b' h'. lttng_dynamic_buffer_set_size h (Some b) n = Some (0, Some b', h') \<and> buf_ok b' \<and>
       contents b' = take (unat n) (contents b @
         replicate (unat (bcapacity b) - unat (bsize b)) (Some 0) @
         replicate (unat n - unat (bcapacity b)) None))"
  using assms by (cases rule: set_size_ok[where h = h]) auto

theorem dynamic_buffer_set_size_contents_witness:
  "\<exists>b' h'. lttng_dynamic_buffer_set_size heap0 (Some lttng_dynamic_buffer_init) 5 =
       Some (0, Some b', h') \<and> contents b' = replicate 5 None"
  using dynamic_buffer_set_size_contents[of lttng_dynamic_buffer_init 5 heap0]
  by (auto simp: lttng_dynamic_buffer_init_def contents_def buf_ok_def)

end
