(* ===== verification/Codec.thy ===== *)
theory Codec
  imports Dynamic_Buffer
begin

text \<open>
  The contract the serializable objects of the notification API share (conditions, actions,
  evaluations, triggers, notifications): a \<open>serialize\<close> function that answers a size query when its
  destination is null and otherwise writes exactly that many bytes, and a \<open>create_from_buffer\<close>
  function that reads them back through a view. The lemmas on views and on consecutive writes at
  the top are what the components use to establish the contract; the locales hold what follows
  from it for every object.
\<close>

section \<open>Writes\<close>

text \<open>The object after \<open>bs\<close> were written at \<open>off\<close>.\<close>

definition patch :: "mem \<Rightarrow> nat \<Rightarrow> byte list \<Rightarrow> mem" where
  "patch m off bs = take off m @ map Some bs @ drop (off + length bs) m"

lemma wr_bytes_patch [wire_simps]:
  "off + length bs \<le> length m \<Longrightarrow> wr_bytes m off bs = Some (patch m off bs)"
  by (simp add: patch_def wr_bytes_split)

lemma length_patch [simp]: "off + length bs \<le> length m \<Longrightarrow> length (patch m off bs) = length m"
  by (simp add: patch_def)

lemma patch_Nil [simp]: "patch m off [] = m"
  by (simp add: patch_def)

lemma patch_append: "length old = length bs \<Longrightarrow> patch (p @ old @ q) (length p) bs = p @ map Some bs @ q"
  by (simp add: patch_def)

lemma split_object:
  assumes "off + n + k \<le> length (m :: mem)"
  obtains p xs ys q where "m = p @ xs @ ys @ q" "length p = off" "length xs = n" "length ys = k"
proof
  show "m = take off m @ take n (drop off m) @ take k (drop n (drop off m)) @ drop k (drop n (drop off m))"
    by (simp only: append_take_drop_id)
qed (use assms in simp_all)

lemma patch_patch [wire_simps]:
  assumes "off + length xs + length ys \<le> length m"
  shows "patch (patch m off xs) (off + length xs) ys = patch m off (xs @ ys)"
proof -
  obtain p ox oy q where m: "m = p @ ox @ oy @ q" "length p = off" "length ox = length xs" "length oy = length ys"
    by (rule split_object[OF assms])
  show ?thesis
    using m patch_append[of ox xs p "oy @ q"] patch_append[of oy ys "p @ map Some xs" q]
      patch_append[of "ox @ oy" "xs @ ys" p q] by simp
qed

lemma patch_patch_before [wire_simps]:
  assumes "off + length xs + length ys \<le> length m"
  shows "patch (patch m (off + length xs) ys) off xs = patch m off (xs @ ys)"
proof -
  obtain p ox oy q where m: "m = p @ ox @ oy @ q" "length p = off" "length ox = length xs" "length oy = length ys"
    by (rule split_object[OF assms])
  show ?thesis
    using m patch_append[of oy ys "p @ ox" q] patch_append[of ox xs p "map Some ys @ q"]
      patch_append[of "ox @ oy" "xs @ ys" p q] by simp
qed

lemma rd_bytes_patch: "off + length bs \<le> length m \<Longrightarrow> rd_bytes (patch m off bs) off (length bs) = Some bs"
  by (simp add: patch_def)

lemma nth_patch_outside:
  assumes "off + length bs \<le> length m" "i < off \<or> off + length bs \<le> i"
  shows "patch m off bs ! i = m ! i"
proof (cases "i < off")
  case True
  then show ?thesis using assms(1) by (simp add: patch_def nth_append)
next
  case False
  then have "off + length bs \<le> i" using assms(2) by simp
  moreover from this obtain k where "i = off + length bs + k" using le_Suc_ex by blast
  ultimately show ?thesis using assms(1) by (simp add: patch_def nth_append)
qed

section \<open>Reads through a view\<close>

definition view_bytes :: "mem \<Rightarrow> lttng_buffer_view \<Rightarrow> byte list run" where
  "view_bytes m v = (case vdata v of None \<Rightarrow> crash | Some a \<Rightarrow> rd_bytes m a (unat (vsize v)))"

lemma view_bytesE:
  assumes "view_bytes m v = Some bs"
  obtains p q a where "m = p @ map Some bs @ q" "vdata v = Some a" "length p = a"
    "unat (vsize v) = length bs"
proof -
  obtain a where a: "vdata v = Some a" "rd_bytes m a (unat (vsize v)) = Some bs"
    using assms by (auto simp: view_bytes_def split: option.splits)
  let ?n = "unat (vsize v)"
  have fits: "a + ?n \<le> length m" and bs: "take ?n (drop a m) = map Some bs"
    using a(2) by (auto simp: rd_bytes_def those_eq_Some_iff split: if_splits)
  have "m = take a m @ map Some bs @ drop ?n (drop a m)"
    by (simp only: bs[symmetric] append_take_drop_id)
  moreover have "length (take a m) = a" "?n = length bs"
    using fits rd_bytes_length[OF a(2)] by simp_all
  ultimately show thesis using that a(1) by blast
qed

lemma view_bytes_patch:
  assumes "off + length bs \<le> length m" "length bs < 2 ^ 64"
  shows "view_bytes (patch m off bs) \<lparr>vdata = Some off, vsize = of_nat (length bs)\<rparr> = Some bs"
  using assms by (simp add: view_bytes_def unat_of_nat rd_bytes_patch)

lemma view_rd:
  assumes "view_bytes m v = Some bs" "vdata v = Some a" "i < length bs"
  shows "rd m (int (a + i)) = Some (bs ! i)"
  using assms by (elim view_bytesE) (simp add: rd_def nth_append nat_int del: of_nat_add)

lemma view_rd_bytes:
  assumes "view_bytes m v = Some bs" "vdata v = Some a" "i + n \<le> length bs"
  shows "rd_bytes m (a + i) n = Some (take n (drop i bs))"
  using assms by (elim view_bytesE) (simp add: rd_bytes_def drop_map take_map)

lemma view_c_string:
  assumes "view_bytes m v = Some bs" "vdata v = Some a" "i \<le> length bs"
    and "drop i bs = s @ 0 # r" "0 \<notin> set s"
  shows "c_string_at m (a + i) = Some s"
  using assms by (elim view_bytesE) (simp add: c_string_at_def drop_map)

lemma view_size: "view_bytes m v = Some bs \<Longrightarrow> unat (vsize v) = length bs"
  by (elim view_bytesE)

lemma view_data: "view_bytes m v = Some bs \<Longrightarrow> \<exists>a. vdata v = Some a"
  by (elim view_bytesE) simp

text \<open>A view of the rest of a view.\<close>

lemma sub_view:
  assumes "view_bytes m v = Some bs" "unat off \<le> length bs"
  obtains v' where "lttng_buffer_view_from_view (Some v) off (-1) = Some v'"
    "vdata v' = map_option (\<lambda>a. a + unat off) (vdata v)" "view_bytes m v' = Some (drop (unat off) bs)"
    "vsize v' = vsize v - off"
proof -
  obtain a where a: "vdata v = Some a" using view_data[OF assms(1)] by blast
  have n: "unat (vsize v) = length bs" using assms(1) by (rule view_size)
  then have le: "\<not> vsize v < off" using assms(2) by (simp add: word_less_nat_alt)
  then have sz: "unat (vsize v - off) = length bs - unat off"
    using n by (simp add: unat_sub_if' word_le_nat_alt word_less_nat_alt)
  have "rd_bytes m (a + unat off) (length bs - unat off) = Some (drop (unat off) bs)"
    using view_rd_bytes[OF assms(1) a, of "unat off" "length bs - unat off"] assms(2) by simp
  then show thesis
    using that[of "view_of (vdata v) (vsize v) off (-1)"] le a sz
    by (simp add: lttng_buffer_view_from_view_def view_of_def view_bytes_def)
qed

section \<open>Serializers\<close>

locale serializer =
  fixes ser :: "'a \<Rightarrow> nat option \<Rightarrow> mem \<Rightarrow> (int \<times> mem) run"
    and ok :: "'a \<Rightarrow> bool"
    and enc :: "'a \<Rightarrow> byte list"
  assumes ser_query: "ok x \<Longrightarrow> ser x None m = Some (int (length (enc x)), m)"
    and ser_write: "\<lbrakk>ok x; off + length (enc x) \<le> length m\<rbrakk>
      \<Longrightarrow> ser x (Some off) m = Some (int (length (enc x)), patch m off (enc x))"
begin

lemma query_predicts_write:
  assumes "ok x" "ser x None m = Some (n, m0)" "off + nat n \<le> length m"
  shows "\<exists>m'. ser x (Some off) m = Some (n, m') \<and> length m' = length m \<and>
    rd_bytes m' off (nat n) = Some (enc x) \<and>
    (\<forall>i. i < off \<or> off + nat n \<le> i \<longrightarrow> m' ! i = m ! i)"
proof -
  have "n = int (length (enc x))" using assms ser_query by simp
  then show ?thesis
    using assms by (simp add: ser_write rd_bytes_patch nth_patch_outside)
qed

end

locale codec = serializer ser ok enc
  for ser :: "'a \<Rightarrow> nat option \<Rightarrow> mem \<Rightarrow> (int \<times> mem) run"
    and ok :: "'a \<Rightarrow> bool"
    and enc :: "'a \<Rightarrow> byte list" +
  fixes parse :: "heap \<Rightarrow> mem \<Rightarrow> lttng_buffer_view option \<Rightarrow> bool \<Rightarrow> (int \<times> 'b option \<times> heap) run"
    and received :: "'a \<Rightarrow> 'b"
    and blocks :: int
  assumes enc_bounded: "ok x \<Longrightarrow> length (enc x) < 2 ^ 16"
    and parse_enc: "\<lbrakk>ok x; outcomes h = []; view_bytes m v = Some (enc x @ r)\<rbrakk>
      \<Longrightarrow> parse h m (Some v) True =
            Some (int (length (enc x)), Some (received x), h\<lparr>live := live h + blocks\<rparr>)"
begin

lemma roundtrip:
  assumes "ok x" "outcomes h = []" "ser x None m = Some (n, m0)" "off + nat n \<le> length m"
  shows "\<exists>m'. ser x (Some off) m = Some (n, m') \<and>
    parse h m' (Some \<lparr>vdata = Some off, vsize = of_int n\<rparr>) True =
      Some (n, Some (received x), h\<lparr>live := live h + blocks\<rparr>)"
proof -
  have n: "n = int (length (enc x))" using assms ser_query by simp
  have "view_bytes (patch m off (enc x)) \<lparr>vdata = Some off, vsize = of_int n\<rparr> = Some (enc x @ [])"
    using assms n enc_bounded[OF assms(1)] view_bytes_patch[of off "enc x" m] by simp
  from parse_enc[OF assms(1,2) this] show ?thesis
    using assms n by (simp add: ser_write)
qed

end

text \<open>
  Two serializable objects behind a \<open>u32\<close> length, the layout of triggers and notifications.
\<close>

definition frame :: "byte list \<Rightarrow> byte list \<Rightarrow> byte list" where
  "frame xs ys = bytes_u32 (of_nat (length xs + length ys)) @ xs @ ys"

locale framed_pair = a: serializer sa oka enca + b: serializer sb okb encb
  for sa :: "'a \<Rightarrow> nat option \<Rightarrow> mem \<Rightarrow> (int \<times> mem) run" and oka enca
    and sb :: "'b \<Rightarrow> nat option \<Rightarrow> mem \<Rightarrow> (int \<times> mem) run" and okb encb
begin

lemma frame_writes:
  assumes "oka x" "okb y" "off + length (frame (enca x) (encb y)) \<le> length m"
  obtains m1 m2 where
    "sa x (Some (off + 4)) m = Some (int (length (enca x)), m1)"
    "sb y (Some (off + 4 + length (enca x))) m1 = Some (int (length (encb y)), m2)"
    "wr_bytes m2 off (bytes_u32 (of_nat (length (enca x) + length (encb y)))) = Some (patch m off (frame (enca x) (encb y)))"
proof -
  let ?h = "bytes_u32 (of_nat (length (enca x) + length (encb y)))"
  have len: "off + 4 + length (enca x) + length (encb y) \<le> length m"
    using assms(3) by (simp add: frame_def)
  let ?m1 = "patch m (off + 4) (enca x)"
  let ?m2 = "patch ?m1 (off + 4 + length (enca x)) (encb y)"
  have "?m2 = patch m (off + length ?h) (enca x @ encb y)"
    using len patch_patch[of "off + 4" "enca x" "encb y" m] by simp
  moreover have "length ?m2 = length m" using len by simp
  ultimately have "wr_bytes ?m2 off ?h = Some (patch m off (frame (enca x) (encb y)))"
    using len patch_patch_before[of off ?h "enca x @ encb y" m] by (simp add: wr_bytes_patch frame_def)
  then show thesis
    using that[of ?m1 ?m2] a.ser_write[OF assms(1), of "off + 4" m]
      b.ser_write[OF assms(2), of "off + 4 + length (enca x)" ?m1] len by simp
qed

lemma frame_queries:
  assumes "oka x" "okb y"
  shows "sa x None m = Some (int (length (enca x)), m)" "sb y None m = Some (int (length (encb y)), m)"
  using assms a.ser_query b.ser_query by simp_all

end

text \<open>The views and reads a parser of such a message makes.\<close>

lemma frame_reads:
  assumes v: "view_bytes m v = Some (frame xs ys @ r)" and small: "length xs + length ys < 2 ^ 32"
  obtains a v1 v2 raw where "vdata v = Some a" "rd_bytes m a 4 = Some raw" "le_val raw = length xs + length ys"
    "lttng_buffer_view_from_view (Some v) 4 (-1) = Some v1" "view_bytes m v1 = Some (xs @ ys @ r)"
    "lttng_buffer_view_from_view (Some v) (of_nat (4 + length xs)) (-1) = Some v2" "view_bytes m v2 = Some (ys @ r)"
proof -
  let ?raw = "bytes_u32 (of_nat (length xs + length ys))"
  obtain a where a: "vdata v = Some a" using view_data[OF v] by blast
  have n: "unat (of_nat (length xs + length ys) :: u32) = length xs + length ys"
    by (rule unat_of_nat_u32[OF small])
  have raw: "rd_bytes m a 4 = Some ?raw" using view_rd_bytes[OF v a, of 0 4] by (simp add: frame_def)
  have val: "le_val ?raw = length xs + length ys"
    using small by (simp only: bytes_u32_def n le_val_le) simp
  obtain v1 where v1: "lttng_buffer_view_from_view (Some v) 4 (-1) = Some v1" "view_bytes m v1 = Some (xs @ ys @ r)"
    using sub_view[OF v, of 4] by (auto simp: frame_def)
  have o: "unat (of_nat (4 + length xs) :: size_t) = 4 + length xs"
    by (subst unat_of_nat) (use small in simp)
  obtain v2 where v2: "lttng_buffer_view_from_view (Some v) (of_nat (4 + length xs)) (-1) = Some v2"
    "view_bytes m v2 = Some (ys @ r)"
    using sub_view[OF v, of "of_nat (4 + length xs)"] unfolding o by (auto simp: frame_def)
  show thesis by (rule that[OF a raw val v1 v2])
qed

end
