(* ===== verification/Double.thy ===== *)
theory Double
  imports LTT_Prelude Complex_Main
begin

text \<open>
  The C type \<open>double\<close> as the code uses it: IEEE binary64 values as exact rationals (plus NaN and
  the infinities), each operation the exact one followed by rounding to the nearest 53-bit
  significand, ties to even. The exponent range is left unbounded: the code only handles
  magnitudes between \<open>2 ^ -32\<close> and \<open>2 ^ 64\<close>, far inside it.

  The theory ends with the exactness result the fixed-point encoding of ratios relies on: an
  integer below \<open>2 ^ 32\<close>, divided by \<open>2 ^ 32 - 1\<close> and multiplied back, is unchanged.
\<close>

section \<open>Rounding\<close>

fun nlog2 :: "nat \<Rightarrow> nat" where
  "nlog2 n = (if n < 2 then 0 else Suc (nlog2 (n div 2)))"

declare nlog2.simps [simp del]

definition two_to :: "int \<Rightarrow> rat" where
  "two_to k = (if 0 \<le> k then 2 ^ nat k else 1 / 2 ^ nat (- k))"

text \<open>Floor of the binary logarithm of a positive rational.\<close>

definition exponent :: "rat \<Rightarrow> int" where
  "exponent x =
     (let (p, q) = quotient_of x; e = int (nlog2 (nat p)) - int (nlog2 (nat q))
      in if x < two_to e then e - 1 else e)"

definition half_even :: "rat \<Rightarrow> int" where
  "half_even s =
     (let f = \<lfloor>s\<rfloor>; d = s - of_int f
      in if d < 1 / 2 then f else if 1 / 2 < d then f + 1 else if even f then f else f + 1)"

definition rnd_pos :: "rat \<Rightarrow> rat" where
  "rnd_pos x = (let u = exponent x - 52 in of_int (half_even (x / two_to u)) * two_to u)"

definition rnd :: "rat \<Rightarrow> rat" where
  "rnd x = (if x = 0 then 0 else if 0 < x then rnd_pos x else - rnd_pos (- x))"

section \<open>Values and operations\<close>

datatype double = NaN | Inf bool \<comment> \<open>\<open>True\<close>: positive\<close> | Fin rat

definition double_of_nat :: "nat \<Rightarrow> double" where
  "double_of_nat n = Fin (rnd (of_nat n))"

fun d_mul :: "double \<Rightarrow> double \<Rightarrow> double" where
  "d_mul NaN _ = NaN"
| "d_mul _ NaN = NaN"
| "d_mul (Fin a) (Fin b) = Fin (rnd (a * b))"
| "d_mul (Inf s) (Inf t) = Inf (s = t)"
| "d_mul (Inf s) (Fin b) = (if b = 0 then NaN else Inf (s = (0 < b)))"
| "d_mul (Fin a) (Inf t) = (if a = 0 then NaN else Inf ((0 < a) = t))"

fun d_div :: "double \<Rightarrow> double \<Rightarrow> double" where
  "d_div NaN _ = NaN"
| "d_div _ NaN = NaN"
| "d_div (Fin a) (Fin b) = (if b = 0 then (if a = 0 then NaN else Inf (0 < a)) else Fin (rnd (a / b)))"
| "d_div (Inf s) (Inf t) = NaN"
| "d_div (Inf s) (Fin b) = Inf (s = (0 \<le> b))"
| "d_div (Fin a) (Inf t) = Fin 0"

fun d_sub :: "double \<Rightarrow> double \<Rightarrow> double" where
  "d_sub NaN _ = NaN"
| "d_sub _ NaN = NaN"
| "d_sub (Fin a) (Fin b) = Fin (rnd (a - b))"
| "d_sub (Inf s) (Inf t) = (if s = t then NaN else Inf s)"
| "d_sub (Inf s) (Fin b) = Inf s"
| "d_sub (Fin a) (Inf t) = Inf (\<not> t)"

fun d_abs :: "double \<Rightarrow> double" where
  "d_abs NaN = NaN"
| "d_abs (Inf s) = Inf True"
| "d_abs (Fin a) = Fin \<bar>a\<bar>"

text \<open>Comparisons with a NaN are false.\<close>

fun d_less :: "double \<Rightarrow> double \<Rightarrow> bool" where
  "d_less NaN _ = False"
| "d_less _ NaN = False"
| "d_less (Fin a) (Fin b) = (a < b)"
| "d_less (Inf s) (Inf t) = (\<not> s \<and> t)"
| "d_less (Inf s) (Fin b) = (\<not> s)"
| "d_less (Fin a) (Inf t) = t"

text \<open>Conversion to \<open>uint64_t\<close> truncates; outside its range it is undefined.\<close>

fun double_to_u64 :: "double \<Rightarrow> u64 run" where
  "double_to_u64 (Fin a) =
     (if - 1 < a \<and> a < 2 ^ 64 then Some (if a < 0 then 0 else word_of_int \<lfloor>a\<rfloor>) else crash)"
| "double_to_u64 _ = crash"

definition DBL_EPSILON :: double where
  "DBL_EPSILON = Fin (two_to (-52))"

section \<open>Exponents and rounding error\<close>

lemma nlog2_bounds: "0 < n \<Longrightarrow> 2 ^ nlog2 n \<le> n \<and> n < 2 * 2 ^ nlog2 n"
proof (induction n rule: nlog2.induct)
  case (1 n)
  show ?case
  proof (cases "n < 2")
    case True
    with 1 show ?thesis by (simp add: nlog2.simps[of n])
  next
    case False
    then have "0 < n div 2" by simp
    with 1(1) False have "2 ^ nlog2 (n div 2) \<le> n div 2" "n div 2 < 2 * 2 ^ nlog2 (n div 2)" by auto
    then have "2 * 2 ^ nlog2 (n div 2) \<le> n" "n < 2 * (2 * 2 ^ nlog2 (n div 2))" by auto
    with False show ?thesis by (simp add: nlog2.simps[of n])
  qed
qed

lemma two_to_pos [simp]: "0 < two_to k" "two_to k \<noteq> 0" "\<not> two_to k < 0" "0 \<le> two_to k"
  by (auto simp: two_to_def)

lemma two_to_add: "two_to (a + b) = two_to a * two_to b"
proof -
  have "two_to k = 2 powi k" for k
    by (auto simp: two_to_def power_int_def field_simps)
  then show ?thesis by (simp add: power_int_add)
qed

lemma two_to_0 [simp]: "two_to 0 = 1"
  by (simp add: two_to_def)

lemma two_to_nat: "two_to (int n) = 2 ^ n"
  by (simp add: two_to_def)

lemma two_to_minus: "two_to (a - b) = two_to a / two_to b"
proof -
  have "two_to a = two_to (a - b) * two_to b" by (simp flip: two_to_add)
  then show ?thesis by simp
qed

lemma two_to_1 [simp]: "two_to 1 = 2"
  by (simp add: two_to_def)

lemma two_to_half: "two_to (e - 53) = two_to (e - 52) / 2"
  using two_to_minus[of "e - 52" 1] by simp

lemma two_to_mono: "a \<le> b \<Longrightarrow> two_to a \<le> two_to b"
proof -
  assume "a \<le> b"
  then have "two_to b = two_to a * 2 ^ nat (b - a)"
    by (metis add_diff_cancel_left' diff_add_cancel nat_0_le diff_ge_0_iff_ge two_to_add two_to_nat)
  moreover have "(1 :: rat) \<le> 2 ^ nat (b - a)" by simp
  ultimately show ?thesis
    using mult_left_mono[of 1 "2 ^ nat (b - a)" "two_to a"] by simp
qed

lemma two_to_less_imp: "two_to a < two_to b \<Longrightarrow> a < b"
  using two_to_mono[of b a] by fastforce

text \<open>The exponent is the unique one that brackets its argument.\<close>

lemma exponent_unique:
  assumes "two_to e \<le> x" "x < two_to (e + 1)" "two_to e' \<le> x" "x < two_to (e' + 1)"
  shows "e = e'"
  using two_to_less_imp[of e "e' + 1"] two_to_less_imp[of e' "e + 1"] assms by fastforce

lemma exponent_bounds:
  assumes "0 < x"
  shows "two_to (exponent x) \<le> x \<and> x < two_to (exponent x + 1)"
proof -
  obtain p q where pq: "quotient_of x = (p, q)" by (cases "quotient_of x")
  then have q: "0 < q" and x: "x = of_int p / of_int q"
    by (simp_all add: quotient_of_denom_pos quotient_of_div)
  have p: "0 < p" using assms q x by (simp add: zero_less_divide_iff)
  define a b where "a = int (nlog2 (nat p))" and "b = int (nlog2 (nat q))"
  have bnd: "two_to (int (nlog2 (nat r))) \<le> of_int r \<and> of_int r < two_to (int (nlog2 (nat r)) + 1)"
    if "0 < r" for r :: int
  proof -
    have n: "2 ^ nlog2 (nat r) \<le> nat r" "nat r < 2 * 2 ^ nlog2 (nat r)"
      using nlog2_bounds[of "nat r"] that by auto
    have "of_nat (2 ^ nlog2 (nat r)) \<le> (of_nat (nat r) :: rat)"
      "of_nat (nat r) < (of_nat (2 * 2 ^ nlog2 (nat r)) :: rat)"
      using n by (simp_all only: of_nat_le_iff of_nat_less_iff)
    with that show ?thesis by (simp add: two_to_add two_to_nat)
  qed
  have lo: "two_to (a - b - 1) \<le> x"
  proof -
    have "two_to (a - b - 1) = two_to a / two_to (b + 1)"
      by (simp add: algebra_simps flip: two_to_minus)
    also have "\<dots> \<le> of_int p / of_int q"
      using bnd[OF p] bnd[OF q] p q a_def b_def by (intro frac_le) auto
    finally show ?thesis using x by simp
  qed
  have hi: "x < two_to (a - b + 1)"
  proof -
    have "x < two_to (a + 1) / two_to b"
      unfolding x using bnd[OF p] bnd[OF q] p q a_def b_def
      by (intro frac_less) auto
    also have "\<dots> = two_to (a - b + 1)" by (simp add: algebra_simps flip: two_to_minus)
    finally show ?thesis .
  qed
  show ?thesis
    using lo hi pq a_def b_def by (auto simp: exponent_def Let_def)
qed

lemma exponent_eq: "0 < x \<Longrightarrow> two_to e \<le> x \<Longrightarrow> x < two_to (e + 1) \<Longrightarrow> exponent x = e"
  using exponent_bounds[of x] exponent_unique by blast

lemma half_even_error: "\<bar>of_int (half_even s) - s\<bar> \<le> 1 / 2"
  using of_int_floor_le[of s] floor_less_iff[of s "\<lfloor>s\<rfloor> + 1"] floor_correct[of s]
  by (auto simp: half_even_def Let_def abs_le_iff)

lemma half_even_near: "\<bar>s - of_int n\<bar> < 1 / 2 \<Longrightarrow> half_even s = n"
proof -
  assume a: "\<bar>s - of_int n\<bar> < 1 / 2"
  have "\<bar>of_int (half_even s) - (of_int n :: rat)\<bar> < 1"
    using half_even_error[of s] a by linarith
  then have "\<bar>half_even s - n\<bar> < 1" by linarith
  then show ?thesis by linarith
qed

lemma rnd_error:
  assumes "0 < x" "two_to e \<le> x" "x < two_to (e + 1)"
  shows "\<bar>rnd x - x\<bar> \<le> two_to (e - 53)"
proof -
  let ?u = "e - 52"
  have "rnd x - x = (of_int (half_even (x / two_to ?u)) - x / two_to ?u) * two_to ?u"
    using assms exponent_eq[OF assms] by (simp add: rnd_def rnd_pos_def left_diff_distrib Let_def)
  then have "\<bar>rnd x - x\<bar> \<le> 1 / 2 * two_to ?u"
    using half_even_error[of "x / two_to ?u"] by (simp add: abs_mult)
  also have "\<dots> = two_to (e - 53)" by (simp add: two_to_half)
  finally show ?thesis .
qed

text \<open>A value close enough to a 53-bit integer multiple of the unit rounds to it.\<close>

lemma rnd_near:
  assumes "0 < z" "two_to e \<le> z" "z < two_to (e + 1)"
    and y: "y = of_int n * two_to (e - 52)" and "\<bar>z - y\<bar> < two_to (e - 53)"
  shows "rnd z = y"
proof -
  let ?u = "e - 52"
  have "\<bar>z / two_to ?u - of_int n\<bar> = \<bar>z - y\<bar> / two_to ?u"
    by (simp add: y abs_divide flip: diff_divide_distrib) (simp add: field_simps)
  also have "\<dots> < two_to (e - 53) / two_to ?u" using assms by (simp add: divide_strict_right_mono)
  also have "\<dots> = 1 / 2" by (simp add: two_to_half)
  finally have "half_even (z / two_to ?u) = n" by (rule half_even_near)
  then show ?thesis
    using assms exponent_eq[OF assms(1-3)] by (simp add: rnd_def rnd_pos_def Let_def)
qed

section \<open>Division by \<open>UINT32_MAX\<close> and back\<close>

abbreviation uint32_max :: rat where
  "uint32_max \<equiv> 4294967295"

lemma two_to_shift: "two_to (e - int k) = two_to e / 2 ^ k"
  by (simp add: two_to_minus two_to_nat)

lemma two_to_shifts:
  "two_to (e - 31) = two_to e / 2 ^ 31" "two_to (e - 32) = two_to e / 2 ^ 32"
  "two_to (e - 52) = two_to e / 2 ^ 52" "two_to (e - 53) = two_to e / 2 ^ 53"
  "two_to (e - 54) = two_to e / 2 ^ 54" "two_to (e - 84) = two_to e / 2 ^ 84"
  "two_to (e - 85) = two_to e / 2 ^ 85"
  using two_to_shift[of e 31] two_to_shift[of e 32] two_to_shift[of e 52] two_to_shift[of e 53]
    two_to_shift[of e 54] two_to_shift[of e 84] two_to_shift[of e 85] by simp_all

text \<open>The quotient of a power of two: its rounding is \<open>2 ^ (e - 84) * (2 ^ 52 + 2 ^ 20)\<close>.\<close>

lemma rnd_power_quotient:
  "rnd (two_to e / uint32_max) * uint32_max = two_to e - two_to e / 2 ^ 64"
proof -
  let ?T = "two_to e"
  have "rnd (?T / uint32_max) = of_int (2 ^ 52 + 2 ^ 20) * two_to (e - 32 - 52)"
  proof (rule rnd_near)
    show "0 < ?T / uint32_max" by simp
    show "two_to (e - 32) \<le> ?T / uint32_max" by (simp add: two_to_shifts field_simps)
    have "?T / uint32_max < ?T / 2 ^ 31" by (intro divide_strict_left_mono) auto
    also have "\<dots> = two_to (e - 31)" by (simp add: two_to_shifts)
    finally show "?T / uint32_max < two_to (e - 32 + 1)" by simp
    have "?T / uint32_max - of_int (2 ^ 52 + 2 ^ 20) * two_to (e - 32 - 52)
        = ?T * (1 / uint32_max - (2 ^ 52 + 2 ^ 20) / 2 ^ 84)"
      by (simp add: two_to_shifts algebra_simps)
    also have "\<bar>\<dots>\<bar> < ?T * (1 / 2 ^ 85)"
      by (simp add: abs_mult)
    finally show "\<bar>?T / uint32_max - of_int (2 ^ 52 + 2 ^ 20) * two_to (e - 32 - 52)\<bar> < two_to (e - 32 - 53)"
      by (simp add: two_to_shifts)
  qed simp
  then show ?thesis by (simp add: two_to_shifts field_simps)
qed

lemma rnd_of_nat_small:
  assumes "0 < v" "v < 2 ^ 53"
  shows "rnd (of_nat v) = of_nat v"
proof -
  define e where "e = nlog2 v"
  have e: "2 ^ e \<le> v" "v < 2 * 2 ^ e" using nlog2_bounds[OF assms(1)] by (simp_all add: e_def)
  have "(2::nat) ^ e < 2 ^ 53" using e(1) assms(2) by linarith
  then have "e < 53" using power_less_imp_less_exp[of "2::nat" e 53] by simp
  then obtain d where d: "52 = e + d" by (metis le_add_diff_inverse less_Suc_eq_le eval_nat_numeral(3) Suc_1
      numeral_eq_Suc pred_numeral_simps(3) semiring_norm(26,28))
  show ?thesis
  proof (rule rnd_near[where e = "int e" and n = "int (v * 2 ^ d)"])
    show "0 < (of_nat v :: rat)" using assms by simp
    have "of_nat (2 ^ e) \<le> (of_nat v :: rat)" "(of_nat v :: rat) < of_nat (2 * 2 ^ e)"
      using e by (simp_all only: of_nat_le_iff of_nat_less_iff)
    then show "two_to (int e) \<le> of_nat v" "of_nat v < two_to (int e + 1)"
      by (simp_all add: two_to_nat two_to_add)
    have "int e - 52 = - int d" using d by linarith
    then show "of_nat v = of_int (int (v * 2 ^ d)) * two_to (int e - 52)"
      by (simp add: two_to_def)
  qed simp
qed

text \<open>
  A quotient by \<open>UINT32_MAX\<close> is rounded with an error below a unit of its binade. Its product
  with the divisor is then so close to the dividend that rounding gives the dividend back.
\<close>

lemma quotient_binade:
  assumes "0 < v" "v < 2 ^ 32 - 1" and e: "e = nlog2 v"
  shows "e \<le> 31" "two_to (int e) \<le> of_nat v" "of_nat v + 1 \<le> 2 * two_to (int e)"
    "(of_nat v :: rat) < uint32_max"
    "\<bar>rnd (of_nat v / uint32_max) - of_nat v / uint32_max\<bar> \<le> two_to (int e - 32 - 53)"
proof -
  let ?V = "of_nat v :: rat" and ?T = "two_to (int e)"
  have v: "2 ^ e \<le> v" "v < 2 * 2 ^ e" using nlog2_bounds[OF assms(1)] by (simp_all add: e)
  have "(2::nat) ^ e < 2 ^ 32" using v(1) assms by linarith
  then show e31: "e \<le> 31" using power_less_imp_less_exp[of "2::nat" e 32] by simp
  have T: "?T = of_nat (2 ^ e)" by (simp add: two_to_nat)
  have "of_nat (2 ^ e) \<le> ?V" "of_nat (v + 1) \<le> (of_nat (2 * 2 ^ e) :: rat)"
    "?V < of_nat (2 ^ 32 - 1)" "of_nat 0 < ?V"
    using v assms by (simp_all only: of_nat_le_iff of_nat_less_iff)
  then have V: "?T \<le> ?V" "?V + 1 \<le> 2 * ?T" "?V < uint32_max" "0 < ?V" using T by simp_all
  then show "?T \<le> ?V" "?V + 1 \<le> 2 * ?T" "?V < uint32_max" by simp_all
  show "\<bar>rnd (?V / uint32_max) - ?V / uint32_max\<bar> \<le> two_to (int e - 32 - 53)"
  proof (rule rnd_error)
    show "0 < ?V / uint32_max" using V by simp
    show "two_to (int e - 32) \<le> ?V / uint32_max"
      using V by (simp add: two_to_shifts field_simps)
    have "?V * 2 ^ 31 < ?T * uint32_max"
    proof (cases "e = 31")
      case True
      then have "?T = 2 ^ 31" by (simp add: two_to_def)
      with V show ?thesis by simp
    next
      case False
      then have "e \<le> 30" using e31 by simp
      then have "?T \<le> 2 ^ 30" unfolding two_to_nat by (intro power_increasing) auto
      with V show ?thesis by simp
    qed
    then show "?V / uint32_max < two_to (int e - 32 + 1)"
      by (simp add: two_to_shifts field_simps)
  qed
qed

lemma near_quotient_range:
  fixes r V T :: rat
  assumes "\<bar>r - V / uint32_max\<bar> \<le> T / 2 ^ 85" "0 < T" "T \<le> 2 ^ 31" "T \<le> V" "V \<le> 4294967294"
  shows "0 \<le> r \<and> r \<le> 1"
proof -
  define x where "x = V / uint32_max"
  have "V = x * uint32_max" by (simp add: x_def)
  moreover have "r - x \<le> T / 2 ^ 85" "x - r \<le> T / 2 ^ 85"
    using assms(1) by (simp_all only: x_def[symmetric] abs_le_iff) simp_all
  ultimately show ?thesis using assms(2-5) by simp
qed

lemma rnd_quotient_range:
  assumes "v < 2 ^ 32"
  shows "0 \<le> rnd (of_nat v / uint32_max)" "rnd (of_nat v / uint32_max) \<le> 1"
proof -
  let ?V = "of_nat v :: rat" and ?T = "two_to (int (nlog2 v))"
  have "0 \<le> rnd (?V / uint32_max) \<and> rnd (?V / uint32_max) \<le> 1"
  proof (cases "v = 0 \<or> v = 2 ^ 32 - 1")
    case True
    moreover have "rnd 1 = 1" using rnd_of_nat_small[of 1] by simp
    ultimately show ?thesis by (auto simp: rnd_def[of 0])
  next
    case False
    then have v: "0 < v" "v < 2 ^ 32 - 1" using assms by auto
    note q = quotient_binade[OF v refl]
    have "?T \<le> 2 ^ 31" unfolding two_to_nat using q(1) by (intro power_increasing) auto
    moreover have "\<bar>rnd (?V / uint32_max) - ?V / uint32_max\<bar> \<le> ?T / 2 ^ 85"
      using q(5) by (simp add: two_to_shifts)
    moreover have "?V \<le> 4294967294" using v of_nat_le_iff[of v 4294967294, where ?'a = rat] by simp
    ultimately show ?thesis using q(2) two_to_pos(1)[of "int (nlog2 v)"] by (intro near_quotient_range)
  qed
  then show "0 \<le> rnd (?V / uint32_max)" "rnd (?V / uint32_max) \<le> 1" by simp_all
qed

lemma rnd_quotient_mult:
  assumes "v < 2 ^ 32"
  shows "rnd (rnd (of_nat v / uint32_max) * uint32_max) = of_nat v"
proof (cases "v = 0 \<or> v = 2 ^ 32 - 1")
  case True
  moreover have "rnd 1 = 1" using rnd_of_nat_small[of 1] by simp
  moreover have "rnd uint32_max = uint32_max" using rnd_of_nat_small[of "2 ^ 32 - 1"] by simp
  ultimately show ?thesis by (auto simp: rnd_def[of 0])
next
  case False
  then have v: "0 < v" "v < 2 ^ 32 - 1" using assms by auto
  define e where "e = nlog2 v"
  let ?V = "of_nat v :: rat" and ?T = "two_to (int e)"
  note q = quotient_binade[OF v e_def]
  have T31: "?T \<le> 2 ^ 31" unfolding two_to_nat using q(1) by (intro power_increasing) auto
  define r where "r = rnd (?V / uint32_max)"
  have "\<bar>r - ?V / uint32_max\<bar> * uint32_max \<le> ?T / 2 ^ 85 * uint32_max"
    using q(5) by (intro mult_right_mono) (simp_all add: two_to_shifts r_def)
  moreover have "\<bar>r - ?V / uint32_max\<bar> * uint32_max = \<bar>r * uint32_max - ?V\<bar>"
    by (simp add: abs_mult_pos left_diff_distrib)
  moreover have "?T / 2 ^ 85 * uint32_max < ?T / 2 ^ 53" by simp
  ultimately have close: "\<bar>r * uint32_max - ?V\<bar> < ?T / 2 ^ 53" by linarith
  obtain d where d: "52 = e + d" using q(1) le_Suc_ex[of e 52] by auto
  have small: "?T / 2 ^ 53 < 1" using T31 by simp
  have "rnd (r * uint32_max) = ?V"
  proof (cases "?T \<le> r * uint32_max")
    case True
    show ?thesis
    proof (rule rnd_near[where e = "int e" and n = "int (v * 2 ^ d)"])
      show "0 < r * uint32_max" using True two_to_pos(1)[of "int e"] by linarith
      show "?T \<le> r * uint32_max" by (rule True)
      have "r * uint32_max < 2 * ?T" using q(3) close small by linarith
      then show "r * uint32_max < two_to (int e + 1)" by (simp add: two_to_add)
      have "int e - 52 = - int d" using d by linarith
      then show "?V = of_int (int (v * 2 ^ d)) * two_to (int e - 52)" by (simp add: two_to_def)
      show "\<bar>r * uint32_max - ?V\<bar> < two_to (int e - 53)" using close by (simp add: two_to_shifts)
    qed
  next
    case below: False
    have "v = 2 ^ e"
    proof (rule ccontr)
      assume "v \<noteq> 2 ^ e"
      then have "2 ^ e + 1 \<le> v" using nlog2_bounds[OF v(1)] by (simp add: e_def)
      then have "of_nat (2 ^ e + 1) \<le> ?V" by (simp only: of_nat_le_iff)
      then have "?T + 1 \<le> ?V" by (simp add: two_to_nat)
      with close small below show False by linarith
    qed
    then have VT: "?V = ?T" by (simp add: two_to_nat)
    have z: "r * uint32_max = ?T - ?T / 2 ^ 64"
      using rnd_power_quotient[of "int e"] by (simp add: r_def VT)
    show ?thesis
      unfolding z VT
    proof (rule rnd_near[where e = "int e - 1" and n = "2 ^ 53"])
      show "?T = of_int (2 ^ 53) * two_to (int e - 1 - 52)" by (simp add: two_to_shifts)
      show "\<bar>?T - ?T / 2 ^ 64 - ?T\<bar> < two_to (int e - 1 - 53)" by (simp add: two_to_shifts)
    qed (simp_all add: two_to_minus)
  qed
  then show ?thesis by (simp add: r_def)
qed

section \<open>Multiplication of a ratio by \<open>UINT32_MAX\<close>\<close>

lemma half_even_le: "s \<le> of_int n \<Longrightarrow> half_even s \<le> n"
proof -
  assume s: "s \<le> of_int n"
  show ?thesis
  proof (cases "s = of_int n")
    case True
    then show ?thesis by (simp add: half_even_def)
  next
    case False
    then have "s < of_int n" using s by simp
    then have "\<lfloor>s\<rfloor> < n" by (simp add: floor_less_iff)
    then show ?thesis by (auto simp: half_even_def Let_def)
  qed
qed

lemma rnd_nonneg: "0 \<le> x \<Longrightarrow> 0 \<le> rnd x"
proof (cases "x = 0")
  case False
  assume "0 \<le> x"
  then have "0 \<le> \<lfloor>x / two_to (exponent x - 52)\<rfloor>" by simp
  then have "0 \<le> half_even (x / two_to (exponent x - 52))" by (auto simp: half_even_def Let_def)
  then show ?thesis using False \<open>0 \<le> x\<close> by (simp add: rnd_def rnd_pos_def Let_def)
qed (simp add: rnd_def)

lemma rnd_le_of_nat:
  assumes "0 \<le> x" "x \<le> of_nat n" "n < 2 ^ 53"
  shows "rnd x \<le> of_nat n"
proof (cases "x = 0")
  case False
  then have x: "0 < x" using assms by simp
  define e where "e = exponent x"
  have e: "two_to e \<le> x" using exponent_bounds[OF x] by (simp add: e_def)
  moreover have "of_nat n < (of_nat (2 ^ 53) :: rat)" using assms(3) by (simp only: of_nat_less_iff)
  ultimately have "two_to e < two_to 53" using assms(2) by (simp add: two_to_def[of 53])
  then have e53: "e < 53" by (rule two_to_less_imp)
  define k where "k = nat (52 - e)"
  have u: "two_to (e - 52) = 1 / 2 ^ k" using e53 by (simp add: two_to_def k_def)
  have "x / two_to (e - 52) \<le> of_int (int n * 2 ^ k)"
    using assms(2) by (simp add: u)
  then have "half_even (x / two_to (e - 52)) \<le> int n * 2 ^ k" by (rule half_even_le)
  then have "of_int (half_even (x / two_to (e - 52))) \<le> (of_int (int n * 2 ^ k) :: rat)"
    by (simp only: of_int_le_iff)
  then have "of_int (half_even (x / two_to (e - 52))) * two_to (e - 52) \<le> of_nat n"
    by (simp add: u field_simps)
  then show ?thesis using x by (simp add: rnd_def rnd_pos_def Let_def e_def)
qed (simp add: rnd_def)

lemma rnd_le_uint32_max: "0 \<le> x \<Longrightarrow> x \<le> uint32_max \<Longrightarrow> rnd x \<le> uint32_max"
  using rnd_le_of_nat[of x "2 ^ 32 - 1"] by simp

end
