(* ===== verification/Condition.thy ===== *)
theory Condition
  imports Codec Double
begin

text \<open>
  Conditions: the base class of \<open>src/common/condition.c\<close> and its only subclass, the buffer usage
  condition of \<open>src/common/buffer-usage.c\<close>, with the layouts of
  \<open>include/lttng/condition/condition-internal.h\<close> and \<open>buffer-usage-internal.h\<close>.

  A condition pointer is an \<open>option\<close>. The callbacks a condition carries are the tag
  \<open>BUFFER_USAGE\<close> of the subclass they belong to, absent when the pointer is null; the dispatch
  of \<open>condition.c\<close> goes through them. C strings are byte lists without the terminator.
  Serialization writes at an offset of a destination object; deserialization reads through a
  view of a source object.
\<close>

section \<open>Types\<close>

datatype lttng_condition_type =
    LTTNG_CONDITION_TYPE_UNKNOWN
  | LTTNG_CONDITION_TYPE_BUFFER_USAGE_LOW
  | LTTNG_CONDITION_TYPE_BUFFER_USAGE_HIGH

fun condition_type_val :: "lttng_condition_type \<Rightarrow> int" where
  "condition_type_val LTTNG_CONDITION_TYPE_UNKNOWN = -1"
| "condition_type_val LTTNG_CONDITION_TYPE_BUFFER_USAGE_LOW = 102"
| "condition_type_val LTTNG_CONDITION_TYPE_BUFFER_USAGE_HIGH = 101"

datatype lttng_condition_status =
    LTTNG_CONDITION_STATUS_OK
  | LTTNG_CONDITION_STATUS_ERROR
  | LTTNG_CONDITION_STATUS_UNKNOWN
  | LTTNG_CONDITION_STATUS_INVALID
  | LTTNG_CONDITION_STATUS_UNSET

datatype lttng_domain_type =
    LTTNG_DOMAIN_NONE
  | LTTNG_DOMAIN_KERNEL
  | LTTNG_DOMAIN_UST
  | LTTNG_DOMAIN_JUL
  | LTTNG_DOMAIN_LOG4J
  | LTTNG_DOMAIN_PYTHON

fun domain_type_val :: "lttng_domain_type \<Rightarrow> int" where
  "domain_type_val LTTNG_DOMAIN_NONE = 0"
| "domain_type_val LTTNG_DOMAIN_KERNEL = 1"
| "domain_type_val LTTNG_DOMAIN_UST = 2"
| "domain_type_val LTTNG_DOMAIN_JUL = 3"
| "domain_type_val LTTNG_DOMAIN_LOG4J = 4"
| "domain_type_val LTTNG_DOMAIN_PYTHON = 5"

text \<open>The cast of a checked integer to the enumeration.\<close>

definition domain_type_of_val :: "int \<Rightarrow> lttng_domain_type" where
  "domain_type_of_val i =
     (if i = 1 then LTTNG_DOMAIN_KERNEL
      else if i = 2 then LTTNG_DOMAIN_UST
      else if i = 3 then LTTNG_DOMAIN_JUL
      else if i = 4 then LTTNG_DOMAIN_LOG4J
      else if i = 5 then LTTNG_DOMAIN_PYTHON
      else LTTNG_DOMAIN_NONE)"

abbreviation LTTNG_NAME_MAX :: nat where
  "LTTNG_NAME_MAX \<equiv> 255"

datatype condition_class = BUFFER_USAGE

record lttng_condition =
  ctype :: lttng_condition_type
  cvalidate :: "condition_class option"
  cserialize :: "condition_class option"
  cequal :: "condition_class option"
  cdestroy :: "condition_class option"

record lttng_condition_buffer_usage =
  parent :: lttng_condition
  threshold_bytes_set :: bool
  threshold_bytes_value :: u64
  threshold_ratio_set :: bool
  threshold_ratio_value :: double
  session_name :: "byte list option"
  channel_name :: "byte list option"
  domain_set :: bool
  domain_type :: lttng_domain_type

type_synonym cond = lttng_condition_buffer_usage

section \<open>The wire header of a buffer usage condition\<close>

record lttng_condition_buffer_usage_comm =
  cm_threshold_set_in_bytes :: u8
  cm_threshold :: u32
  cm_session_name_len :: u32
  cm_channel_name_len :: u32
  cm_domain_type :: u8

abbreviation usage_comm_size :: nat where
  "usage_comm_size \<equiv> 14"

definition usage_comm_bytes :: "lttng_condition_buffer_usage_comm \<Rightarrow> byte list" where
  "usage_comm_bytes c =
     [cm_threshold_set_in_bytes c] @ bytes_u32 (cm_threshold c) @ bytes_u32 (cm_session_name_len c) @
     bytes_u32 (cm_channel_name_len c) @ [cm_domain_type c]"

definition usage_comm_of_bytes :: "byte list \<Rightarrow> lttng_condition_buffer_usage_comm" where
  "usage_comm_of_bytes bs =
     \<lparr>cm_threshold_set_in_bytes = bs ! 0,
      cm_threshold = of_nat (le_val (take 4 (drop 1 bs))),
      cm_session_name_len = of_nat (le_val (take 4 (drop 5 bs))),
      cm_channel_name_len = of_nat (le_val (take 4 (drop 9 bs))),
      cm_domain_type = bs ! 13\<rparr>"

section \<open>Fixed-point ratios\<close>

definition UINT32_MAX :: nat where
  "UINT32_MAX = 4294967295"

definition fixed_to_double :: "u32 \<Rightarrow> double" where
  "fixed_to_double val = d_div (double_of_nat (unat val)) (double_of_nat UINT32_MAX)"

definition double_to_fixed :: "double \<Rightarrow> u64 run" where
  "double_to_fixed val = double_to_u64 (d_mul val (double_of_nat UINT32_MAX))"

section \<open>Base class queries\<close>

definition lttng_condition_get_type :: "cond option \<Rightarrow> lttng_condition_type" where
  "lttng_condition_get_type condition =
     (case condition of None \<Rightarrow> LTTNG_CONDITION_TYPE_UNKNOWN | Some c \<Rightarrow> ctype (parent c))"

definition IS_USAGE_CONDITION :: "cond option \<Rightarrow> bool" where
  "IS_USAGE_CONDITION condition \<longleftrightarrow>
     lttng_condition_get_type condition = LTTNG_CONDITION_TYPE_BUFFER_USAGE_LOW \<or>
     lttng_condition_get_type condition = LTTNG_CONDITION_TYPE_BUFFER_USAGE_HIGH"

definition lttng_condition_init :: "lttng_condition \<Rightarrow> lttng_condition_type \<Rightarrow> lttng_condition" where
  "lttng_condition_init condition type = condition\<lparr>ctype := type\<rparr>"

section \<open>Buffer usage conditions\<close>

definition lttng_condition_buffer_usage_destroy :: "cond \<Rightarrow> heap \<Rightarrow> heap" where
  "lttng_condition_buffer_usage_destroy usage h =
     c_free (c_free_opt (channel_name usage) (c_free_opt (session_name usage) h))"

definition lttng_condition_buffer_usage_validate :: "cond option \<Rightarrow> bool" where
  "lttng_condition_buffer_usage_validate condition =
     (case condition of
        None \<Rightarrow> False
      | Some usage \<Rightarrow>
          if session_name usage = None then False
          else if channel_name usage = None then False
          else if \<not> threshold_ratio_set usage \<and> \<not> threshold_bytes_set usage then False
          else True)"

text \<open>
  \<open>buf\<close> is null or an offset of the destination object \<open>m\<close>. The result is the returned size
  (or -1) and the object afterwards.
\<close>

definition lttng_condition_buffer_usage_serialize ::
  "cond option \<Rightarrow> nat option \<Rightarrow> mem \<Rightarrow> (int \<times> mem) run"
where
  "lttng_condition_buffer_usage_serialize condition buf m =
     (if condition = None \<or> \<not> IS_USAGE_CONDITION condition then Some (-1, m)
      else do {
        usage \<leftarrow> condition;
        session \<leftarrow> session_name usage; \<comment> \<open>\<open>strlen\<close> of a null name is undefined\<close>
        channel \<leftarrow> channel_name usage;
        let session_name_len = length session + 1;
        let channel_name_len = length channel + 1;
        if session_name_len > LTTNG_NAME_MAX \<or> channel_name_len > LTTNG_NAME_MAX then Some (-1, m)
        else do {
          let size = usage_comm_size + (session_name_len + channel_name_len);
          (case buf of
             None \<Rightarrow> Some (int size, m)
           | Some off \<Rightarrow> do {
               val \<leftarrow> (if threshold_bytes_set usage then Some (threshold_bytes_value usage)
                       else double_to_fixed (threshold_ratio_value usage));
               if \<not> threshold_bytes_set usage \<and> unat val > UINT32_MAX then Some (-1, m)
               else do {
                 let usage_comm = \<lparr>
                   cm_threshold_set_in_bytes = (if threshold_bytes_set usage then 1 else 0),
                   cm_threshold = ucast val,
                   cm_session_name_len = of_nat session_name_len,
                   cm_channel_name_len = of_nat channel_name_len,
                   cm_domain_type = word_of_int (domain_type_val (domain_type usage))\<rparr>;
                 m1 \<leftarrow> wr_bytes m off (usage_comm_bytes usage_comm);
                 let off1 = off + usage_comm_size;
                 m2 \<leftarrow> wr_bytes m1 off1 (session @ [0]);
                 let off2 = off1 + session_name_len;
                 m3 \<leftarrow> wr_bytes m2 off2 (channel @ [0]);
                 Some (int size, m3)
               }
             })
        }
      })"

definition lttng_condition_buffer_usage_is_equal :: "cond \<Rightarrow> cond \<Rightarrow> bool" where
  "lttng_condition_buffer_usage_is_equal a b =
     (if (threshold_ratio_set a \<and> \<not> threshold_ratio_set b) \<or>
         (threshold_bytes_set a \<and> \<not> threshold_bytes_set b) then False
      else if (if threshold_ratio_set a \<and> threshold_ratio_set b
               then d_less DBL_EPSILON (d_abs (d_sub (threshold_ratio_value a) (threshold_ratio_value b)))
               else if threshold_bytes_set a \<and> threshold_bytes_set b
               then threshold_bytes_value a \<noteq> threshold_bytes_value b
               else False) then False
      else if (session_name a \<noteq> None \<and> session_name b = None) \<or>
              (session_name a = None \<and> session_name b \<noteq> None) then False
      else if channel_name a \<noteq> None \<and> channel_name b \<noteq> None \<and> channel_name a \<noteq> channel_name b
        then False
      else if (channel_name a \<noteq> None \<and> channel_name b = None) \<or>
              (channel_name a = None \<and> channel_name b \<noteq> None) then False
      else if channel_name a \<noteq> None \<and> channel_name b \<noteq> None \<and> channel_name a \<noteq> channel_name b
        then False
      else if (domain_set a \<and> \<not> domain_set b) \<or> (\<not> domain_set a \<and> domain_set b) then False
      else if domain_set a \<and> domain_set b \<and> domain_type a \<noteq> domain_type b then False
      else True)"

text \<open>A zeroed condition: the numeric fields are 0, the pointers null.\<close>

definition zeroed_condition :: cond where
  "zeroed_condition = \<lparr>
     parent = \<lparr>ctype = LTTNG_CONDITION_TYPE_UNKNOWN, cvalidate = None, cserialize = None,
               cequal = None, cdestroy = None\<rparr>,
     threshold_bytes_set = False, threshold_bytes_value = 0,
     threshold_ratio_set = False, threshold_ratio_value = Fin 0,
     session_name = None, channel_name = None,
     domain_set = False, domain_type = LTTNG_DOMAIN_NONE\<rparr>"

definition lttng_condition_buffer_usage_create ::
  "heap \<Rightarrow> lttng_condition_type \<Rightarrow> cond option \<times> heap"
where
  "lttng_condition_buffer_usage_create h type =
     (let (ok, h') = zmalloc h in
      if \<not> ok then (None, h')
      else (Some (zeroed_condition\<lparr>parent :=
              (lttng_condition_init (parent zeroed_condition) type)
                \<lparr>cvalidate := Some BUFFER_USAGE, cserialize := Some BUFFER_USAGE,
                 cequal := Some BUFFER_USAGE, cdestroy := Some BUFFER_USAGE\<rparr>\<rparr>), h'))"

definition lttng_condition_buffer_usage_low_create :: "heap \<Rightarrow> cond option \<times> heap" where
  "lttng_condition_buffer_usage_low_create h =
     lttng_condition_buffer_usage_create h LTTNG_CONDITION_TYPE_BUFFER_USAGE_LOW"

definition lttng_condition_buffer_usage_high_create :: "heap \<Rightarrow> cond option \<times> heap" where
  "lttng_condition_buffer_usage_high_create h =
     lttng_condition_buffer_usage_create h LTTNG_CONDITION_TYPE_BUFFER_USAGE_HIGH"

subsection \<open>Accessors\<close>

text \<open>
  A getter's out pointer is a flag (non-null or not); its result is the status and the value
  stored through the pointer, if any.
\<close>

definition lttng_condition_buffer_usage_get_threshold_ratio ::
  "cond option \<Rightarrow> bool \<Rightarrow> lttng_condition_status \<times> double option"
where
  "lttng_condition_buffer_usage_get_threshold_ratio condition out =
     (if condition = None \<or> \<not> IS_USAGE_CONDITION condition \<or> \<not> out
      then (LTTNG_CONDITION_STATUS_INVALID, None)
      else let usage = the condition in
        if \<not> threshold_ratio_set usage then (LTTNG_CONDITION_STATUS_UNSET, None)
        else (LTTNG_CONDITION_STATUS_OK, Some (threshold_ratio_value usage)))"

definition lttng_condition_buffer_usage_set_threshold_ratio ::
  "cond option \<Rightarrow> double \<Rightarrow> lttng_condition_status \<times> cond option"
where
  "lttng_condition_buffer_usage_set_threshold_ratio condition ratio =
     (if condition = None \<or> \<not> IS_USAGE_CONDITION condition \<or>
         d_less ratio (Fin 0) \<or> d_less (Fin 1) ratio
      then (LTTNG_CONDITION_STATUS_INVALID, condition)
      else (LTTNG_CONDITION_STATUS_OK,
            Some ((the condition)\<lparr>threshold_ratio_set := True, threshold_bytes_set := False,
                                  threshold_ratio_value := ratio\<rparr>)))"

definition lttng_condition_buffer_usage_get_threshold ::
  "cond option \<Rightarrow> bool \<Rightarrow> lttng_condition_status \<times> u64 option"
where
  "lttng_condition_buffer_usage_get_threshold condition out =
     (if condition = None \<or> \<not> IS_USAGE_CONDITION condition \<or> \<not> out
      then (LTTNG_CONDITION_STATUS_INVALID, None)
      else let usage = the condition in
        if \<not> threshold_bytes_set usage then (LTTNG_CONDITION_STATUS_UNSET, None)
        else (LTTNG_CONDITION_STATUS_OK, Some (threshold_bytes_value usage)))"

definition lttng_condition_buffer_usage_set_threshold ::
  "cond option \<Rightarrow> u64 \<Rightarrow> lttng_condition_status \<times> cond option"
where
  "lttng_condition_buffer_usage_set_threshold condition bytes =
     (if condition = None \<or> \<not> IS_USAGE_CONDITION condition
      then (LTTNG_CONDITION_STATUS_INVALID, condition)
      else (LTTNG_CONDITION_STATUS_OK,
            Some ((the condition)\<lparr>threshold_ratio_set := False, threshold_bytes_set := True,
                                  threshold_bytes_value := bytes\<rparr>)))"

definition lttng_condition_buffer_usage_get_session_name ::
  "cond option \<Rightarrow> bool \<Rightarrow> lttng_condition_status \<times> byte list option"
where
  "lttng_condition_buffer_usage_get_session_name condition out =
     (if condition = None \<or> \<not> IS_USAGE_CONDITION condition \<or> \<not> out
      then (LTTNG_CONDITION_STATUS_INVALID, None)
      else let usage = the condition in
        if session_name usage = None then (LTTNG_CONDITION_STATUS_UNSET, None)
        else (LTTNG_CONDITION_STATUS_OK, session_name usage))"

definition lttng_condition_buffer_usage_set_session_name ::
  "heap \<Rightarrow> cond option \<Rightarrow> byte list option \<Rightarrow> lttng_condition_status \<times> cond option \<times> heap"
where
  "lttng_condition_buffer_usage_set_session_name h condition name =
     (if condition = None \<or> \<not> IS_USAGE_CONDITION condition \<or> name = None \<or> name = Some []
      then (LTTNG_CONDITION_STATUS_INVALID, condition, h)
      else let usage = the condition; (ok, h1) = zmalloc h in
        if \<not> ok then (LTTNG_CONDITION_STATUS_ERROR, condition, h1)
        else (LTTNG_CONDITION_STATUS_OK, Some (usage\<lparr>session_name := name\<rparr>),
              c_free_opt (session_name usage) h1))"

definition lttng_condition_buffer_usage_get_channel_name ::
  "cond option \<Rightarrow> bool \<Rightarrow> lttng_condition_status \<times> byte list option"
where
  "lttng_condition_buffer_usage_get_channel_name condition out =
     (if condition = None \<or> \<not> IS_USAGE_CONDITION condition \<or> \<not> out
      then (LTTNG_CONDITION_STATUS_INVALID, None)
      else let usage = the condition in
        if channel_name usage = None then (LTTNG_CONDITION_STATUS_UNSET, None)
        else (LTTNG_CONDITION_STATUS_OK, channel_name usage))"

definition lttng_condition_buffer_usage_set_channel_name ::
  "heap \<Rightarrow> cond option \<Rightarrow> byte list option \<Rightarrow> lttng_condition_status \<times> cond option \<times> heap"
where
  "lttng_condition_buffer_usage_set_channel_name h condition name =
     (if condition = None \<or> \<not> IS_USAGE_CONDITION condition \<or> name = None \<or> name = Some []
      then (LTTNG_CONDITION_STATUS_INVALID, condition, h)
      else let usage = the condition; (ok, h1) = zmalloc h in
        if \<not> ok then (LTTNG_CONDITION_STATUS_ERROR, condition, h1)
        else (LTTNG_CONDITION_STATUS_OK, Some (usage\<lparr>channel_name := name\<rparr>),
              c_free_opt (channel_name usage) h1))"

definition lttng_condition_buffer_usage_get_domain_type ::
  "cond option \<Rightarrow> bool \<Rightarrow> lttng_condition_status \<times> lttng_domain_type option"
where
  "lttng_condition_buffer_usage_get_domain_type condition out =
     (if condition = None \<or> \<not> IS_USAGE_CONDITION condition \<or> \<not> out
      then (LTTNG_CONDITION_STATUS_INVALID, None)
      else let usage = the condition in
        if \<not> domain_set usage then (LTTNG_CONDITION_STATUS_UNSET, None)
        else (LTTNG_CONDITION_STATUS_OK, Some (domain_type usage)))"

definition lttng_condition_buffer_usage_set_domain_type ::
  "cond option \<Rightarrow> lttng_domain_type \<Rightarrow> lttng_condition_status \<times> cond option"
where
  "lttng_condition_buffer_usage_set_domain_type condition type =
     (if condition = None \<or> \<not> IS_USAGE_CONDITION condition \<or> type = LTTNG_DOMAIN_NONE
      then (LTTNG_CONDITION_STATUS_INVALID, condition)
      else (LTTNG_CONDITION_STATUS_OK,
            Some ((the condition)\<lparr>domain_set := True, domain_type := type\<rparr>)))"

section \<open>Dispatch of the base class\<close>

definition lttng_condition_destroy :: "cond option \<Rightarrow> heap \<Rightarrow> heap run" where
  "lttng_condition_destroy condition h =
     (case condition of
        None \<Rightarrow> Some h
      | Some c \<Rightarrow> (case cdestroy (parent c) of
          None \<Rightarrow> crash
        | Some BUFFER_USAGE \<Rightarrow> Some (lttng_condition_buffer_usage_destroy c h)))"

definition lttng_condition_validate :: "cond option \<Rightarrow> bool" where
  "lttng_condition_validate condition =
     (case condition of
        None \<Rightarrow> False
      | Some c \<Rightarrow> (case cvalidate (parent c) of
          None \<Rightarrow> True
        | Some BUFFER_USAGE \<Rightarrow> lttng_condition_buffer_usage_validate condition))"

definition lttng_condition_serialize :: "cond option \<Rightarrow> nat option \<Rightarrow> mem \<Rightarrow> (int \<times> mem) run" where
  "lttng_condition_serialize condition buf m =
     (case condition of
        None \<Rightarrow> Some (-1, m)
      | Some c \<Rightarrow> do {
          m1 \<leftarrow> (case buf of
                  None \<Rightarrow> Some m
                | Some off \<Rightarrow> wr_bytes m off [word_of_int (condition_type_val (ctype (parent c)))]);
          let buf1 = map_option (\<lambda>off. off + 1) buf;
          (condition_size, m2) \<leftarrow> (case cserialize (parent c) of
                  None \<Rightarrow> crash
                | Some BUFFER_USAGE \<Rightarrow> lttng_condition_buffer_usage_serialize condition buf1 m1);
          if condition_size < 0 then Some (condition_size, m2)
          else Some (1 + condition_size, m2)
        })"

definition lttng_condition_is_equal :: "cond option \<Rightarrow> cond option \<Rightarrow> bool" where
  "lttng_condition_is_equal a b =
     (case (a, b) of
        (Some a, Some b) \<Rightarrow>
          if ctype (parent a) \<noteq> ctype (parent b) then False
          else (case cequal (parent a) of
                  None \<Rightarrow> True
                | Some BUFFER_USAGE \<Rightarrow> lttng_condition_buffer_usage_is_equal a b)
      | _ \<Rightarrow> False)"

section \<open>Deserialization\<close>

text \<open>
  \<open>m\<close> is the object the view points into; \<open>out\<close> tells whether the caller's result pointer is
  non-null. The result is the returned size (or -1), the condition and the ledger afterwards.
\<close>

definition init_condition_from_buffer ::
  "heap \<Rightarrow> cond option \<Rightarrow> mem \<Rightarrow> lttng_buffer_view \<Rightarrow> (int \<times> cond option \<times> heap) run"
where
  "init_condition_from_buffer h condition m src_view =
     (if unat (vsize src_view) < usage_comm_size then Some (-1, condition, h)
      else do {
        base \<leftarrow> vdata src_view;
        raw \<leftarrow> rd_bytes m base usage_comm_size;
        let condition_comm = usage_comm_of_bytes raw;
        let session_name_len = cm_session_name_len condition_comm;
        let channel_name_len = cm_channel_name_len condition_comm;
        names_view \<leftarrow> lttng_buffer_view_from_view (Some src_view) (of_nat usage_comm_size) (-1);
        if unat session_name_len > LTTNG_NAME_MAX \<or> unat channel_name_len > LTTNG_NAME_MAX
        then Some (-1, condition, h)
        else if vsize names_view < ucast (session_name_len + channel_name_len)
        then Some (-1, condition, h)
        else do {
          let (status, condition) =
            (if cm_threshold_set_in_bytes condition_comm \<noteq> 0
             then lttng_condition_buffer_usage_set_threshold condition
                    (ucast (cm_threshold condition_comm))
             else lttng_condition_buffer_usage_set_threshold_ratio condition
                    (fixed_to_double (cm_threshold condition_comm)));
          if status \<noteq> LTTNG_CONDITION_STATUS_OK then Some (-1, condition, h)
          else if sint (cm_domain_type condition_comm) \<le> domain_type_val LTTNG_DOMAIN_NONE \<or>
                  sint (cm_domain_type condition_comm) > domain_type_val LTTNG_DOMAIN_PYTHON
          then Some (-1, condition, h)
          else do {
            let domain = domain_type_of_val (sint (cm_domain_type condition_comm));
            let (status, condition) = lttng_condition_buffer_usage_set_domain_type condition domain;
            if status \<noteq> LTTNG_CONDITION_STATUS_OK then Some (-1, condition, h)
            else do {
              session \<leftarrow> vdata names_view;
              last_session \<leftarrow> rd m (int (session + unat session_name_len) - 1);
              if last_session \<noteq> 0 then Some (-1, condition, h)
              else do {
                let channel = session + unat session_name_len;
                last_channel \<leftarrow> rd m (int (channel + unat channel_name_len) - 1);
                if last_channel \<noteq> 0 then Some (-1, condition, h)
                else do {
                  name \<leftarrow> c_string_at m session;
                  let (status, condition, h) =
                    lttng_condition_buffer_usage_set_session_name h condition (Some name);
                  if status \<noteq> LTTNG_CONDITION_STATUS_OK then Some (-1, condition, h)
                  else do {
                    name \<leftarrow> c_string_at m channel;
                    let (status, condition, h) =
                      lttng_condition_buffer_usage_set_channel_name h condition (Some name);
                    if status \<noteq> LTTNG_CONDITION_STATUS_OK then Some (-1, condition, h)
                    else if \<not> lttng_condition_validate condition then Some (-1, condition, h)
                    else Some (int (usage_comm_size + unat session_name_len + unat channel_name_len),
                               condition, h)
                  }
                }
              }
            }
          }
        }
      })"

definition lttng_condition_buffer_usage_low_create_from_buffer ::
  "heap \<Rightarrow> mem \<Rightarrow> lttng_buffer_view \<Rightarrow> bool \<Rightarrow> (int \<times> cond option \<times> heap) run"
where
  "lttng_condition_buffer_usage_low_create_from_buffer h m view out =
     (let (condition, h) = lttng_condition_buffer_usage_low_create h in
      if \<not> out \<or> condition = None
      then do { h \<leftarrow> lttng_condition_destroy condition h; Some (-1, None, h) }
      else do {
        (ret, condition, h) \<leftarrow> init_condition_from_buffer h condition m view;
        if ret < 0 then do { h \<leftarrow> lttng_condition_destroy condition h; Some (ret, None, h) }
        else Some (ret, condition, h)
      })"

definition lttng_condition_buffer_usage_high_create_from_buffer ::
  "heap \<Rightarrow> mem \<Rightarrow> lttng_buffer_view \<Rightarrow> bool \<Rightarrow> (int \<times> cond option \<times> heap) run"
where
  "lttng_condition_buffer_usage_high_create_from_buffer h m view out =
     (let (condition, h) = lttng_condition_buffer_usage_high_create h in
      if \<not> out \<or> condition = None
      then do { h \<leftarrow> lttng_condition_destroy condition h; Some (-1, None, h) }
      else do {
        (ret, condition, h) \<leftarrow> init_condition_from_buffer h condition m view;
        if ret < 0 then do { h \<leftarrow> lttng_condition_destroy condition h; Some (ret, None, h) }
        else Some (ret, condition, h)
      })"

text \<open>The type byte is read through the view's pointer, whatever the view's size is.\<close>

definition lttng_condition_create_from_buffer ::
  "heap \<Rightarrow> mem \<Rightarrow> lttng_buffer_view option \<Rightarrow> bool \<Rightarrow> (int \<times> cond option \<times> heap) run"
where
  "lttng_condition_create_from_buffer h m buffer out =
     (if buffer = None \<or> \<not> out then Some (-1, None, h)
      else do {
        b \<leftarrow> buffer;
        base \<leftarrow> vdata b;
        type \<leftarrow> rd m (int base);
        if sint type \<noteq> condition_type_val LTTNG_CONDITION_TYPE_BUFFER_USAGE_LOW \<and>
           sint type \<noteq> condition_type_val LTTNG_CONDITION_TYPE_BUFFER_USAGE_HIGH
        then Some (-1, None, h)
        else do {
          view \<leftarrow> lttng_buffer_view_from_view buffer 1 (-1);
          (ret, condition, h) \<leftarrow>
            (if sint type = condition_type_val LTTNG_CONDITION_TYPE_BUFFER_USAGE_LOW
             then lttng_condition_buffer_usage_low_create_from_buffer h m view out
             else lttng_condition_buffer_usage_high_create_from_buffer h m view out);
          if ret < 0 then Some (ret, None, h)
          else Some (1 + ret, condition, h)
        }
      })"

section \<open>Fixed-point conversions\<close>

lemma double_of_UINT32_MAX: "double_of_nat UINT32_MAX = Fin uint32_max"
  using rnd_of_nat_small[of "2 ^ 32 - 1"] by (simp add: double_of_nat_def UINT32_MAX_def)

lemma fixed_to_double_Fin: "fixed_to_double v = Fin (rnd (of_nat (unat v) / uint32_max))"
proof -
  have "unat v < 2 ^ 53" using unat_bounds(3)[of v] by simp
  then have "rnd (of_nat (unat v)) = (of_nat (unat v) :: rat)"
    using rnd_of_nat_small[of "unat v"] by (cases "unat v = 0") (auto simp: rnd_def)
  then show ?thesis
    by (simp add: fixed_to_double_def double_of_UINT32_MAX) (simp add: double_of_nat_def)
qed

lemma fixed_to_double_range:
  "\<not> d_less (fixed_to_double v) (Fin 0)" "\<not> d_less (Fin 1) (fixed_to_double v)"
  using rnd_quotient_range[of "unat v"] unat_bounds(3)[of v] by (simp_all add: fixed_to_double_Fin not_less)

lemma double_to_u64_of_nat: "n < 2 ^ 32 \<Longrightarrow> double_to_u64 (Fin (of_nat n)) = Some (of_nat n)"
  using of_nat_less_iff[of n "2 ^ 32", where ?'a = rat] by simp

lemma double_to_fixed_fixed_to_double: "double_to_fixed (fixed_to_double v) = Some (ucast v)"
proof -
  have v: "unat v < 2 ^ 32" using unat_bounds(3)[of v] by simp
  have "double_to_fixed (fixed_to_double v) = double_to_u64 (Fin (of_nat (unat v)))"
    by (simp only: double_to_fixed_def fixed_to_double_Fin double_of_UINT32_MAX d_mul.simps
        rnd_quotient_mult[OF v])
  also have "\<dots> = Some (of_nat (unat v))" by (rule double_to_u64_of_nat[OF v])
  finally show ?thesis by simp
qed

lemma double_to_fixed_ratio:
  assumes "0 \<le> r" "r \<le> 1"
  shows "\<exists>w. double_to_fixed (Fin r) = Some w \<and> unat w \<le> UINT32_MAX"
proof -
  let ?x = "rnd (r * uint32_max)"
  have x: "0 \<le> ?x" "?x \<le> uint32_max"
    using assms by (auto intro!: rnd_nonneg rnd_le_uint32_max)
  have "\<lfloor>?x\<rfloor> \<le> 4294967295" using x(2) by (simp add: floor_le_iff)
  moreover have "0 \<le> \<lfloor>?x\<rfloor>" using x(1) by simp
  ultimately have "unat (word_of_int \<lfloor>?x\<rfloor> :: u64) \<le> 4294967295"
    by (simp add: unat_eq_nat_uint uint_word_of_int nat_le_iff)
  then show ?thesis
    using x by (simp add: double_to_fixed_def double_of_UINT32_MAX) (simp add: UINT32_MAX_def)
qed

section \<open>Invariant of the conditions the API builds\<close>

definition usage_parent :: "lttng_condition_type \<Rightarrow> lttng_condition" where
  "usage_parent t = \<lparr>ctype = t, cvalidate = Some BUFFER_USAGE, cserialize = Some BUFFER_USAGE,
     cequal = Some BUFFER_USAGE, cdestroy = Some BUFFER_USAGE\<rparr>"

definition name_inv :: "byte list option \<Rightarrow> bool" where
  "name_inv n \<longleftrightarrow> n \<noteq> Some [] \<and> (\<forall>s. n = Some s \<longrightarrow> 0 \<notin> set s)"

definition condition_inv :: "cond \<Rightarrow> bool" where
  "condition_inv c \<longleftrightarrow>
     (parent c = usage_parent LTTNG_CONDITION_TYPE_BUFFER_USAGE_LOW \<or>
      parent c = usage_parent LTTNG_CONDITION_TYPE_BUFFER_USAGE_HIGH) \<and>
     name_inv (session_name c) \<and> name_inv (channel_name c) \<and>
     \<not> (threshold_bytes_set c \<and> threshold_ratio_set c) \<and>
     (threshold_ratio_set c \<longrightarrow>
        \<not> d_less (threshold_ratio_value c) (Fin 0) \<and> \<not> d_less (Fin 1) (threshold_ratio_value c)) \<and>
     (domain_set c \<longleftrightarrow> domain_type c \<noteq> LTTNG_DOMAIN_NONE)"

definition fresh_condition :: "lttng_condition_type \<Rightarrow> cond" where
  "fresh_condition t = zeroed_condition\<lparr>parent := usage_parent t\<rparr>"

lemma usage_parent_callbacks [simp]:
  "ctype (usage_parent t) = t" "cvalidate (usage_parent t) = Some BUFFER_USAGE"
  "cserialize (usage_parent t) = Some BUFFER_USAGE" "cequal (usage_parent t) = Some BUFFER_USAGE"
  "cdestroy (usage_parent t) = Some BUFFER_USAGE"
  by (simp_all add: usage_parent_def)

lemma create_eq:
  "lttng_condition_buffer_usage_create h t =
     (let (ok, h') = zmalloc h in (if ok then Some (fresh_condition t) else None, h'))"
  by (simp add: lttng_condition_buffer_usage_create_def fresh_condition_def usage_parent_def
      zeroed_condition_def lttng_condition_init_def split: prod.splits)

text \<open>
  Every sequence of setter calls on a created condition: a call that fails leaves the condition
  as it was. A name argument is a C string.
\<close>

inductive condition_built :: "cond \<Rightarrow> bool" where
  low: "lttng_condition_buffer_usage_low_create h = (Some c, h') \<Longrightarrow> condition_built c"
| high: "lttng_condition_buffer_usage_high_create h = (Some c, h') \<Longrightarrow> condition_built c"
| ratio: "\<lbrakk>condition_built c; lttng_condition_buffer_usage_set_threshold_ratio (Some c) r = (st, Some c')\<rbrakk>
    \<Longrightarrow> condition_built c'"
| bytes: "\<lbrakk>condition_built c; lttng_condition_buffer_usage_set_threshold (Some c) n = (st, Some c')\<rbrakk>
    \<Longrightarrow> condition_built c'"
| session: "\<lbrakk>condition_built c; \<forall>s. name = Some s \<longrightarrow> 0 \<notin> set s;
     lttng_condition_buffer_usage_set_session_name h (Some c) name = (st, Some c', h')\<rbrakk>
    \<Longrightarrow> condition_built c'"
| channel: "\<lbrakk>condition_built c; \<forall>s. name = Some s \<longrightarrow> 0 \<notin> set s;
     lttng_condition_buffer_usage_set_channel_name h (Some c) name = (st, Some c', h')\<rbrakk>
    \<Longrightarrow> condition_built c'"
| domain: "\<lbrakk>condition_built c; lttng_condition_buffer_usage_set_domain_type (Some c) d = (st, Some c')\<rbrakk>
    \<Longrightarrow> condition_built c'"

lemmas setter_defs =
  lttng_condition_buffer_usage_set_threshold_ratio_def lttng_condition_buffer_usage_set_threshold_def
  lttng_condition_buffer_usage_set_session_name_def lttng_condition_buffer_usage_set_channel_name_def
  lttng_condition_buffer_usage_set_domain_type_def

lemma fresh_condition_inv:
  "condition_inv (fresh_condition LTTNG_CONDITION_TYPE_BUFFER_USAGE_LOW)"
  "condition_inv (fresh_condition LTTNG_CONDITION_TYPE_BUFFER_USAGE_HIGH)"
  by (simp_all add: condition_inv_def fresh_condition_def zeroed_condition_def name_inv_def)

lemma condition_built_inv: "condition_built c \<Longrightarrow> condition_inv c"
proof (induction rule: condition_built.induct)
  case (low h c h')
  then show ?case
    by (auto simp: lttng_condition_buffer_usage_low_create_def create_eq fresh_condition_inv
        split: prod.splits if_splits)
next
  case (high h c h')
  then show ?case
    by (auto simp: lttng_condition_buffer_usage_high_create_def create_eq fresh_condition_inv
        split: prod.splits if_splits)
qed (auto simp: setter_defs condition_inv_def name_inv_def Let_def split: if_splits prod.splits)

lemma condition_inv_usage [simp]: "condition_inv c \<Longrightarrow> IS_USAGE_CONDITION (Some c)"
  by (auto simp: condition_inv_def IS_USAGE_CONDITION_def lttng_condition_get_type_def usage_parent_def)

section \<open>The codec contract\<close>

text \<open>
  A condition that can be sent: complete, with a domain, names that fit and a numeric ratio.
\<close>

definition sendable_condition :: "cond \<Rightarrow> bool" where
  "sendable_condition c \<longleftrightarrow>
     condition_inv c \<and> lttng_condition_validate (Some c) \<and> domain_set c \<and>
     (\<forall>s. session_name c = Some s \<longrightarrow> length s < LTTNG_NAME_MAX) \<and>
     (\<forall>s. channel_name c = Some s \<longrightarrow> length s < LTTNG_NAME_MAX) \<and>
     (threshold_ratio_set c \<longrightarrow> threshold_ratio_value c \<noteq> NaN)"

definition wire_threshold :: "cond \<Rightarrow> u32" where
  "wire_threshold c =
     (if threshold_bytes_set c then ucast (threshold_bytes_value c)
      else case double_to_fixed (threshold_ratio_value c) of None \<Rightarrow> 0 | Some w \<Rightarrow> ucast w)"

definition usage_header :: "cond \<Rightarrow> lttng_condition_buffer_usage_comm" where
  "usage_header c = \<lparr>
     cm_threshold_set_in_bytes = (if threshold_bytes_set c then 1 else 0),
     cm_threshold = wire_threshold c,
     cm_session_name_len = of_nat (length (the (session_name c)) + 1),
     cm_channel_name_len = of_nat (length (the (channel_name c)) + 1),
     cm_domain_type = word_of_int (domain_type_val (domain_type c))\<rparr>"

definition usage_bytes :: "cond \<Rightarrow> byte list" where
  "usage_bytes c =
     usage_comm_bytes (usage_header c) @ (the (session_name c) @ [0]) @ (the (channel_name c) @ [0])"

definition condition_bytes :: "cond \<Rightarrow> byte list" where
  "condition_bytes c = [word_of_int (condition_type_val (ctype (parent c)))] @ usage_bytes c"

text \<open>What the other side gets: the threshold as it survives the 32-bit field.\<close>

definition received_condition :: "cond \<Rightarrow> cond" where
  "received_condition c =
     c\<lparr>threshold_bytes_value := (if threshold_bytes_set c then ucast (wire_threshold c) else 0),
       threshold_ratio_value := (if threshold_bytes_set c then Fin 0 else fixed_to_double (wire_threshold c))\<rparr>"

lemma length_usage_comm_bytes [simp]: "length (usage_comm_bytes c) = usage_comm_size"
  by (simp add: usage_comm_bytes_def)

lemma usage_comm_roundtrip [simp]: "usage_comm_of_bytes (usage_comm_bytes c) = c"
  by (simp add: usage_comm_of_bytes_def usage_comm_bytes_def nth_append)

lemma sendableE:
  assumes "sendable_condition c"
  obtains s ch t where "session_name c = Some s" "channel_name c = Some ch"
    "s \<noteq> []" "ch \<noteq> []" "0 \<notin> set s" "0 \<notin> set ch" "length s < LTTNG_NAME_MAX" "length ch < LTTNG_NAME_MAX"
    "parent c = usage_parent t"
    "t = LTTNG_CONDITION_TYPE_BUFFER_USAGE_LOW \<or> t = LTTNG_CONDITION_TYPE_BUFFER_USAGE_HIGH"
    "threshold_ratio_set c = (\<not> threshold_bytes_set c)" "domain_set c" "domain_type c \<noteq> LTTNG_DOMAIN_NONE"
    "condition_inv c"
  using assms
  by (auto simp: sendable_condition_def condition_inv_def name_inv_def lttng_condition_validate_def
      lttng_condition_buffer_usage_validate_def usage_parent_def split: if_splits option.splits)

lemma sendable_threshold:
  assumes "sendable_condition c"
  shows "\<exists>w. (if threshold_bytes_set c then Some (threshold_bytes_value c)
              else double_to_fixed (threshold_ratio_value c)) = Some w \<and>
             (threshold_bytes_set c \<or> unat w \<le> UINT32_MAX) \<and> wire_threshold c = ucast w"
proof (cases "threshold_bytes_set c")
  case True
  then show ?thesis by (simp add: wire_threshold_def)
next
  case False
  have "threshold_ratio_set c" using assms False by (auto elim: sendableE)
  then obtain r where r: "threshold_ratio_value c = Fin r" "0 \<le> r" "r \<le> 1"
    using assms
    by (cases "threshold_ratio_value c") (auto simp: sendable_condition_def condition_inv_def not_less)
  with False show ?thesis
    using double_to_fixed_ratio[OF r(2,3)] by (auto simp: wire_threshold_def)
qed

lemma usage_serialize_query:
  assumes "sendable_condition c"
  shows "lttng_condition_buffer_usage_serialize (Some c) None m = Some (int (length (usage_bytes c)), m)"
  using assms
  by (elim sendableE) (simp add: lttng_condition_buffer_usage_serialize_def usage_bytes_def Let_def)

lemma usage_serialize_write:
  assumes ok: "sendable_condition c" and fits: "off + length (usage_bytes c) \<le> length m"
  shows "lttng_condition_buffer_usage_serialize (Some c) (Some off) m =
    Some (int (length (usage_bytes c)), patch m off (usage_bytes c))"
proof -
  obtain w where w: "(if threshold_bytes_set c then Some (threshold_bytes_value c)
              else double_to_fixed (threshold_ratio_value c)) = Some w"
    "threshold_bytes_set c \<or> unat w \<le> UINT32_MAX" "wire_threshold c = ucast w"
    using sendable_threshold[OF ok] by blast
  obtain s ch where n: "session_name c = Some s" "channel_name c = Some ch"
    "length s < LTTNG_NAME_MAX" "length ch < LTTNG_NAME_MAX" "condition_inv c"
    using ok by (elim sendableE) simp
  let ?h = "usage_comm_bytes (usage_header c)"
  have len: "length (usage_bytes c) = usage_comm_size + (length s + 1 + (length ch + 1))"
    using n by (simp add: usage_bytes_def)
  have writes: "wr_bytes m off ?h = Some (patch m off ?h)"
    "wr_bytes (patch m off ?h) (off + usage_comm_size) (s @ [0]) = Some (patch m off (?h @ s @ [0]))"
    "wr_bytes (patch m off (?h @ s @ [0])) (off + usage_comm_size + (length s + 1)) (ch @ [0]) =
       Some (patch m off (usage_bytes c))"
    using fits len n patch_patch[of off ?h "s @ [0]" m] patch_patch[of off "?h @ s @ [0]" "ch @ [0]" m]
    by (simp_all add: wr_bytes_patch usage_bytes_def ac_simps)
  have "usage_header c = \<lparr>cm_threshold_set_in_bytes = (if threshold_bytes_set c then 1 else 0),
     cm_threshold = ucast w, cm_session_name_len = of_nat (length s + 1),
     cm_channel_name_len = of_nat (length ch + 1),
     cm_domain_type = word_of_int (domain_type_val (domain_type c))\<rparr>"
    using n w by (simp add: usage_header_def)
  with writes n w len show ?thesis
    by (cases "threshold_bytes_set c")
      (simp_all add: lttng_condition_buffer_usage_serialize_def Let_def not_less ac_simps)
qed

lemma condition_serializer: "serializer lttng_condition_serialize
   (\<lambda>c. c \<noteq> None \<and> sendable_condition (the c)) (\<lambda>c. condition_bytes (the c))"
proof
  fix x :: "cond option" and m
  assume "x \<noteq> None \<and> sendable_condition (the x)"
  then obtain c where c: "x = Some c" "sendable_condition c" by auto
  then have cb: "cserialize (parent c) = Some BUFFER_USAGE"
    by (elim sendableE) (simp add: usage_parent_def)
  with c show "lttng_condition_serialize x None m = Some (int (length (condition_bytes (the x))), m)"
    by (simp add: lttng_condition_serialize_def usage_serialize_query condition_bytes_def)
  fix off
  assume fits: "off + length (condition_bytes (the x)) \<le> length m"
  let ?t = "[word_of_int (condition_type_val (ctype (parent c)))] :: byte list"
  have "wr_bytes m off ?t = Some (patch m off ?t)" "length (patch m off ?t) = length m"
    using fits by (simp_all add: wr_bytes_patch c condition_bytes_def)
  then show "lttng_condition_serialize x (Some off) m =
      Some (int (length (condition_bytes (the x))), patch m off (condition_bytes (the x)))"
    using c cb fits patch_patch[of off ?t "usage_bytes c" m]
      usage_serialize_write[OF c(2), of "off + 1" "patch m off ?t"]
    by (simp add: lttng_condition_serialize_def condition_bytes_def)
qed

lemma domain_type_roundtrip:
  "sint (word_of_int (domain_type_val d) :: u8) = domain_type_val d"
  "d \<noteq> LTTNG_DOMAIN_NONE \<Longrightarrow> domain_type_of_val (domain_type_val d) = d"
  "d \<noteq> LTTNG_DOMAIN_NONE \<Longrightarrow> 0 < domain_type_val d" "domain_type_val d \<le> 5"
  by (cases d; simp add: domain_type_of_val_def)+

text \<open>
  Reading a well-formed image through a view that starts with it. The condition being initialised
  is fresh, so that no name is released.
\<close>

lemma init_condition_parse:
  assumes v: "view_bytes m v = Some (usage_comm_bytes cm @ (s @ [0]) @ (ch @ [0]) @ r)"
    and t: "t = LTTNG_CONDITION_TYPE_BUFFER_USAGE_LOW \<or> t = LTTNG_CONDITION_TYPE_BUFFER_USAGE_HIGH"
    and names: "s \<noteq> []" "ch \<noteq> []" "0 \<notin> set s" "0 \<notin> set ch"
      "length s < LTTNG_NAME_MAX" "length ch < LTTNG_NAME_MAX"
    and lens: "unat (cm_session_name_len cm) = length s + 1" "unat (cm_channel_name_len cm) = length ch + 1"
    and cm: "cm_domain_type cm = word_of_int (domain_type_val d)" "d \<noteq> LTTNG_DOMAIN_NONE"
    and h: "outcomes h = []"
  shows "init_condition_from_buffer h (Some (fresh_condition t)) m v =
    Some (int (usage_comm_size + length s + length ch + 2),
      Some ((fresh_condition t)\<lparr>
        threshold_bytes_set := cm_threshold_set_in_bytes cm \<noteq> 0,
        threshold_bytes_value := (if cm_threshold_set_in_bytes cm \<noteq> 0 then ucast (cm_threshold cm) else 0),
        threshold_ratio_set := cm_threshold_set_in_bytes cm = 0,
        threshold_ratio_value := (if cm_threshold_set_in_bytes cm \<noteq> 0 then Fin 0
                                  else fixed_to_double (cm_threshold cm)),
        session_name := Some s, channel_name := Some ch, domain_set := True, domain_type := d\<rparr>),
      h\<lparr>live := live h + 2\<rparr>)"
proof -
  let ?bs = "usage_comm_bytes cm @ (s @ [0]) @ (ch @ [0]) @ r"
  obtain a where a: "vdata v = Some a" using view_data[OF v] by blast
  have sz: "unat (vsize v) = 16 + length s + length ch + length r" using view_size[OF v] by simp
  obtain v' where v': "lttng_buffer_view_from_view (Some v) 14 (-1) = Some v'"
    "vdata v' = Some (a + 14)" "vsize v' = vsize v - 14"
    using sub_view[OF v, of 14] a by auto
  have "unat (cm_session_name_len cm + cm_channel_name_len cm) = length s + length ch + 2"
    using lens names by (simp add: unat_plus_if')
  then have fit: "\<not> vsize v' < ucast (cm_session_name_len cm + cm_channel_name_len cm)"
    using sz v'(3) by (simp add: word_less_nat_alt unat_sub_if' word_le_nat_alt)
  have reads: "rd_bytes m a 14 = Some (usage_comm_bytes cm)"
    "rd m (int (a + 14 + (length s + 1)) - 1) = Some 0"
    "rd m (int (a + 14 + (length s + 1) + (length ch + 1)) - 1) = Some 0"
    "c_string_at m (a + 14) = Some s" "c_string_at m (a + 14 + (length s + 1)) = Some ch"
    using view_rd_bytes[OF v a, of 0 14] view_rd[OF v a, of "14 + length s"]
      view_rd[OF v a, of "15 + length s + length ch"] view_c_string[OF v a, of 14 s]
      view_c_string[OF v a, of "15 + length s" ch r] names
    by (simp_all add: nth_append ac_simps)
  have u: "IS_USAGE_CONDITION (Some c)" if "parent c = usage_parent t" for c
    using that t by (auto simp: IS_USAGE_CONDITION_def lttng_condition_get_type_def usage_parent_def)
  show ?thesis
    using a sz v' lens fit reads names cm h domain_type_roundtrip[of d]
    by (simp add: init_condition_from_buffer_def setter_defs u fixed_to_double_range
        lttng_condition_validate_def lttng_condition_buffer_usage_validate_def
        fresh_condition_def zeroed_condition_def Let_def c_free_opt_def
        del: of_nat_add of_nat_Suc)
qed

text \<open>The two \<open>create_from_buffer\<close> functions differ in the type only.\<close>

definition create_and_init ::
  "lttng_condition_type \<Rightarrow> heap \<Rightarrow> mem \<Rightarrow> lttng_buffer_view \<Rightarrow> bool \<Rightarrow> (int \<times> cond option \<times> heap) run"
where
  "create_and_init t h m view out =
     (case lttng_condition_buffer_usage_create h t of (condition, h) \<Rightarrow>
      if \<not> out \<or> condition = None
      then do { h \<leftarrow> lttng_condition_destroy condition h; Some (-1, None, h) }
      else do {
        (ret, condition, h) \<leftarrow> init_condition_from_buffer h condition m view;
        if ret < 0 then do { h \<leftarrow> lttng_condition_destroy condition h; Some (ret, None, h) }
        else Some (ret, condition, h)
      })"

lemma create_from_buffer_eq:
  "lttng_condition_buffer_usage_low_create_from_buffer =
     create_and_init LTTNG_CONDITION_TYPE_BUFFER_USAGE_LOW"
  "lttng_condition_buffer_usage_high_create_from_buffer =
     create_and_init LTTNG_CONDITION_TYPE_BUFFER_USAGE_HIGH"
  by (simp_all add: fun_eq_iff create_and_init_def lttng_condition_buffer_usage_low_create_from_buffer_def
      lttng_condition_buffer_usage_high_create_from_buffer_def
      lttng_condition_buffer_usage_low_create_def lttng_condition_buffer_usage_high_create_def)

lemma condition_parse:
  assumes ok: "sendable_condition c" and h: "outcomes h = []"
    and v: "view_bytes m v = Some (condition_bytes c @ r)"
  shows "lttng_condition_create_from_buffer h m (Some v) True =
    Some (int (length (condition_bytes c)), Some (received_condition c), h\<lparr>live := live h + 3\<rparr>)"
proof -
  obtain s ch t where c: "session_name c = Some s" "channel_name c = Some ch"
    "s \<noteq> []" "ch \<noteq> []" "0 \<notin> set s" "0 \<notin> set ch" "length s < LTTNG_NAME_MAX" "length ch < LTTNG_NAME_MAX"
    "parent c = usage_parent t"
    "t = LTTNG_CONDITION_TYPE_BUFFER_USAGE_LOW \<or> t = LTTNG_CONDITION_TYPE_BUFFER_USAGE_HIGH"
    "threshold_ratio_set c = (\<not> threshold_bytes_set c)" "domain_set c" "domain_type c \<noteq> LTTNG_DOMAIN_NONE"
    using ok by (elim sendableE) simp
  obtain a where a: "vdata v = Some a" using view_data[OF v] by blast
  obtain v' where v': "lttng_buffer_view_from_view (Some v) 1 (-1) = Some v'"
    "view_bytes m v' = Some (usage_bytes c @ r)"
    using sub_view[OF v, of 1] by (auto simp: condition_bytes_def)
  have type: "rd m (int a) = Some (word_of_int (condition_type_val t))"
    using view_rd[OF v a, of 0] c by (simp add: condition_bytes_def)
  have len: "unat (of_nat (length s + 1) :: u32) = length s + 1" "unat (of_nat (length ch + 1) :: u32) = length ch + 1"
    by (rule unat_of_nat_u32, use c in simp)+
  have view: "view_bytes m v' = Some (usage_comm_bytes (usage_header c) @ (s @ [0]) @ (ch @ [0]) @ r)"
    using v'(2) c by (simp add: usage_bytes_def)
  let ?h = "h\<lparr>live := live h + 1\<rparr>"
  have "init_condition_from_buffer ?h (Some (fresh_condition t)) m v' =
      Some (int (length (usage_bytes c)), Some (received_condition c), h\<lparr>live := live h + 3\<rparr>)"
    using init_condition_parse[OF view c(10,3-8), where d = "domain_type c" and h = ?h] c h len
    by (simp add: usage_header_def usage_bytes_def received_condition_def fresh_condition_def zeroed_condition_def)
  then show ?thesis
    using c(10) a type v'(1) h
    by (auto simp: lttng_condition_create_from_buffer_def create_from_buffer_eq create_and_init_def create_eq condition_bytes_def
        simp del: of_nat_add)
qed

abbreviation sendable :: "cond option \<Rightarrow> bool" where
  "sendable c \<equiv> c \<noteq> None \<and> sendable_condition (the c)"

interpretation condition: codec lttng_condition_serialize sendable "\<lambda>c. condition_bytes (the c)"
  lttng_condition_create_from_buffer "\<lambda>c. received_condition (the c)" 3
proof -
  show "codec lttng_condition_serialize sendable (\<lambda>c. condition_bytes (the c))
      lttng_condition_create_from_buffer (\<lambda>c. received_condition (the c)) 3"
  proof (intro codec.intro codec_axioms.intro condition_serializer)
    show "length (condition_bytes (the x)) < 2 ^ 16" if "sendable x" for x
    proof -
      from that have "sendable_condition (the x)" by simp
      then show ?thesis by (elim sendableE) (simp add: condition_bytes_def usage_bytes_def)
    qed
  qed (use condition_parse in auto)
qed

section \<open>Memory safety and ownership of the parser\<close>

lemma strz_exists: "\<exists>s. strz (map Some (xs @ 0 # r) @ q) = Some s"
  by (induction xs) auto

lemma view_c_string_exists:
  assumes v: "view_bytes m v = Some bs" "vdata v = Some a" and j: "i \<le> j" "j < length bs" "bs ! j = 0"
  shows "\<exists>s. c_string_at m (a + i) = Some s"
proof -
  obtain p q where m: "m = p @ map Some bs @ q" "length p = a"
    using v by (auto elim: view_bytesE)
  have "drop i bs = take (j - i) (drop i bs) @ bs ! j # drop (Suc j) bs"
    using j id_take_nth_drop[of "j - i" "drop i bs"] by simp
  then show ?thesis
    using m j strz_exists[of "take (j - i) (drop i bs)" "drop (Suc j) bs" q]
    by (simp add: c_string_at_def drop_map)
qed

text \<open>The blocks a condition owns.\<close>

definition condition_blocks :: "cond \<Rightarrow> int" where
  "condition_blocks c =
     1 + (if session_name c = None then 0 else 1) + (if channel_name c = None then 0 else 1)"

lemma destroy_ledger:
  "parent c = usage_parent t \<Longrightarrow>
     \<exists>h'. lttng_condition_destroy (Some c) h = Some h' \<and> live h' = live h - condition_blocks c"
  by (simp add: lttng_condition_destroy_def lttng_condition_buffer_usage_destroy_def condition_blocks_def)

text \<open>
  \<open>held t k c h\<close>: \<open>c\<close> is a condition of type \<open>t\<close> that satisfies the invariant, and the ledger counts
  its blocks on top of \<open>k\<close> others.
\<close>

definition held :: "lttng_condition_type \<Rightarrow> int \<Rightarrow> cond option \<Rightarrow> heap \<Rightarrow> bool" where
  "held t k c h = (case c of
       None \<Rightarrow> False
     | Some c \<Rightarrow> parent c = usage_parent t \<and> condition_inv c \<and> live h = k + condition_blocks c)"

lemma condition_inv_update:
  "condition_inv c \<Longrightarrow> condition_inv (c\<lparr>threshold_ratio_set := False, threshold_bytes_set := True,
     threshold_bytes_value := n\<rparr>)"
  "condition_inv c \<Longrightarrow> \<not> d_less r (Fin 0) \<Longrightarrow> \<not> d_less (Fin 1) r \<Longrightarrow>
     condition_inv (c\<lparr>threshold_ratio_set := True, threshold_bytes_set := False, threshold_ratio_value := r\<rparr>)"
  "condition_inv c \<Longrightarrow> d \<noteq> LTTNG_DOMAIN_NONE \<Longrightarrow> condition_inv (c\<lparr>domain_set := True, domain_type := d\<rparr>)"
  "condition_inv c \<Longrightarrow> name_inv n' \<Longrightarrow> condition_inv (c\<lparr>session_name := n'\<rparr>)"
  "condition_inv c \<Longrightarrow> name_inv n' \<Longrightarrow> condition_inv (c\<lparr>channel_name := n'\<rparr>)"
  by (simp_all add: condition_inv_def)

lemma condition_blocks_update [simp]:
  "condition_blocks (c\<lparr>threshold_ratio_set := b1, threshold_bytes_set := b2, threshold_bytes_value := n\<rparr>) = condition_blocks c"
  "condition_blocks (c\<lparr>threshold_ratio_set := b1, threshold_bytes_set := b2, threshold_ratio_value := r\<rparr>) = condition_blocks c"
  "condition_blocks (c\<lparr>domain_set := b1, domain_type := d\<rparr>) = condition_blocks c"
  by (simp_all add: condition_blocks_def)

lemma heldE:
  assumes "held t k c h"
  obtains c0 where "c = Some c0" "parent c0 = usage_parent t" "condition_inv c0"
    "live h = k + condition_blocks c0"
  using assms by (cases c) (simp_all add: held_def)

lemma setter_held:
  "held t k c h \<Longrightarrow> lttng_condition_buffer_usage_set_threshold c n = (st, c') \<Longrightarrow> held t k c' h"
  "held t k c h \<Longrightarrow> lttng_condition_buffer_usage_set_threshold_ratio c r = (st, c') \<Longrightarrow> held t k c' h"
  "held t k c h \<Longrightarrow> lttng_condition_buffer_usage_set_domain_type c d = (st, c') \<Longrightarrow> held t k c' h"
  by (elim heldE; clarsimp simp: setter_defs held_def condition_inv_update split: if_split_asm)+

lemma threshold_held:
  assumes "held t k c h" and "(if b then lttng_condition_buffer_usage_set_threshold c n
    else lttng_condition_buffer_usage_set_threshold_ratio c r) = (st, c')"
  shows "held t k c' h"
  using assms(2) setter_held(1)[OF assms(1), of n st c'] setter_held(2)[OF assms(1), of r st c']
  by (cases b) simp_all

lemma c_string_no_nul: "c_string_at m a = Some s \<Longrightarrow> 0 \<notin> set s"
  unfolding c_string_at_def by (rule strz_no_nul)

lemma name_setter_held:
  assumes "c_string_at m a = Some s" "held t k c h"
  shows "lttng_condition_buffer_usage_set_session_name h c (Some s) = (st, c', h') \<Longrightarrow> held t k c' h'"
    "lttng_condition_buffer_usage_set_channel_name h c (Some s) = (st, c', h') \<Longrightarrow> held t k c' h'"
proof -
  obtain ok h1 where z: "zmalloc h = (ok, h1)" by (cases "zmalloc h")
  then have live: "live h1 = live h + (if ok then 1 else 0)" by (rule zmalloc_live)
  obtain c0 where c: "c = Some c0" "parent c0 = usage_parent t" "condition_inv c0"
    "live h = k + condition_blocks c0"
    using assms(2) by (rule heldE)
  have u: "IS_USAGE_CONDITION (Some c0)" using c(3) by simp
  have s: "s = [] \<or> name_inv (Some s)" using c_string_no_nul[OF assms(1)] by (simp add: name_inv_def)
  have inv: "condition_inv (c0\<lparr>session_name := Some s\<rparr>)" "condition_inv (c0\<lparr>channel_name := Some s\<rparr>)"
    if "s \<noteq> []" using that s c(3) condition_inv_update(4,5) by blast+
  show "lttng_condition_buffer_usage_set_session_name h c (Some s) = (st, c', h') \<Longrightarrow> held t k c' h'"
    unfolding lttng_condition_buffer_usage_set_session_name_def z Let_def
    using c(1,2,4) c(3) inv(1) live u
    by (cases "s = []"; cases ok) (auto simp: held_def condition_blocks_def)
  show "lttng_condition_buffer_usage_set_channel_name h c (Some s) = (st, c', h') \<Longrightarrow> held t k c' h'"
    unfolding lttng_condition_buffer_usage_set_channel_name_def z Let_def
    using c(1,2,4) c(3) inv(2) live u
    by (cases "s = []"; cases ok) (auto simp: held_def condition_blocks_def)
qed

text \<open>The same facts as rules that follow the parser's do-block.\<close>

lemma post_threshold:
  assumes "held t k c h" "\<And>st c'. held t k c' h \<Longrightarrow> post P (f st c')"
  shows "post P (case (if b then lttng_condition_buffer_usage_set_threshold c n
     else lttng_condition_buffer_usage_set_threshold_ratio c r) of (st, c') \<Rightarrow> f st c')"
  by (rule post_case_prod) (rule assms(2)[OF threshold_held[OF assms(1)]])

lemma post_domain:
  assumes "held t k c h"
    "\<And>st c'. held t k c' h \<Longrightarrow> (st = LTTNG_CONDITION_STATUS_OK \<Longrightarrow> domain_set (the c')) \<Longrightarrow> post P (f st c')"
  shows "post P (case lttng_condition_buffer_usage_set_domain_type c d of (st, c') \<Rightarrow> f st c')"
proof (rule post_case_prod)
  fix st c'
  assume e: "lttng_condition_buffer_usage_set_domain_type c d = (st, c')"
  then have "st = LTTNG_CONDITION_STATUS_OK \<Longrightarrow> domain_set (the c')"
    by (auto simp: setter_defs split: if_splits)
  then show "post P (f st c')" using assms setter_held(3)[OF assms(1) e] by blast
qed

lemma post_name:
  assumes "held t k c h" "domain_set (the c)"
    "\<And>st c' h'. held t k c' h' \<Longrightarrow> domain_set (the c') \<Longrightarrow> post P (f st c' h')"
  shows "c_string_at m a = Some s \<Longrightarrow>
      post P (case lttng_condition_buffer_usage_set_session_name h c (Some s) of (st, c', h') \<Rightarrow> f st c' h')"
    "c_string_at m a = Some s \<Longrightarrow>
      post P (case lttng_condition_buffer_usage_set_channel_name h c (Some s) of (st, c', h') \<Rightarrow> f st c' h')"
proof -
  have "domain_set (the c')"
    if "lttng_condition_buffer_usage_set_session_name h c (Some s) = (st, c', h') \<or>
        lttng_condition_buffer_usage_set_channel_name h c (Some s) = (st, c', h')" for st c' h'
    using that assms(1,2) by (auto simp: setter_defs Let_def held_def split: if_splits prod.splits)
  then show "c_string_at m a = Some s \<Longrightarrow>
      post P (case lttng_condition_buffer_usage_set_session_name h c (Some s) of (st, c', h') \<Rightarrow> f st c' h')"
    "c_string_at m a = Some s \<Longrightarrow>
      post P (case lttng_condition_buffer_usage_set_channel_name h c (Some s) of (st, c', h') \<Rightarrow> f st c' h')"
    using assms(1,3) name_setter_held[OF _ assms(1)] by (blast intro: post_case_prod3)+
qed

lemma init_held:
  assumes "held t k c h"
  shows "post (\<lambda>(ret, c', h'). held t k c' h' \<and>
      (ret = -1 \<or> int usage_comm_size \<le> ret \<and> lttng_condition_validate c' \<and> domain_set (the c')))
    (init_condition_from_buffer h c m v)"
  unfolding init_condition_from_buffer_def Let_def
  by (intro post_if post_bind post_threshold[where t = t and k = k] post_domain[where t = t and k = k]
      post_name[where t = t and k = k] post_SomeI; (use assms in \<open>simp del: not_None_eq\<close>)?)

text \<open>Creation followed by initialisation, for either type.\<close>

definition parsed :: "heap \<Rightarrow> int \<times> cond option \<times> heap \<Rightarrow> bool" where
  "parsed h = (\<lambda>(ret, c, h').
     ret = -1 \<and> c = None \<and> live h' = live h \<or>
     int usage_comm_size \<le> ret \<and> c \<noteq> None \<and> condition_inv (the c) \<and> lttng_condition_validate c \<and>
     domain_set (the c) \<and> live h' = live h + 3)"

lemma validate_blocks:
  "parent c = usage_parent t \<Longrightarrow> lttng_condition_validate (Some c) \<Longrightarrow> condition_blocks c = 3"
  by (auto simp: lttng_condition_validate_def lttng_condition_buffer_usage_validate_def condition_blocks_def
      split: if_splits)

lemma create_held:
  assumes "lttng_condition_buffer_usage_create h t = (c, h')"
    "t = LTTNG_CONDITION_TYPE_BUFFER_USAGE_LOW \<or> t = LTTNG_CONDITION_TYPE_BUFFER_USAGE_HIGH"
  shows "c = None \<and> live h' = live h \<or> held t (live h) c h'"
proof -
  obtain ok h1 where z: "zmalloc h = (ok, h1)" by (cases "zmalloc h")
  then have "live h1 = live h + (if ok then 1 else 0)" by (rule zmalloc_live)
  then show ?thesis
    using assms fresh_condition_inv
    by (cases ok) (auto simp: create_eq z held_def condition_blocks_def fresh_condition_def zeroed_condition_def)
qed

lemma destroy_held:
  assumes "held t k c h"
  shows "\<exists>h'. lttng_condition_destroy c h = Some h' \<and> live h' = k"
proof -
  obtain c0 where "c = Some c0" "parent c0 = usage_parent t" "live h = k + condition_blocks c0"
    using assms by (rule heldE)
  then show ?thesis using destroy_ledger[of c0 t h] by simp
qed

lemma create_init_parsed:
  assumes t: "t = LTTNG_CONDITION_TYPE_BUFFER_USAGE_LOW \<or> t = LTTNG_CONDITION_TYPE_BUFFER_USAGE_HIGH"
  shows "post (parsed h) (create_and_init t h m view out)"
proof -
  obtain c h1 where c: "lttng_condition_buffer_usage_create h t = (c, h1)"
    by (cases "lttng_condition_buffer_usage_create h t")
  consider "c = None" "live h1 = live h" | "held t (live h) c h1" using create_held[OF c t] by blast
  then show ?thesis
  proof cases
    case 1
    then show ?thesis by (simp add: create_and_init_def c lttng_condition_destroy_def post_def parsed_def)
  next
    case 2
    have init: "post (parsed h) (if ret < 0
        then do { h \<leftarrow> lttng_condition_destroy c' h'; Some (ret, None, h) } else Some (ret, c', h'))"
      if e: "init_condition_from_buffer h1 c m view = Some (ret, c', h')" for ret c' h'
    proof -
      have r: "held t (live h) c' h'" "ret = -1 \<or> int usage_comm_size \<le> ret \<and> lttng_condition_validate c' \<and> domain_set (the c')"
        using postD[OF init_held[OF 2] e] by simp_all
      obtain c0 where c0: "c' = Some c0" "parent c0 = usage_parent t" "condition_inv c0"
        "live h' = live h + condition_blocks c0" using r(1) by (rule heldE)
      obtain h2 where h2: "lttng_condition_destroy c' h' = Some h2" "live h2 = live h"
        using destroy_held[OF r(1)] by blast
      show ?thesis
      proof (cases "ret = -1")
        case True
        then show ?thesis using h2 by (simp add: post_Some_iff parsed_def)
      next
        case False
        then show ?thesis using r(2) c0 validate_blocks[OF c0(2)] by (simp add: post_Some_iff parsed_def)
      qed
    qed
    obtain h2 where h2: "lttng_condition_destroy c h1 = Some h2" "live h2 = live h"
      using destroy_held[OF 2] by blast
    show ?thesis
      unfolding create_and_init_def c prod.case
      by (rule post_if) (simp add: h2 post_Some_iff parsed_def, auto intro!: post_bind init)
  qed
qed

lemma condition_parsed: "post (parsed h) (lttng_condition_create_from_buffer h m buffer out)"
  unfolding lttng_condition_create_from_buffer_def
proof (intro post_if post_bind)
  fix view x type
  assume e: "(if sint (type :: byte) = condition_type_val LTTNG_CONDITION_TYPE_BUFFER_USAGE_LOW
      then lttng_condition_buffer_usage_low_create_from_buffer h m view out
      else lttng_condition_buffer_usage_high_create_from_buffer h m view out) = Some x"
  have "parsed h x"
    by (rule postD[OF _ e]) (auto simp: create_from_buffer_eq intro!: create_init_parsed)
  then show "post (parsed h) (case x of (ret, condition, h) \<Rightarrow>
      if ret < 0 then Some (ret, None, h) else Some (1 + ret, condition, h))"
    by (auto simp: post_Some_iff parsed_def split: prod.splits)
qed (simp_all add: post_Some_iff parsed_def)

text \<open>
  Bytes in the view are enough for the parser, unless the channel name has length 0: the last
  byte checked is then the session name's terminator.
\<close>

lemma init_safe:
  assumes v: "view_bytes m v = Some bs"
    and len: "usage_comm_size \<le> length bs \<Longrightarrow> cm_channel_name_len (usage_comm_of_bytes (take usage_comm_size bs)) \<noteq> 0"
  shows "safe (init_condition_from_buffer h c m v)"
proof (cases "length bs < usage_comm_size")
  case True
  then show ?thesis using view_size[OF v] by (simp add: init_condition_from_buffer_def safe_Some)
next
  case False
  define cm where "cm = usage_comm_of_bytes (take usage_comm_size bs)"
  let ?s = "unat (cm_session_name_len cm)" and ?c = "unat (cm_channel_name_len cm)"
  have c0: "0 < ?c" using len False by (simp add: cm_def unat_gt_0)
  obtain a where a: "vdata v = Some a" using view_data[OF v] by blast
  have sz: "unat (vsize v) = length bs" using view_size[OF v] by simp
  obtain v' where v': "lttng_buffer_view_from_view (Some v) 14 (-1) = Some v'"
    "vdata v' = Some (a + 14)" "vsize v' = vsize v - 14"
    using sub_view[OF v, of 14] a False by auto
  have raw: "rd_bytes m a 14 = Some (take 14 bs)" using view_rd_bytes[OF v a, of 0 14] False by simp
  have dom: "bs ! 13 = cm_domain_type cm" using False by (simp add: cm_def usage_comm_of_bytes_def)
  have sum: "unat (cm_session_name_len cm + cm_channel_name_len cm) = ?s + ?c" if "?s \<le> 255" "?c \<le> 255"
    using that by (simp add: unat_plus_if')
  have fit: "14 + ?s + ?c \<le> length bs"
    if "\<not> (255 < ?s \<or> 255 < ?c)" "\<not> vsize v - 14 < ucast (cm_session_name_len cm + cm_channel_name_len cm)"
    using that sum sz False by (simp add: word_less_nat_alt unat_sub_if' word_le_nat_alt)
  have sess: "rd m (int (a + 14 + ?s) - 1) = Some (bs ! (13 + ?s))" if "14 + ?s + ?c \<le> length bs"
    using that view_rd[OF v a, of "13 + ?s"] c0 by (simp add: ac_simps)
  have chan: "rd m (int (a + 14 + ?s + ?c) - 1) = Some (bs ! (13 + ?s + ?c))" if "14 + ?s + ?c \<le> length bs"
    using that view_rd[OF v a, of "13 + ?s + ?c"] c0 by (simp add: ac_simps)
  have reads: "safe (rd m (int (a + 14 + ?s) - 1))" "safe (rd m (int (a + 14 + ?s + ?c) - 1))"
    if "\<not> (255 < ?s \<or> 255 < ?c)" "\<not> vsize v - 14 < ucast (cm_session_name_len cm + cm_channel_name_len cm)"
    using sess[OF fit[OF that]] chan[OF fit[OF that]] by (simp_all only: safe_Some)
  have strings: "safe (c_string_at m (a + 14))" "safe (c_string_at m (a + 14 + ?s))"
    if "\<not> (255 < ?s \<or> 255 < ?c)" "\<not> vsize v - 14 < ucast (cm_session_name_len cm + cm_channel_name_len cm)"
      "\<not> (sint (cm_domain_type cm) \<le> domain_type_val LTTNG_DOMAIN_NONE \<or>
        domain_type_val LTTNG_DOMAIN_PYTHON < sint (cm_domain_type cm))"
      "rd m (int (a + 14 + ?s) - 1) = Some x" "\<not> x \<noteq> 0"
      "rd m (int (a + 14 + ?s + ?c) - 1) = Some y" "\<not> y \<noteq> 0" for x y
  proof -
    note f = fit[OF that(1,2)]
    have nul: "bs ! (13 + ?s) = 0" "bs ! (13 + ?s + ?c) = 0"
      using sess[OF f] chan[OF f] that(4-7) by simp_all
    have "0 < ?s" using nul(1) that(3) dom by (cases "?s = 0") auto
    then show "safe (c_string_at m (a + 14))" "safe (c_string_at m (a + 14 + ?s))"
      using f nul view_c_string_exists[OF v a, of 14 "13 + ?s"]
        view_c_string_exists[OF v a, of "14 + ?s" "13 + ?s + ?c"] c0
      by (auto intro: safeI simp: ac_simps)
  qed
  show ?thesis
    unfolding init_condition_from_buffer_def Let_def
    by (simp only: raw v' a bind.bind_lunit cm_def[symmetric] of_nat_numeral, intro safe_intros)
      (rule reads strings; assumption)+
qed

lemma create_and_init_safe:
  assumes t: "t = LTTNG_CONDITION_TYPE_BUFFER_USAGE_LOW \<or> t = LTTNG_CONDITION_TYPE_BUFFER_USAGE_HIGH"
    and init: "\<And>h c. safe (init_condition_from_buffer h c m v)"
  shows "safe (create_and_init t h m v out)"
proof -
  obtain c h1 where c: "lttng_condition_buffer_usage_create h t = (c, h1)"
    by (cases "lttng_condition_buffer_usage_create h t")
  then have h: "c = None \<or> held t (live h) c h1" using create_held[OF c t] by blast
  have "safe (lttng_condition_destroy c h1)"
    using h destroy_held[of t "live h" c h1] by (auto simp: lttng_condition_destroy_def safe_Some safe_def)
  moreover have "safe (lttng_condition_destroy c' h')"
    if "init_condition_from_buffer h1 c m v = Some (ret, c', h')" "c \<noteq> None" for ret c' h'
    using that h postD[OF init_held that(1)] destroy_held[of t "live h" c' h'] by (auto simp: safe_def)
  ultimately show ?thesis
    unfolding create_and_init_def c prod.case
    by (intro safe_if safe_bind safe_case_prod3 init safe_Some) auto
qed

lemma condition_safe:
  assumes v: "view_bytes m v = Some bs" "bs \<noteq> []"
    and len: "15 \<le> length bs \<Longrightarrow> le_val (take 4 (drop 10 bs)) \<noteq> 0"
  shows "safe (lttng_condition_create_from_buffer h m (Some v) out)"
proof -
  obtain a where a: "vdata v = Some a" using view_data[OF v(1)] by blast
  obtain b bs' where bs: "bs = b # bs'" using v(2) by (cases bs) auto
  obtain v' where v': "lttng_buffer_view_from_view (Some v) 1 (-1) = Some v'" "view_bytes m v' = Some bs'"
    using sub_view[OF v(1), of 1] bs by auto
  have "cm_channel_name_len (usage_comm_of_bytes (take 14 bs')) \<noteq> 0" if "14 \<le> length bs'"
  proof -
    have "le_val (take 4 (drop 9 bs')) < 256 ^ 4" using le_val_bound[of "take 4 (drop 9 bs')"] that by simp
    moreover have "le_val (take 4 (drop 9 bs')) \<noteq> 0" using len that by (simp add: bs)
    ultimately have "unat (of_nat (le_val (take 4 (drop 9 bs'))) :: u32) \<noteq> 0" by (simp add: unat_of_nat)
    then show ?thesis by (auto simp: usage_comm_of_bytes_def drop_take)
  qed
  then have "safe (init_condition_from_buffer h c m v')" for h c by (intro init_safe[OF v'(2)])
  then have "safe (create_and_init LTTNG_CONDITION_TYPE_BUFFER_USAGE_LOW h m v' out)"
    "safe (create_and_init LTTNG_CONDITION_TYPE_BUFFER_USAGE_HIGH h m v' out)"
    by (intro create_and_init_safe; simp)+
  moreover have "rd m (int a) = Some b" using view_rd[OF v(1) a, of 0] bs by simp
  ultimately show ?thesis
    unfolding lttng_condition_create_from_buffer_def create_from_buffer_eq
    by (intro safe_intros) (auto simp: a v'(1) safe_Some)
qed

section \<open>Properties\<close>

text \<open>A complete condition, and the image of one whose channel name has length 0.\<close>

definition sample_condition :: cond where
  "sample_condition = (fresh_condition LTTNG_CONDITION_TYPE_BUFFER_USAGE_HIGH)\<lparr>
     threshold_bytes_set := True, threshold_bytes_value := 4096,
     session_name := Some [115, 49], channel_name := Some [99], domain_set := True,
     domain_type := LTTNG_DOMAIN_UST\<rparr>"

definition sample_ratio_condition :: cond where
  "sample_ratio_condition = sample_condition\<lparr>threshold_bytes_set := False, threshold_ratio_set := True,
     threshold_ratio_value := Fin (3 / 4)\<rparr>"

definition unterminated_image :: mem where
  "unterminated_image = map Some ([102] @ usage_comm_bytes \<lparr>cm_threshold_set_in_bytes = 1,
     cm_threshold = 1, cm_session_name_len = 2, cm_channel_name_len = 0, cm_domain_type = 1\<rparr> @ [97, 0])"

lemma sample_sendable: "sendable_condition sample_condition" "sendable_condition sample_ratio_condition"
  by (simp_all add: sendable_condition_def condition_inv_def name_inv_def sample_condition_def
      sample_ratio_condition_def fresh_condition_def zeroed_condition_def lttng_condition_validate_def
      lttng_condition_buffer_usage_validate_def)

lemma length_sample: "length (condition_bytes sample_condition) = 20"
  by (simp add: condition_bytes_def usage_bytes_def sample_condition_def)

text \<open>
  C5: serialization and parsing of a condition are inverse to each other up to the 32-bit wire
  threshold. For a sendable condition, the size answered by a query is the size written; the write
  changes nothing outside that range; and parsing the range returns the same size and the condition
  the peer is meant to receive, at the cost of three blocks (the condition and its two names).
\<close>

theorem condition_roundtrip:
  assumes "sendable_condition c" "outcomes h = []"
    and "lttng_condition_serialize (Some c) None m = Some (n, m0)" "off + nat n \<le> length m"
  shows "\<exists>m'. lttng_condition_serialize (Some c) (Some off) m = Some (n, m') \<and>
    length m' = length m \<and> (\<forall>i. i < off \<or> off + nat n \<le> i \<longrightarrow> m' ! i = m ! i) \<and>
    lttng_condition_create_from_buffer h m' (Some \<lparr>vdata = Some off, vsize = of_int n\<rparr>) True =
      Some (n, Some (received_condition c), h\<lparr>live := live h + 3\<rparr>)"
  using condition.roundtrip[of "Some c" h m n m0 off] condition.query_predicts_write[of "Some c" m n m0 off] assms
  by auto

theorem condition_roundtrip_witness:
  "\<exists>m'. lttng_condition_serialize (Some sample_condition) (Some 2) (replicate 23 None) = Some (20, m') \<and>
    length m' = 23 \<and> (\<forall>i. i < 2 \<or> 22 \<le> i \<longrightarrow> m' ! i = (replicate 23 None :: mem) ! i) \<and>
    lttng_condition_create_from_buffer \<lparr>outcomes = [], live = 0\<rparr> m'
      (Some \<lparr>vdata = Some 2, vsize = 20\<rparr>) True =
      Some (20, Some (received_condition sample_condition), \<lparr>outcomes = [], live = 3\<rparr>)"
  using condition_roundtrip[OF sample_sendable(1), of "\<lparr>outcomes = [], live = 0\<rparr>" "replicate 23 None" 20
      "replicate 23 None" 2] condition.ser_query[of "Some sample_condition" "replicate 23 None"]
    sample_sendable(1) length_sample by simp

lemma received_sendable: "sendable_condition c \<Longrightarrow> sendable_condition (received_condition c)"
  using fixed_to_double_range[of "wire_threshold c"]
  by (auto simp: sendable_condition_def condition_inv_def received_condition_def fixed_to_double_Fin
      lttng_condition_validate_def lttng_condition_buffer_usage_validate_def split: option.splits if_splits)

text \<open>
  C6: a condition does not drift when it is forwarded. What a peer receives can be sent again, and
  the next peer receives exactly the same condition. For a ratio threshold this rests on the
  conversion to a 32-bit fixed point number being the inverse of the conversion back, in double
  precision arithmetic.
\<close>

theorem condition_forwarding_stable:
  assumes "sendable_condition c"
  shows "sendable_condition (received_condition c) \<and>
    received_condition (received_condition c) = received_condition c"
proof -
  have w: "wire_threshold (received_condition c) = wire_threshold c"
    by (auto simp: wire_threshold_def received_condition_def double_to_fixed_fixed_to_double
        ucast_down_ucast_id is_down)
  have "sendable_condition (received_condition c)" by (rule received_sendable[OF assms])
  moreover have "received_condition (received_condition c) = received_condition c"
    by (simp only: received_condition_def[of "received_condition c"] w) (simp add: received_condition_def)
  ultimately show ?thesis by simp
qed

theorem condition_forwarding_stable_witness:
  "sendable_condition sample_ratio_condition \<and>
   received_condition (received_condition sample_ratio_condition) = received_condition sample_ratio_condition"
  using condition_forwarding_stable[OF sample_sendable(2)] sample_sendable(2) by simp

text \<open>
  C24: parsing a condition never leaks and never hands out a bad condition. Whatever the buffer, the
  result pointer and the allocation outcomes are, if the parser returns then either it returns -1,
  gives no condition and leaves the number of live blocks unchanged, or it returns the size it
  consumed and a condition that satisfies the API's invariant, passes validation and has a domain,
  for three blocks more.
\<close>

theorem condition_parse_ownership:
  assumes "lttng_condition_create_from_buffer h m buffer out = Some (ret, c, h')"
  shows "ret = -1 \<and> c = None \<and> live h' = live h \<or>
    (\<exists>c0. c = Some c0 \<and> 0 < ret \<and> condition_inv c0 \<and> lttng_condition_validate (Some c0) \<and>
       domain_set c0 \<and> live h' = live h + 3)"
  using postD[OF condition_parsed assms] by (auto simp: parsed_def)

theorem condition_parse_ownership_witness:
  "lttng_condition_create_from_buffer \<lparr>outcomes = [], live = 7\<rparr> [Some 5] (Some \<lparr>vdata = Some 0, vsize = 1\<rparr>) True
     = Some (-1, None, \<lparr>outcomes = [], live = 7\<rparr>) \<and>
   live \<lparr>outcomes = [], live = 7\<rparr> = live \<lparr>outcomes = [], live = 7\<rparr>"
  using condition_parse_ownership[of "\<lparr>outcomes = [], live = 7\<rparr>" "[Some 5]"
      "Some \<lparr>vdata = Some 0, vsize = 1\<rparr>" True "-1" None "\<lparr>outcomes = [], live = 7\<rparr>"]
  by (simp add: lttng_condition_create_from_buffer_def rd_def)




text \<open>
  C37: the equality of conditions ignores the session's name. Two conditions that differ in nothing
  but their session are equal for \<open>lttng_condition_is_equal\<close>, which compares the channel names twice.
\<close>

theorem condition_equal_ignores_session:
  assumes "condition_inv c" "session_name c \<noteq> None"
  shows "lttng_condition_is_equal (Some c) (Some (c\<lparr>session_name := Some s\<rparr>))"
proof -
  have "\<not> d_less DBL_EPSILON (d_abs (d_sub r r))" for r
    by (cases r) (simp_all add: DBL_EPSILON_def rnd_def)
  moreover have "cequal (parent c) = Some BUFFER_USAGE" using assms(1) by (auto simp: condition_inv_def)
  ultimately show ?thesis
    using assms(2)
    by (cases "channel_name c")
      (simp_all add: lttng_condition_is_equal_def lttng_condition_buffer_usage_is_equal_def cong: if_cong)
qed

theorem condition_equal_ignores_session_witness:
  "lttng_condition_is_equal (Some sample_condition) (Some (sample_condition\<lparr>session_name := Some [120]\<rparr>)) \<and>
   session_name sample_condition \<noteq> session_name (sample_condition\<lparr>session_name := Some [120]\<rparr>)"
  using condition_equal_ignores_session[of sample_condition "[120]"] sample_sendable(1)
  by (simp add: sendable_condition_def sample_condition_def fresh_condition_def zeroed_condition_def)

text \<open>
  A byte threshold survives the wire only modulo 2^32, because the 64-bit value is stored in a
  32-bit field without a range check (a ratio is checked).
\<close>

theorem condition_threshold_truncated:
  assumes "threshold_bytes_set c"
  shows "unat (threshold_bytes_value (received_condition c)) = unat (threshold_bytes_value c) mod 2 ^ 32"
proof -
  have "unat (ucast (threshold_bytes_value c) :: u32) = unat (threshold_bytes_value c) mod 2 ^ 32"
    by (simp only: unsigned_ucast_eq take_bit_eq_mod) simp
  moreover have "threshold_bytes_value (received_condition c) = ucast (ucast (threshold_bytes_value c) :: u32)"
    using assms by (simp only: received_condition_def wire_threshold_def) simp
  ultimately show ?thesis by (simp only: unat_ucast_u64)
qed

theorem condition_threshold_truncated_witness:
  "unat (threshold_bytes_value (received_condition (sample_condition\<lparr>threshold_bytes_value := 2 ^ 32\<rparr>))) = 0"
  using condition_threshold_truncated[of "sample_condition\<lparr>threshold_bytes_value := 2 ^ 32\<rparr>"]
  by (simp add: sample_condition_def)

text \<open>
  C28: every condition the public API can build, by creating one and calling setters in any order with
  any arguments and any allocation outcomes, satisfies the invariant of conditions: it carries the
  buffer usage callbacks, its names are not empty, at most one of the two thresholds is set, a ratio
  is not outside [0, 1], and its domain is set exactly when it is not NONE.
\<close>

theorem condition_api_invariant:
  assumes "condition_built c"
  shows "condition_inv c"
  using assms by (rule condition_built_inv)

theorem condition_api_invariant_witness:
  "condition_inv (fresh_condition LTTNG_CONDITION_TYPE_BUFFER_USAGE_LOW)"
proof (rule condition_api_invariant, rule condition_built.low)
  show "lttng_condition_buffer_usage_low_create \<lparr>outcomes = [True], live = 0\<rparr> =
      (Some (fresh_condition LTTNG_CONDITION_TYPE_BUFFER_USAGE_LOW), \<lparr>outcomes = [], live = 1\<rparr>)"
    by (simp add: lttng_condition_buffer_usage_low_create_def create_eq zmalloc_def)
qed

end
