(* ===== verification/Trigger.thy ===== *)
theory Trigger
  imports Condition
begin

text \<open>
  Actions (\<open>src/common/action.c\<close>, with the notify action of \<open>src/common/notify.c\<close>) and triggers
  (\<open>src/common/trigger.c\<close>), which pair a condition with an action. On the wire a trigger is the
  32-bit length of its payload, the condition and the action.
\<close>

section \<open>Actions\<close>

datatype lttng_action_type = LTTNG_ACTION_TYPE_UNKNOWN | LTTNG_ACTION_TYPE_NOTIFY

fun action_type_val :: "lttng_action_type \<Rightarrow> int" where
  "action_type_val LTTNG_ACTION_TYPE_UNKNOWN = -1"
| "action_type_val LTTNG_ACTION_TYPE_NOTIFY = 0"

datatype action_class = NOTIFY

record lttng_action =
  atype :: lttng_action_type
  avalidate :: "action_class option"
  aserialize :: "action_class option"
  adestroy :: "action_class option"

definition lttng_action_notify_destroy :: "lttng_action \<Rightarrow> heap \<Rightarrow> heap" where
  "lttng_action_notify_destroy action h = c_free h"

definition lttng_action_notify_serialize :: "lttng_action \<Rightarrow> nat option \<Rightarrow> mem \<Rightarrow> (int \<times> mem) run" where
  "lttng_action_notify_serialize action buf m = Some (0, m)"

definition lttng_action_notify_create :: "heap \<Rightarrow> lttng_action option \<times> heap" where
  "lttng_action_notify_create h =
     (let (ok, h') = zmalloc h in
      if \<not> ok then (None, h')
      else (Some \<lparr>atype = LTTNG_ACTION_TYPE_NOTIFY, avalidate = None,
                  aserialize = Some NOTIFY, adestroy = Some NOTIFY\<rparr>, h'))"

definition lttng_action_get_type :: "lttng_action option \<Rightarrow> lttng_action_type" where
  "lttng_action_get_type action =
     (case action of None \<Rightarrow> LTTNG_ACTION_TYPE_UNKNOWN | Some a \<Rightarrow> atype a)"

definition lttng_action_destroy :: "lttng_action option \<Rightarrow> heap \<Rightarrow> heap run" where
  "lttng_action_destroy action h =
     (case action of
        None \<Rightarrow> Some h
      | Some a \<Rightarrow> (case adestroy a of
          None \<Rightarrow> crash
        | Some NOTIFY \<Rightarrow> Some (lttng_action_notify_destroy a h)))"

text \<open>No action class sets a \<open>validate\<close> callback, so the call through it has no target.\<close>

definition lttng_action_validate :: "lttng_action option \<Rightarrow> bool run" where
  "lttng_action_validate action =
     (case action of
        None \<Rightarrow> Some False
      | Some a \<Rightarrow> (case avalidate a of None \<Rightarrow> Some True | Some _ \<Rightarrow> crash))"

definition lttng_action_serialize :: "lttng_action option \<Rightarrow> nat option \<Rightarrow> mem \<Rightarrow> (int \<times> mem) run" where
  "lttng_action_serialize action buf m =
     (case action of
        None \<Rightarrow> Some (-1, m)
      | Some a \<Rightarrow> do {
          m \<leftarrow> (case buf of
                  None \<Rightarrow> Some m
                | Some off \<Rightarrow> wr_bytes m off [word_of_int (action_type_val (atype a))]);
          let buf = map_option (\<lambda>off. off + 1) buf;
          (action_size, m) \<leftarrow> (case aserialize a of
              None \<Rightarrow> crash
            | Some NOTIFY \<Rightarrow> lttng_action_notify_serialize a buf m);
          if action_size < 0 then Some (action_size, m) else Some (1 + action_size, m)
        })"

definition lttng_action_create_from_buffer ::
  "heap \<Rightarrow> mem \<Rightarrow> lttng_buffer_view option \<Rightarrow> bool \<Rightarrow> (int \<times> lttng_action option \<times> heap) run"
where
  "lttng_action_create_from_buffer h m view out =
     (if view = None \<or> \<not> out then Some (-1, None, h)
      else do {
        v \<leftarrow> view;
        base \<leftarrow> vdata v;
        type \<leftarrow> rd m (int base);
        if sint type = action_type_val LTTNG_ACTION_TYPE_NOTIFY
        then (let (action, h) = lttng_action_notify_create h in
              if action = None then Some (-1, None, h) else Some (1, action, h))
        else Some (-1, None, h)
      })"

section \<open>Triggers\<close>

record lttng_trigger =
  tcondition :: "cond option"
  taction :: "lttng_action option"

definition lttng_trigger_validate :: "lttng_trigger option \<Rightarrow> bool run" where
  "lttng_trigger_validate trigger =
     (case trigger of
        None \<Rightarrow> Some False
      | Some t \<Rightarrow>
          if lttng_condition_validate (tcondition t) then lttng_action_validate (taction t) else Some False)"

definition lttng_trigger_create ::
  "heap \<Rightarrow> cond option \<Rightarrow> lttng_action option \<Rightarrow> lttng_trigger option \<times> heap"
where
  "lttng_trigger_create h condition action =
     (if condition = None \<or> action = None then (None, h)
      else let (ok, h') = zmalloc h in
        if \<not> ok then (None, h') else (Some \<lparr>tcondition = condition, taction = action\<rparr>, h'))"

definition lttng_trigger_get_condition :: "lttng_trigger option \<Rightarrow> cond option" where
  "lttng_trigger_get_condition trigger = (case trigger of None \<Rightarrow> None | Some t \<Rightarrow> tcondition t)"

definition lttng_trigger_get_action :: "lttng_trigger option \<Rightarrow> lttng_action option" where
  "lttng_trigger_get_action trigger = (case trigger of None \<Rightarrow> None | Some t \<Rightarrow> taction t)"

definition lttng_trigger_destroy :: "lttng_trigger option \<Rightarrow> heap \<Rightarrow> heap" where
  "lttng_trigger_destroy trigger h = c_free_opt trigger h"

definition lttng_trigger_create_from_buffer ::
  "heap \<Rightarrow> mem \<Rightarrow> lttng_buffer_view option \<Rightarrow> bool \<Rightarrow> (int \<times> lttng_trigger option \<times> heap) run"
where
  "lttng_trigger_create_from_buffer h m src_view out =
     (if src_view = None \<or> \<not> out then Some (-1, None, h)
      else do {
        src \<leftarrow> src_view;
        condition_view \<leftarrow> lttng_buffer_view_from_view src_view 4 (-1);
        (condition_size, condition, h) \<leftarrow> lttng_condition_create_from_buffer h m (Some condition_view) True;
        if condition_size < 0 then Some (condition_size, None, h)
        else do {
          action_view \<leftarrow> lttng_buffer_view_from_view src_view (of_int (4 + condition_size)) (-1);
          (action_size, action, h) \<leftarrow> lttng_action_create_from_buffer h m (Some action_view) True;
          if action_size < 0 then Some (action_size, None, h)
          else do {
            base \<leftarrow> vdata src;
            length_field \<leftarrow> rd_bytes m base 4;
            if int (le_val length_field) \<noteq> condition_size + action_size
            then do {
              h \<leftarrow> lttng_condition_destroy condition h;
              h \<leftarrow> lttng_action_destroy action h;
              Some (-1, None, h)
            }
            else let (trigger, h) = lttng_trigger_create h condition action in
              if trigger = None
              then do {
                h \<leftarrow> lttng_condition_destroy condition h;
                h \<leftarrow> lttng_action_destroy action h;
                Some (-1, None, h)
              }
              else Some (4 + condition_size + action_size, trigger, h)
          }
        }
      })"

definition lttng_trigger_serialize :: "lttng_trigger option \<Rightarrow> nat option \<Rightarrow> mem \<Rightarrow> (int \<times> mem) run" where
  "lttng_trigger_serialize trigger buf m =
     (case trigger of
        None \<Rightarrow> Some (-1, m)
      | Some t \<Rightarrow> do {
          (condition_size, m) \<leftarrow> lttng_condition_serialize (tcondition t) (map_option (\<lambda>off. off + 4) buf) m;
          if condition_size < 0 then Some (-1, m)
          else do {
            (action_size, m) \<leftarrow> lttng_action_serialize (taction t)
               (map_option (\<lambda>off. off + 4 + nat condition_size) buf) m;
            if action_size < 0 then Some (-1, m)
            else do {
              m \<leftarrow> (case buf of
                      None \<Rightarrow> Some m
                    | Some off \<Rightarrow> wr_bytes m off (bytes_u32 (of_int (condition_size + action_size))));
              Some (4 + condition_size + action_size, m)
            }
          }
        })"

section \<open>The codec contracts\<close>

definition notify_action :: lttng_action where
  "notify_action = \<lparr>atype = LTTNG_ACTION_TYPE_NOTIFY, avalidate = None,
     aserialize = Some NOTIFY, adestroy = Some NOTIFY\<rparr>"

definition sendable_trigger :: "lttng_trigger option \<Rightarrow> bool" where
  "sendable_trigger t \<longleftrightarrow> (case t of None \<Rightarrow> False
     | Some t \<Rightarrow> sendable (tcondition t) \<and> taction t = Some notify_action)"

definition trigger_bytes :: "lttng_trigger option \<Rightarrow> byte list" where
  "trigger_bytes t = frame (condition_bytes (the (tcondition (the t)))) [0]"

definition received_trigger :: "lttng_trigger option \<Rightarrow> lttng_trigger" where
  "received_trigger t =
     (the t)\<lparr>tcondition := Some (received_condition (the (tcondition (the t))))\<rparr>"

lemma notify_create_eq:
  "lttng_action_notify_create h = (let (ok, h') = zmalloc h in (if ok then Some notify_action else None, h'))"
  by (simp add: lttng_action_notify_create_def notify_action_def split: prod.splits)

interpretation action: codec lttng_action_serialize "\<lambda>a. a = Some notify_action" "\<lambda>a. [0]"
  lttng_action_create_from_buffer the 1
proof
  fix x :: "lttng_action option" and m
  assume x: "x = Some notify_action"
  show "lttng_action_serialize x None m = Some (int (length [0 :: byte]), m)"
    by (simp add: x lttng_action_serialize_def lttng_action_notify_serialize_def notify_action_def)
  show "lttng_action_serialize x (Some off) m = Some (int (length [0 :: byte]), patch m off [0])"
    if "off + length [0 :: byte] \<le> length m" for off
    using that by (simp add: x lttng_action_serialize_def lttng_action_notify_serialize_def notify_action_def wr_bytes_patch)
  show "length [0 :: byte] < 2 ^ 16" by simp
  show "lttng_action_create_from_buffer h m (Some v) True =
      Some (int (length [0 :: byte]), Some (the x), h\<lparr>live := live h + 1\<rparr>)"
    if h: "outcomes h = []" and v: "view_bytes m v = Some ([0] @ r)" for h v r
  proof -
    obtain a where a: "vdata v = Some a" using view_data[OF v] by blast
    then have "rd m (int a) = Some 0" using view_rd[OF v a, of 0] by simp
    with a h x show ?thesis by (simp add: lttng_action_create_from_buffer_def notify_create_eq)
  qed
qed

interpretation trigger_parts: framed_pair lttng_condition_serialize sendable "\<lambda>c. condition_bytes (the c)"
  lttng_action_serialize "\<lambda>a. a = Some notify_action" "\<lambda>a. [0]"
  by (intro framed_pair.intro condition.serializer_axioms action.serializer_axioms)

lemma condition_bytes_bounds:
  "sendable_condition c \<Longrightarrow> length (condition_bytes c) < 2 ^ 10" "0 < length (condition_bytes c)"
  by (auto elim!: sendableE simp: condition_bytes_def usage_bytes_def)

lemma sendable_triggerE:
  assumes "sendable_trigger x"
  obtains c where "x = Some \<lparr>tcondition = Some c, taction = Some notify_action\<rparr>" "sendable_condition c"
proof -
  obtain t where t: "x = Some t" "sendable (tcondition t)" "taction t = Some notify_action"
    using assms by (auto simp: sendable_trigger_def split: option.splits)
  then show thesis using that[of "the (tcondition t)"] by (cases t) auto
qed

lemma trigger_serializer: "serializer lttng_trigger_serialize sendable_trigger trigger_bytes"
proof
  fix x m
  assume "sendable_trigger x"
  then obtain c where c: "x = Some \<lparr>tcondition = Some c, taction = Some notify_action\<rparr>" "sendable_condition c"
    by (rule sendable_triggerE)
  show "lttng_trigger_serialize x None m = Some (int (length (trigger_bytes x)), m)"
    using c trigger_parts.frame_queries[of "Some c" "Some notify_action" m]
    by (simp add: lttng_trigger_serialize_def trigger_bytes_def frame_def)
  fix off
  assume fits: "off + length (trigger_bytes x) \<le> length m"
  then obtain m1 m2 where
    "lttng_condition_serialize (Some c) (Some (off + 4)) m = Some (int (length (condition_bytes c)), m1)"
    "lttng_action_serialize (Some notify_action) (Some (off + 4 + length (condition_bytes c))) m1 = Some (1, m2)"
    "wr_bytes m2 off (bytes_u32 (of_nat (length (condition_bytes c) + 1))) = Some (patch m off (trigger_bytes x))"
    using trigger_parts.frame_writes[of "Some c" "Some notify_action" off m] c by (auto simp: trigger_bytes_def)
  then show "lttng_trigger_serialize x (Some off) m = Some (int (length (trigger_bytes x)), patch m off (trigger_bytes x))"
    using c by (simp add: lttng_trigger_serialize_def trigger_bytes_def frame_def add.commute[of _ 1])
qed

lemma trigger_parse:
  assumes "sendable_trigger x" and h: "outcomes h = []" and v: "view_bytes m v = Some (trigger_bytes x @ r)"
  shows "lttng_trigger_create_from_buffer h m (Some v) True =
    Some (int (length (trigger_bytes x)), Some (received_trigger x), h\<lparr>live := live h + 5\<rparr>)"
proof -
  obtain c where c: "x = Some \<lparr>tcondition = Some c, taction = Some notify_action\<rparr>" "sendable_condition c"
    using assms(1) by (rule sendable_triggerE)
  let ?n = "length (condition_bytes c)"
  have v': "view_bytes m v = Some (frame (condition_bytes c) [0] @ r)"
    and small: "length (condition_bytes c) + length [0 :: byte] < 2 ^ 32"
    using v c condition_bytes_bounds(1)[OF c(2)] by (simp_all add: trigger_bytes_def)
  obtain a v1 v2 raw where f: "vdata v = Some a" "rd_bytes m a 4 = Some raw" "le_val raw = ?n + length [0 :: byte]"
    "lttng_buffer_view_from_view (Some v) 4 (-1) = Some v1" "view_bytes m v1 = Some (condition_bytes c @ [0] @ r)"
    "lttng_buffer_view_from_view (Some v) (of_nat (4 + ?n)) (-1) = Some v2" "view_bytes m v2 = Some ([0] @ r)"
    by (rule frame_reads[OF v' small])
  have "lttng_condition_create_from_buffer h m (Some v1) True =
      Some (int ?n, Some (received_condition c), h\<lparr>live := live h + 3\<rparr>)"
    by (rule condition_parse[OF c(2) h f(5)])
  moreover have "lttng_action_create_from_buffer (h\<lparr>live := live h + 3\<rparr>) m (Some v2) True =
      Some (1, Some notify_action, h\<lparr>live := live h + 4\<rparr>)"
    using action.parse_enc[of "Some notify_action" "h\<lparr>live := live h + 3\<rparr>" m v2 r] f(7) h by simp
  ultimately show ?thesis
    using c h f
    by (simp add: lttng_trigger_create_from_buffer_def lttng_trigger_create_def trigger_bytes_def frame_def
        received_trigger_def)
qed

interpretation trigger: codec lttng_trigger_serialize sendable_trigger trigger_bytes
  lttng_trigger_create_from_buffer received_trigger 5
proof (intro codec.intro codec_axioms.intro trigger_serializer)
  show "length (trigger_bytes x) < 2 ^ 16" if "sendable_trigger x" for x
    using that by (elim sendable_triggerE) (use condition_bytes_bounds in \<open>fastforce simp: trigger_bytes_def frame_def\<close>)
qed (rule trigger_parse)

lemma action_parse_ledger:
  "post (\<lambda>(ret, a, h'). ret = -1 \<and> a = None \<and> live h' = live h \<or>
      ret = 1 \<and> a = Some notify_action \<and> live h' = live h + 1)
    (lttng_action_create_from_buffer h m v out)"
proof -
  obtain ok h1 where z: "zmalloc h = (ok, h1)" by (cases "zmalloc h")
  then have "live h1 = live h + (if ok then 1 else 0)" by (rule zmalloc_live)
  then show ?thesis
    unfolding lttng_action_create_from_buffer_def notify_create_eq z
    by (intro post_if post_bind) (auto simp: post_Some_iff)
qed

lemma parsed_held:
  assumes "parsed h (ret, c, h')" "0 \<le> ret"
  obtains t c0 where "c = Some c0" "held t (live h) c h'" "condition_inv c0" "lttng_condition_validate c"
    "domain_set c0"
proof -
  obtain c0 where c0: "c = Some c0" "condition_inv c0" "lttng_condition_validate c" "domain_set c0"
    "live h' = live h + 3"
    using assms by (auto simp: parsed_def)
  then obtain t where t: "parent c0 = usage_parent t" by (auto simp: condition_inv_def)
  have "held t (live h) c h'" using c0 t validate_blocks[of c0 t] by (simp add: held_def)
  then show thesis using that c0 by blast
qed

text \<open>
  The end of the parser, once the condition and the action are there: both are owned by the
  trigger, or released.
\<close>

lemma trigger_tail:
  assumes c: "held t k (Some c) h1" "lttng_condition_validate (Some c)" "condition_inv c"
    and h: "live h = live h1 + 1" and s: "0 < (n :: int)"
  shows "post (\<lambda>(ret, trig, h'). ret = -1 \<and> trig = None \<and> live h' = k \<or>
      0 < ret \<and> trig = Some \<lparr>tcondition = Some c, taction = Some notify_action\<rparr> \<and> live h' = k + 5)
    (if b then do {
       h \<leftarrow> lttng_condition_destroy (Some c) h;
       h \<leftarrow> lttng_action_destroy (Some notify_action) h;
       Some (-1, None, h) }
     else let (trigger, h) = lttng_trigger_create h (Some c) (Some notify_action) in
       if trigger = None then do {
         h \<leftarrow> lttng_condition_destroy (Some c) h;
         h \<leftarrow> lttng_action_destroy (Some notify_action) h;
         Some (-1, None, h) }
       else Some (4 + n + 1, trigger, h))"
proof -
  obtain ok h2 where z: "zmalloc h = (ok, h2)" by (cases "zmalloc h")
  then have live: "live h2 = live h + (if ok then 1 else 0)" by (rule zmalloc_live)
  have k: "live h1 = k + 3" using c validate_blocks[of c t] by (simp add: held_def)
  have destroy: "\<exists>h3. lttng_condition_destroy (Some c) h' = Some h3 \<and> live h3 = live h' - 3" for h'
    using c destroy_ledger[of c t h'] validate_blocks[of c t] by (simp add: held_def)
  show ?thesis
  proof (cases "b \<or> \<not> ok")
    case True
    obtain h3 h4 where "lttng_condition_destroy (Some c) h = Some h3" "live h3 = live h - 3"
      "lttng_condition_destroy (Some c) h2 = Some h4" "live h4 = live h2 - 3"
      using destroy by blast
    then show ?thesis
      using True live k h
      by (auto simp: post_def lttng_trigger_create_def z lttng_action_destroy_def notify_action_def
          lttng_action_notify_destroy_def)
  next
    case False
    then show ?thesis
      using live k h s by (simp add: post_def lttng_trigger_create_def z)
  qed
qed

lemma trigger_parse_ledger:
  "post (\<lambda>(ret, trig, h'). ret = -1 \<and> trig = None \<and> (live h' = live h \<or> live h' = live h + 3) \<or>
      0 < ret \<and> (\<exists>c. trig = Some \<lparr>tcondition = Some c, taction = Some notify_action\<rparr> \<and>
        condition_inv c \<and> lttng_condition_validate (Some c) \<and> domain_set c) \<and> live h' = live h + 5)
    (lttng_trigger_create_from_buffer h m v out)" (is "post ?P _")
proof -
  have tail: "post ?P (if (b :: bool) then do {
       h \<leftarrow> lttng_condition_destroy c h2;
       h \<leftarrow> lttng_action_destroy a h;
       Some (-1, None, h) }
     else let (trigger, h) = lttng_trigger_create h2 c a in
       if trigger = None then do {
         h \<leftarrow> lttng_condition_destroy c h;
         h \<leftarrow> lttng_action_destroy a h;
         Some (-1, None, h) }
       else Some (4 + n + s, trigger, h))"
    if c: "lttng_condition_create_from_buffer h m v1 True = Some (n, c, h1)" "\<not> n < 0"
      and a: "lttng_action_create_from_buffer h1 m v2 True = Some (s, a, h2)" "\<not> s < 0"
    for b n c h1 v1 v2 s a h2
  proof -
    have "parsed h (n, c, h1)" by (rule postD[OF condition_parsed c(1)])
    then obtain t c0 where c0: "c = Some c0" "held t (live h) c h1" "condition_inv c0"
      "lttng_condition_validate c" "domain_set c0"
      by (rule parsed_held) (use c(2) in simp)
    have n: "0 < n" using \<open>parsed h (n, c, h1)\<close> c(2) by (auto simp: parsed_def)
    have a': "s = 1" "a = Some notify_action" "live h2 = live h1 + 1"
      using postD[OF action_parse_ledger a(1)] a(2) by auto
    show ?thesis
      using trigger_tail[of t "live h" c0 h1 h2 n b] c0 n a' by (auto simp: post_def split: option.splits)
  qed
  have no_condition: "post ?P (Some (n, None, h1))"
    if "lttng_condition_create_from_buffer h m v1 True = Some (n, c, h1)" "n < 0" for v1 n c h1
    using postD[OF condition_parsed that(1)] that(2) by (auto simp: parsed_def post_Some_iff)
  have no_action: "post ?P (Some (s, None, h2))"
    if "lttng_condition_create_from_buffer h m v1 True = Some (n, c, h1)" "\<not> n < 0"
      "lttng_action_create_from_buffer h1 m v2 True = Some (s, a, h2)" "s < 0" for v1 v2 n c h1 s a h2
    using postD[OF condition_parsed that(1)] postD[OF action_parse_ledger that(3)] that(2,4)
    by (auto simp: parsed_def post_Some_iff)
  show ?thesis
    unfolding lttng_trigger_create_from_buffer_def
    by ((rule tail, assumption+) | rule post_bind3 | rule post_if | rule post_bind |
        (rule no_condition no_action, assumption+) | simp add: post_Some_iff)+
qed

section \<open>Properties\<close>

definition sample_trigger :: lttng_trigger where
  "sample_trigger = \<lparr>tcondition = Some sample_condition, taction = Some notify_action\<rparr>"

lemma sample_trigger_sendable: "sendable_trigger (Some sample_trigger)"
  using sample_sendable by (simp add: sendable_trigger_def sample_trigger_def)

lemma length_sample_trigger: "length (trigger_bytes (Some sample_trigger)) = 25"
  using length_sample by (simp add: trigger_bytes_def frame_def sample_trigger_def)

text \<open>
  C8: serialization and parsing of a trigger are inverse to each other. The size answered by a query
  is the size written; nothing else in the destination changes; parsing the bytes written returns
  the same size and a trigger with the received condition and the same action, for five blocks.
\<close>

theorem trigger_roundtrip:
  assumes "sendable_trigger (Some t)" "outcomes h = []"
    and "lttng_trigger_serialize (Some t) None m = Some (n, m0)" "off + nat n \<le> length m"
  shows "\<exists>m'. lttng_trigger_serialize (Some t) (Some off) m = Some (n, m') \<and>
    length m' = length m \<and> (\<forall>i. i < off \<or> off + nat n \<le> i \<longrightarrow> m' ! i = m ! i) \<and>
    lttng_trigger_create_from_buffer h m' (Some \<lparr>vdata = Some off, vsize = of_int n\<rparr>) True =
      Some (n, Some (t\<lparr>tcondition := Some (received_condition (the (tcondition t)))\<rparr>),
            h\<lparr>live := live h + 5\<rparr>)"
  using trigger.roundtrip[of "Some t" h m n m0 off] trigger.query_predicts_write[of "Some t" m n m0 off] assms
  by (auto simp: received_trigger_def)

theorem trigger_roundtrip_witness:
  "\<exists>m'. lttng_trigger_serialize (Some sample_trigger) (Some 0) (replicate 25 None) = Some (25, m') \<and>
    lttng_trigger_create_from_buffer \<lparr>outcomes = [], live = 0\<rparr> m' (Some \<lparr>vdata = Some 0, vsize = 25\<rparr>) True =
      Some (25, Some (sample_trigger\<lparr>tcondition := Some (received_condition (the (tcondition sample_trigger)))\<rparr>),
            \<lparr>outcomes = [], live = 5\<rparr>)"
  using trigger_roundtrip[OF sample_trigger_sendable, of "\<lparr>outcomes = [], live = 0\<rparr>" "replicate 25 None" 25
      "replicate 25 None" 0] trigger.ser_query[OF sample_trigger_sendable, of "replicate 25 None"]
    length_sample_trigger by auto



text \<open>
  The trigger parser leaks the condition when the action is not recognised. For every sendable
  condition followed by a byte that is not the notify type, whatever the length field says, the
  parser returns -1, gives no trigger, and the three blocks of the parsed condition stay live.
\<close>

theorem trigger_parse_leak:
  assumes "sendable_condition c" "outcomes h = []" "b \<noteq> 0" "length hdr = 4"
    and "view_bytes m v = Some (hdr @ condition_bytes c @ [b] @ r)"
  shows "lttng_trigger_create_from_buffer h m (Some v) True = Some (-1, None, h\<lparr>live := live h + 3\<rparr>)"
proof -
  let ?n = "length (condition_bytes c)"
  obtain a where a: "vdata v = Some a" using view_data[OF assms(5)] by blast
  obtain v1 where v1: "lttng_buffer_view_from_view (Some v) 4 (-1) = Some v1"
    "view_bytes m v1 = Some (condition_bytes c @ [b] @ r)"
    using sub_view[OF assms(5), of 4] assms(4) by auto
  have o: "unat (of_int (4 + int ?n) :: size_t) = 4 + ?n"
    using condition_bytes_bounds(1)[OF assms(1)] unat_of_nat[of "4 + ?n", where ?'a = 64] by simp
  obtain v2 where v2: "lttng_buffer_view_from_view (Some v) (of_int (4 + int ?n)) (-1) = Some v2"
    "view_bytes m v2 = Some (b # r)"
    using sub_view[OF assms(5), of "of_int (4 + int ?n)"] assms(4) unfolding o by auto
  obtain a2 where a2: "vdata v2 = Some a2" using view_data[OF v2(2)] by blast
  have "rd m (int a2) = Some b" using view_rd[OF v2(2) a2, of 0] by simp
  then have "lttng_action_create_from_buffer h' m (Some v2) True = Some (-1, None, h')" for h'
    using a2 assms(3) by (simp add: lttng_action_create_from_buffer_def signed_eq_0_iff)
  then show ?thesis
    using v1 v2(1) condition_parse[OF assms(1,2) v1(2)] by (simp add: lttng_trigger_create_from_buffer_def)
qed

theorem trigger_parse_leak_witness:
  "lttng_trigger_create_from_buffer \<lparr>outcomes = [], live = 0\<rparr>
     (map Some ([21, 0, 0, 0] @ condition_bytes sample_condition @ [9]))
     (Some \<lparr>vdata = Some 0, vsize = 25\<rparr>) True = Some (-1, None, \<lparr>outcomes = [], live = 3\<rparr>)"
  using trigger_parse_leak[OF sample_sendable(1), of "\<lparr>outcomes = [], live = 0\<rparr>" 9 "[21, 0, 0, 0]"
      "map Some ([21, 0, 0, 0] @ condition_bytes sample_condition @ [9])" "\<lparr>vdata = Some 0, vsize = 25\<rparr>" "[]"]
    length_sample by (simp add: view_bytes_def rd_bytes_def those_eq_Some_iff)

text \<open>
  A truncated trigger message is dereferenced through a null pointer. When the view is shorter
  than the length field, the view of the condition is the null view, and the condition's type byte is
  read through it without a check of the size.
\<close>

theorem trigger_parse_truncated:
  assumes "unat (vsize v) < 4"
  shows "lttng_trigger_create_from_buffer h m (Some v) True = None"
  using assms
  by (simp add: lttng_trigger_create_from_buffer_def lttng_buffer_view_from_view_def view_of_def word_less_nat_alt
      lttng_condition_create_from_buffer_def)

theorem trigger_parse_truncated_witness:
  "lttng_trigger_create_from_buffer \<lparr>outcomes = [], live = 0\<rparr> (map Some [0, 0, 0])
     (Some \<lparr>vdata = Some 0, vsize = 3\<rparr>) True = None"
  by (rule trigger_parse_truncated) simp

end
