(* ===== verification/Evaluation.thy ===== *)
theory Evaluation
  imports Condition
begin

text \<open>
  Evaluations: the sampled values that made a condition true. The base class of
  \<open>src/common/evaluation.c\<close> and the buffer usage evaluation of \<open>src/common/buffer-usage.c\<close>, whose
  16-byte wire record holds the use and the capacity of the buffer.
\<close>

section \<open>Types\<close>

datatype lttng_evaluation_status =
    LTTNG_EVALUATION_STATUS_OK
  | LTTNG_EVALUATION_STATUS_ERROR
  | LTTNG_EVALUATION_STATUS_INVALID
  | LTTNG_EVALUATION_STATUS_UNKNOWN

datatype evaluation_class = BUFFER_USAGE_EVALUATION

record lttng_evaluation =
  etype :: lttng_condition_type
  eserialize :: "evaluation_class option"
  edestroy :: "evaluation_class option"

record lttng_evaluation_buffer_usage =
  eparent :: lttng_evaluation
  buffer_use :: u64
  buffer_capacity :: u64

type_synonym evaluation = lttng_evaluation_buffer_usage

abbreviation evaluation_comm_size :: nat where
  "evaluation_comm_size \<equiv> 16"

section \<open>Operations\<close>

definition lttng_evaluation_get_type :: "evaluation option \<Rightarrow> lttng_condition_type" where
  "lttng_evaluation_get_type evaluation =
     (case evaluation of None \<Rightarrow> LTTNG_CONDITION_TYPE_UNKNOWN | Some e \<Rightarrow> etype (eparent e))"

definition is_usage_evaluation :: "evaluation option \<Rightarrow> bool" where
  "is_usage_evaluation evaluation =
     (let type = lttng_evaluation_get_type evaluation in
      type = LTTNG_CONDITION_TYPE_BUFFER_USAGE_LOW \<or> type = LTTNG_CONDITION_TYPE_BUFFER_USAGE_HIGH)"

definition lttng_evaluation_buffer_usage_serialize ::
  "evaluation \<Rightarrow> nat option \<Rightarrow> mem \<Rightarrow> (int \<times> mem) run"
where
  "lttng_evaluation_buffer_usage_serialize usage buf m =
     (case buf of
        None \<Rightarrow> Some (int evaluation_comm_size, m)
      | Some off \<Rightarrow> do {
          m \<leftarrow> wr_bytes m off (bytes_u64 (buffer_use usage) @ bytes_u64 (buffer_capacity usage));
          Some (int evaluation_comm_size, m)
        })"

definition lttng_evaluation_buffer_usage_destroy :: "evaluation \<Rightarrow> heap \<Rightarrow> heap" where
  "lttng_evaluation_buffer_usage_destroy usage h = c_free h"

definition lttng_evaluation_buffer_usage_create ::
  "heap \<Rightarrow> lttng_condition_type \<Rightarrow> u64 \<Rightarrow> u64 \<Rightarrow> evaluation option \<times> heap"
where
  "lttng_evaluation_buffer_usage_create h type use capacity =
     (let (ok, h') = zmalloc h in
      if \<not> ok then (None, h')
      else (Some \<lparr>eparent = \<lparr>etype = type, eserialize = Some BUFFER_USAGE_EVALUATION,
                            edestroy = Some BUFFER_USAGE_EVALUATION\<rparr>,
                  buffer_use = use, buffer_capacity = capacity\<rparr>, h'))"

definition lttng_evaluation_buffer_usage_get_usage_ratio ::
  "evaluation option \<Rightarrow> bool \<Rightarrow> lttng_evaluation_status \<times> double option"
where
  "lttng_evaluation_buffer_usage_get_usage_ratio evaluation out =
     (if evaluation = None \<or> \<not> is_usage_evaluation evaluation \<or> \<not> out
      then (LTTNG_EVALUATION_STATUS_INVALID, None)
      else let usage = the evaluation in
        (LTTNG_EVALUATION_STATUS_OK,
         Some (d_div (double_of_nat (unat (buffer_use usage))) (double_of_nat (unat (buffer_capacity usage))))))"

definition lttng_evaluation_buffer_usage_get_usage ::
  "evaluation option \<Rightarrow> bool \<Rightarrow> lttng_evaluation_status \<times> u64 option"
where
  "lttng_evaluation_buffer_usage_get_usage evaluation out =
     (if evaluation = None \<or> \<not> is_usage_evaluation evaluation \<or> \<not> out
      then (LTTNG_EVALUATION_STATUS_INVALID, None)
      else (LTTNG_EVALUATION_STATUS_OK, Some (buffer_use (the evaluation))))"

definition lttng_evaluation_destroy :: "evaluation option \<Rightarrow> heap \<Rightarrow> heap run" where
  "lttng_evaluation_destroy evaluation h =
     (case evaluation of
        None \<Rightarrow> Some h
      | Some e \<Rightarrow> (case edestroy (eparent e) of
          None \<Rightarrow> crash
        | Some BUFFER_USAGE_EVALUATION \<Rightarrow> Some (lttng_evaluation_buffer_usage_destroy e h)))"

text \<open>A null evaluation is dereferenced before anything else.\<close>

definition lttng_evaluation_serialize :: "evaluation option \<Rightarrow> nat option \<Rightarrow> mem \<Rightarrow> (int \<times> mem) run" where
  "lttng_evaluation_serialize evaluation buf m = do {
     e \<leftarrow> evaluation;
     m \<leftarrow> (case buf of
             None \<Rightarrow> Some m
           | Some off \<Rightarrow> wr_bytes m off [word_of_int (condition_type_val (etype (eparent e)))]);
     (case eserialize (eparent e) of
        None \<Rightarrow> Some (1, m)
      | Some BUFFER_USAGE_EVALUATION \<Rightarrow> do {
          (ret, m) \<leftarrow> lttng_evaluation_buffer_usage_serialize e (map_option (\<lambda>off. off + 1) buf) m;
          if ret < 0 then Some (ret, m) else Some (1 + ret, m)
        })
   }"

section \<open>Deserialization\<close>

definition create_evaluation_from_buffer ::
  "heap \<Rightarrow> lttng_condition_type \<Rightarrow> mem \<Rightarrow> lttng_buffer_view \<Rightarrow> (evaluation option \<times> heap) run"
where
  "create_evaluation_from_buffer h type m view =
     (if unat (vsize view) < evaluation_comm_size then Some (None, h)
      else do {
        base \<leftarrow> vdata view;
        comm \<leftarrow> rd_bytes m base evaluation_comm_size;
        Some (lttng_evaluation_buffer_usage_create h type
                (of_nat (le_val (take 8 comm))) (of_nat (le_val (drop 8 comm))))
      })"

definition lttng_evaluation_buffer_usage_low_create_from_buffer ::
  "heap \<Rightarrow> mem \<Rightarrow> lttng_buffer_view \<Rightarrow> bool \<Rightarrow> (int \<times> evaluation option \<times> heap) run"
where
  "lttng_evaluation_buffer_usage_low_create_from_buffer h m view out =
     (if \<not> out then do { h \<leftarrow> lttng_evaluation_destroy None h; Some (-1, None, h) }
      else do {
        (evaluation, h) \<leftarrow> create_evaluation_from_buffer h LTTNG_CONDITION_TYPE_BUFFER_USAGE_LOW m view;
        if evaluation = None
        then do { h \<leftarrow> lttng_evaluation_destroy evaluation h; Some (-1, None, h) }
        else Some (int evaluation_comm_size, evaluation, h)
      })"

definition lttng_evaluation_buffer_usage_high_create_from_buffer ::
  "heap \<Rightarrow> mem \<Rightarrow> lttng_buffer_view \<Rightarrow> bool \<Rightarrow> (int \<times> evaluation option \<times> heap) run"
where
  "lttng_evaluation_buffer_usage_high_create_from_buffer h m view out =
     (if \<not> out then do { h \<leftarrow> lttng_evaluation_destroy None h; Some (-1, None, h) }
      else do {
        (evaluation, h) \<leftarrow> create_evaluation_from_buffer h LTTNG_CONDITION_TYPE_BUFFER_USAGE_HIGH m view;
        if evaluation = None
        then do { h \<leftarrow> lttng_evaluation_destroy evaluation h; Some (-1, None, h) }
        else Some (int evaluation_comm_size, evaluation, h)
      })"

text \<open>The sub-view is taken, and so a null view asserted, before the arguments are checked.\<close>

definition lttng_evaluation_create_from_buffer ::
  "heap \<Rightarrow> mem \<Rightarrow> lttng_buffer_view option \<Rightarrow> bool \<Rightarrow> (int \<times> evaluation option \<times> heap) run"
where
  "lttng_evaluation_create_from_buffer h m src_view out = do {
     evaluation_view \<leftarrow> lttng_buffer_view_from_view src_view 1 (-1);
     if src_view = None \<or> \<not> out then Some (-1, None, h)
     else do {
       src \<leftarrow> src_view;
       base \<leftarrow> vdata src;
       type \<leftarrow> rd m (int base);
       if sint type = condition_type_val LTTNG_CONDITION_TYPE_BUFFER_USAGE_LOW
       then do {
         (ret, evaluation, h) \<leftarrow> lttng_evaluation_buffer_usage_low_create_from_buffer h m evaluation_view out;
         if ret < 0 then Some (ret, None, h) else Some (1 + ret, evaluation, h)
       }
       else if sint type = condition_type_val LTTNG_CONDITION_TYPE_BUFFER_USAGE_HIGH
       then do {
         (ret, evaluation, h) \<leftarrow> lttng_evaluation_buffer_usage_high_create_from_buffer h m evaluation_view out;
         if ret < 0 then Some (ret, None, h) else Some (1 + ret, evaluation, h)
       }
       else Some (-1, None, h)
     }
   }"

section \<open>The codec contract\<close>

text \<open>An evaluation as \<open>lttng_evaluation_buffer_usage_create\<close> builds it.\<close>

definition usage_evaluation :: "lttng_condition_type \<Rightarrow> u64 \<Rightarrow> u64 \<Rightarrow> evaluation" where
  "usage_evaluation t use capacity =
     \<lparr>eparent = \<lparr>etype = t, eserialize = Some BUFFER_USAGE_EVALUATION, edestroy = Some BUFFER_USAGE_EVALUATION\<rparr>,
      buffer_use = use, buffer_capacity = capacity\<rparr>"

definition evaluation_ok :: "evaluation \<Rightarrow> bool" where
  "evaluation_ok e \<longleftrightarrow>
     eserialize (eparent e) = Some BUFFER_USAGE_EVALUATION \<and>
     edestroy (eparent e) = Some BUFFER_USAGE_EVALUATION \<and> is_usage_evaluation (Some e)"

definition evaluation_bytes :: "evaluation \<Rightarrow> byte list" where
  "evaluation_bytes e =
     [word_of_int (condition_type_val (etype (eparent e)))] @
     bytes_u64 (buffer_use e) @ bytes_u64 (buffer_capacity e)"

lemma length_evaluation_bytes [simp]: "length (evaluation_bytes e) = 17"
  by (simp add: evaluation_bytes_def)

lemma evaluation_create_eq:
  "lttng_evaluation_buffer_usage_create h t use capacity =
     (let (ok, h') = zmalloc h in (if ok then Some (usage_evaluation t use capacity) else None, h'))"
  by (simp add: lttng_evaluation_buffer_usage_create_def usage_evaluation_def split: prod.splits)

lemma evaluation_okE:
  assumes "evaluation_ok e"
  obtains t where "e = usage_evaluation t (buffer_use e) (buffer_capacity e)"
    "t = LTTNG_CONDITION_TYPE_BUFFER_USAGE_LOW \<or> t = LTTNG_CONDITION_TYPE_BUFFER_USAGE_HIGH"
  using assms that[of "etype (eparent e)"]
  by (cases e, cases "eparent e") (auto simp: evaluation_ok_def usage_evaluation_def is_usage_evaluation_def
      lttng_evaluation_get_type_def Let_def)

abbreviation sendable_evaluation :: "evaluation option \<Rightarrow> bool" where
  "sendable_evaluation e \<equiv> e \<noteq> None \<and> evaluation_ok (the e)"

lemma evaluation_serializer:
  "serializer lttng_evaluation_serialize sendable_evaluation (\<lambda>e. evaluation_bytes (the e))"
proof
  fix x :: "evaluation option" and m
  assume "sendable_evaluation x"
  then obtain e where e: "x = Some e" "evaluation_ok e" by auto
  then have cb: "eserialize (eparent e) = Some BUFFER_USAGE_EVALUATION"
    by (simp add: evaluation_ok_def)
  with e show "lttng_evaluation_serialize x None m = Some (int (length (evaluation_bytes (the x))), m)"
    by (simp add: lttng_evaluation_serialize_def lttng_evaluation_buffer_usage_serialize_def)
  fix off
  assume fits: "off + length (evaluation_bytes (the x)) \<le> length m"
  let ?t = "[word_of_int (condition_type_val (etype (eparent e)))] :: byte list"
  let ?u = "bytes_u64 (buffer_use e) @ bytes_u64 (buffer_capacity e)"
  have "wr_bytes m off ?t = Some (patch m off ?t)"
    "wr_bytes (patch m off ?t) (off + 1) ?u = Some (patch m off (evaluation_bytes e))"
    using fits patch_patch[of off ?t ?u m] by (simp_all add: wr_bytes_patch evaluation_bytes_def)
  then show "lttng_evaluation_serialize x (Some off) m =
      Some (int (length (evaluation_bytes (the x))), patch m off (evaluation_bytes (the x)))"
    using e cb by (simp add: lttng_evaluation_serialize_def lttng_evaluation_buffer_usage_serialize_def)
qed

lemma evaluation_parse:
  assumes ok: "evaluation_ok e" and h: "outcomes h = []"
    and v: "view_bytes m v = Some (evaluation_bytes e @ r)"
  shows "lttng_evaluation_create_from_buffer h m (Some v) True =
    Some (int (length (evaluation_bytes e)), Some e, h\<lparr>live := live h + 1\<rparr>)"
proof -
  obtain t where t: "e = usage_evaluation t (buffer_use e) (buffer_capacity e)"
    "t = LTTNG_CONDITION_TYPE_BUFFER_USAGE_LOW \<or> t = LTTNG_CONDITION_TYPE_BUFFER_USAGE_HIGH"
    using ok by (rule evaluation_okE)
  then have et: "etype (eparent e) = t" by (cases e) (simp add: usage_evaluation_def)
  let ?u = "bytes_u64 (buffer_use e) @ bytes_u64 (buffer_capacity e)"
  obtain a where a: "vdata v = Some a" using view_data[OF v] by blast
  obtain v' where v': "lttng_buffer_view_from_view (Some v) 1 (-1) = Some v'" "vdata v' = Some (a + 1)"
    "view_bytes m v' = Some (?u @ r)"
    using sub_view[OF v, of 1] a by (auto simp: evaluation_bytes_def)
  have type: "rd m (int a) = Some (word_of_int (condition_type_val t))"
    using view_rd[OF v a, of 0] et by (simp add: evaluation_bytes_def)
  have "rd_bytes m (a + 1) 16 = Some ?u" "unat (vsize v') = 16 + length r"
    using view_rd_bytes[OF v'(3,2), of 0 16] view_size[OF v'(3)] by simp_all
  then have "create_evaluation_from_buffer h t m v' =
      Some (Some (usage_evaluation t (buffer_use e) (buffer_capacity e)), h\<lparr>live := live h + 1\<rparr>)"
    using v' h by (simp add: create_evaluation_from_buffer_def evaluation_create_eq)
  then show ?thesis
    using t a type v'(1)
    by (auto simp: lttng_evaluation_create_from_buffer_def
        lttng_evaluation_buffer_usage_low_create_from_buffer_def
        lttng_evaluation_buffer_usage_high_create_from_buffer_def)
qed

interpretation evaluation: codec lttng_evaluation_serialize sendable_evaluation "\<lambda>e. evaluation_bytes (the e)"
  lttng_evaluation_create_from_buffer the 1
  by (intro codec.intro codec_axioms.intro evaluation_serializer) (use evaluation_parse in auto)

lemma evaluation_parse_ledger:
  "post (\<lambda>(ret, e, h'). ret = -1 \<and> e = None \<and> live h' = live h \<or>
      ret = 17 \<and> (\<exists>e0. e = Some e0 \<and> evaluation_ok e0) \<and> live h' = live h + 1)
    (lttng_evaluation_create_from_buffer h m v out)"
proof -
  have create: "post (\<lambda>(e, h'). e = None \<and> live h' = live h \<or>
      (\<exists>e0. e = Some e0 \<and> evaluation_ok e0) \<and> live h' = live h + 1) (create_evaluation_from_buffer h t m v')"
    if "t = LTTNG_CONDITION_TYPE_BUFFER_USAGE_LOW \<or> t = LTTNG_CONDITION_TYPE_BUFFER_USAGE_HIGH" for t v'
  proof -
    obtain ok h1 where z: "zmalloc h = (ok, h1)" by (cases "zmalloc h")
    then have "live h1 = live h + (if ok then 1 else 0)" by (rule zmalloc_live)
    then show ?thesis
      unfolding create_evaluation_from_buffer_def evaluation_create_eq z
      using that by (intro post_if post_bind post_SomeI)
        (auto simp: evaluation_ok_def usage_evaluation_def is_usage_evaluation_def lttng_evaluation_get_type_def)
  qed
  let ?P = "\<lambda>n (ret :: int, e, h'). ret = -1 \<and> e = None \<and> live h' = live h \<or>
      ret = n \<and> (\<exists>e0. e = Some e0 \<and> evaluation_ok e0) \<and> live h' = live h + 1"
  have low: "post (?P 16) (lttng_evaluation_buffer_usage_low_create_from_buffer h m v' out')" for v' out'
    unfolding lttng_evaluation_buffer_usage_low_create_from_buffer_def
    by (intro post_if post_bind) (auto simp: post_Some_iff lttng_evaluation_destroy_def split: prod.splits if_splits
        dest!: postD[OF create[OF disjI1[OF refl]]])
  have high: "post (?P 16) (lttng_evaluation_buffer_usage_high_create_from_buffer h m v' out')" for v' out'
    unfolding lttng_evaluation_buffer_usage_high_create_from_buffer_def
    by (intro post_if post_bind) (auto simp: post_Some_iff lttng_evaluation_destroy_def split: prod.splits if_splits
        dest!: postD[OF create[OF disjI2[OF refl]]])
  show ?thesis
    unfolding lttng_evaluation_create_from_buffer_def
    by (intro post_if post_bind)
      (auto simp: post_Some_iff split: prod.splits dest!: postD[OF low] postD[OF high])
qed

end
