(* ===== verification/Notification.thy ===== *)
theory Notification
  imports Trigger Evaluation
begin

text \<open>
  Notifications (\<open>src/common/notification.c\<close>): a condition and the evaluation that made it true,
  behind a 32-bit payload length. A notification made by the parser owns its parts, one made by
  \<open>lttng_notification_create\<close> does not.
\<close>

section \<open>Operations\<close>

record lttng_notification =
  ncondition :: "cond option"
  nevaluation :: "evaluation option"
  owns_elements :: bool

definition lttng_notification_create ::
  "heap \<Rightarrow> cond option \<Rightarrow> evaluation option \<Rightarrow> lttng_notification option \<times> heap"
where
  "lttng_notification_create h condition evaluation =
     (if condition = None \<or> evaluation = None then (None, h)
      else let (ok, h') = zmalloc h in
        if \<not> ok then (None, h')
        else (Some \<lparr>ncondition = condition, nevaluation = evaluation, owns_elements = False\<rparr>, h'))"

definition lttng_notification_serialize ::
  "lttng_notification option \<Rightarrow> nat option \<Rightarrow> mem \<Rightarrow> (int \<times> mem) run"
where
  "lttng_notification_serialize notification buf m =
     (case notification of
        None \<Rightarrow> Some (-1, m)
      | Some n \<Rightarrow> do {
          (condition_size, m) \<leftarrow> lttng_condition_serialize (ncondition n) (map_option (\<lambda>off. off + 4) buf) m;
          if condition_size < 0 then Some (condition_size, m)
          else do {
            (evaluation_size, m) \<leftarrow> lttng_evaluation_serialize (nevaluation n)
               (map_option (\<lambda>off. off + 4 + nat condition_size) buf) m;
            if evaluation_size < 0 then Some (evaluation_size, m)
            else do {
              m \<leftarrow> (case buf of
                      None \<Rightarrow> Some m
                    | Some off \<Rightarrow> wr_bytes m off (bytes_u32 (of_int (condition_size + evaluation_size))));
              Some (4 + condition_size + evaluation_size, m)
            }
          }
        })"

definition lttng_notification_create_from_buffer ::
  "heap \<Rightarrow> mem \<Rightarrow> lttng_buffer_view option \<Rightarrow> bool \<Rightarrow> (int \<times> lttng_notification option \<times> heap) run"
where
  "lttng_notification_create_from_buffer h m src_view out =
     (if src_view = None \<or> \<not> out then Some (-1, None, h)
      else do {
        src \<leftarrow> src_view;
        condition_view \<leftarrow> lttng_buffer_view_from_view src_view 4 (-1);
        (condition_size, condition, h) \<leftarrow> lttng_condition_create_from_buffer h m (Some condition_view) True;
        if condition_size < 0 then Some (condition_size, None, h)
        else do {
          evaluation_view \<leftarrow> lttng_buffer_view_from_view (Some condition_view) (of_int condition_size) (-1);
          (evaluation_size, evaluation, h) \<leftarrow> lttng_evaluation_create_from_buffer h m (Some evaluation_view) True;
          if evaluation_size < 0 then Some (evaluation_size, None, h)
          else do {
            base \<leftarrow> vdata src;
            length_field \<leftarrow> rd_bytes m base 4;
            if int (le_val length_field) \<noteq> condition_size + evaluation_size
            then do {
              h \<leftarrow> lttng_condition_destroy condition h;
              h \<leftarrow> lttng_evaluation_destroy evaluation h;
              Some (-1, None, h)
            }
            else let (notification, h) = lttng_notification_create h condition evaluation in
              if notification = None
              then do {
                h \<leftarrow> lttng_condition_destroy condition h;
                h \<leftarrow> lttng_evaluation_destroy evaluation h;
                Some (-1, None, h)
              }
              else Some (4 + condition_size + evaluation_size,
                         map_option (\<lambda>n. n\<lparr>owns_elements := True\<rparr>) notification, h)
          }
        }
      })"

definition lttng_notification_destroy :: "lttng_notification option \<Rightarrow> heap \<Rightarrow> heap run" where
  "lttng_notification_destroy notification h =
     (case notification of
        None \<Rightarrow> Some h
      | Some n \<Rightarrow>
          if owns_elements n
          then do {
            h \<leftarrow> lttng_condition_destroy (ncondition n) h;
            h \<leftarrow> lttng_evaluation_destroy (nevaluation n) h;
            Some (c_free h)
          }
          else Some (c_free h))"

definition lttng_notification_get_condition :: "lttng_notification option \<Rightarrow> cond option" where
  "lttng_notification_get_condition notification =
     (case notification of None \<Rightarrow> None | Some n \<Rightarrow> ncondition n)"

definition lttng_notification_get_evaluation :: "lttng_notification option \<Rightarrow> evaluation option" where
  "lttng_notification_get_evaluation notification =
     (case notification of None \<Rightarrow> None | Some n \<Rightarrow> nevaluation n)"

section \<open>The codec contract\<close>

definition sendable_notification :: "lttng_notification option \<Rightarrow> bool" where
  "sendable_notification n \<longleftrightarrow> (case n of None \<Rightarrow> False
     | Some n \<Rightarrow> sendable (ncondition n) \<and> sendable_evaluation (nevaluation n))"

definition notification_bytes :: "lttng_notification option \<Rightarrow> byte list" where
  "notification_bytes n =
     frame (condition_bytes (the (ncondition (the n)))) (evaluation_bytes (the (nevaluation (the n))))"

definition received_notification :: "lttng_notification option \<Rightarrow> lttng_notification" where
  "received_notification n =
     (the n)\<lparr>ncondition := Some (received_condition (the (ncondition (the n)))), owns_elements := True\<rparr>"

interpretation notification_parts: framed_pair lttng_condition_serialize sendable "\<lambda>c. condition_bytes (the c)"
  lttng_evaluation_serialize sendable_evaluation "\<lambda>e. evaluation_bytes (the e)"
  by (intro framed_pair.intro condition.serializer_axioms evaluation.serializer_axioms)

lemma sendable_notificationE:
  assumes "sendable_notification x"
  obtains c e b where "x = Some \<lparr>ncondition = Some c, nevaluation = Some e, owns_elements = b\<rparr>"
    "sendable_condition c" "evaluation_ok e"
proof -
  obtain n where n: "x = Some n" "sendable (ncondition n)" "sendable_evaluation (nevaluation n)"
    using assms by (auto simp: sendable_notification_def split: option.splits)
  then show thesis using that[of "the (ncondition n)" "the (nevaluation n)"] by (cases n) auto
qed

lemma notification_serializer:
  "serializer lttng_notification_serialize sendable_notification notification_bytes"
proof
  fix x m
  assume "sendable_notification x"
  then obtain c e b where c: "x = Some \<lparr>ncondition = Some c, nevaluation = Some e, owns_elements = b\<rparr>"
    "sendable_condition c" "evaluation_ok e"
    by (rule sendable_notificationE)
  show "lttng_notification_serialize x None m = Some (int (length (notification_bytes x)), m)"
    using c notification_parts.frame_queries[of "Some c" "Some e" m]
    by (simp add: lttng_notification_serialize_def notification_bytes_def frame_def)
  fix off
  assume fits: "off + length (notification_bytes x) \<le> length m"
  then obtain m1 m2 where
    "lttng_condition_serialize (Some c) (Some (off + 4)) m = Some (int (length (condition_bytes c)), m1)"
    "lttng_evaluation_serialize (Some e) (Some (off + 4 + length (condition_bytes c))) m1 = Some (17, m2)"
    "wr_bytes m2 off (bytes_u32 (of_nat (length (condition_bytes c) + 17))) = Some (patch m off (notification_bytes x))"
    using notification_parts.frame_writes[of "Some c" "Some e" off m] c by (auto simp: notification_bytes_def)
  then show "lttng_notification_serialize x (Some off) m =
      Some (int (length (notification_bytes x)), patch m off (notification_bytes x))"
    using c by (simp add: lttng_notification_serialize_def notification_bytes_def frame_def add.commute[of _ 17])
qed

lemma notification_parse:
  assumes "sendable_notification x" and h: "outcomes h = []" and v: "view_bytes m v = Some (notification_bytes x @ r)"
  shows "lttng_notification_create_from_buffer h m (Some v) True =
    Some (int (length (notification_bytes x)), Some (received_notification x), h\<lparr>live := live h + 5\<rparr>)"
proof -
  obtain c e b where c: "x = Some \<lparr>ncondition = Some c, nevaluation = Some e, owns_elements = b\<rparr>"
    "sendable_condition c" "evaluation_ok e"
    using assms(1) by (rule sendable_notificationE)
  let ?n = "length (condition_bytes c)"
  have v': "view_bytes m v = Some (frame (condition_bytes c) (evaluation_bytes e) @ r)"
    and small: "?n + length (evaluation_bytes e) < 2 ^ 32"
    using v c condition_bytes_bounds(1)[OF c(2)] by (simp_all add: notification_bytes_def)
  obtain a v1 raw where f: "vdata v = Some a" "rd_bytes m a 4 = Some raw" "le_val raw = ?n + length (evaluation_bytes e)"
    "lttng_buffer_view_from_view (Some v) 4 (-1) = Some v1" "view_bytes m v1 = Some (condition_bytes c @ evaluation_bytes e @ r)"
    by (rule frame_reads[OF v' small])
  have o: "unat (of_int (int ?n) :: size_t) = ?n"
    using condition_bytes_bounds(1)[OF c(2)] by (simp add: unat_of_nat)
  obtain v2 where v2: "lttng_buffer_view_from_view (Some v1) (of_int (int ?n)) (-1) = Some v2"
    "view_bytes m v2 = Some (evaluation_bytes e @ r)"
    using sub_view[OF f(5), of "of_int (int ?n)"] unfolding o by auto
  have "lttng_condition_create_from_buffer h m (Some v1) True =
      Some (int ?n, Some (received_condition c), h\<lparr>live := live h + 3\<rparr>)"
    by (rule condition_parse[OF c(2) h f(5)])
  moreover have "lttng_evaluation_create_from_buffer (h\<lparr>live := live h + 3\<rparr>) m (Some v2) True =
      Some (17, Some e, h\<lparr>live := live h + 4\<rparr>)"
    using evaluation_parse[OF c(3) _ v2(2), of "h\<lparr>live := live h + 3\<rparr>"] h by simp
  ultimately show ?thesis
    using c h f v2
    by (simp add: lttng_notification_create_from_buffer_def lttng_notification_create_def notification_bytes_def
        frame_def received_notification_def)
qed

interpretation notification: codec lttng_notification_serialize sendable_notification notification_bytes
  lttng_notification_create_from_buffer received_notification 5
proof (intro codec.intro codec_axioms.intro notification_serializer)
  show "length (notification_bytes x) < 2 ^ 16" if "sendable_notification x" for x
    using that by (elim sendable_notificationE)
      (use condition_bytes_bounds in \<open>fastforce simp: notification_bytes_def frame_def\<close>)
qed (rule notification_parse)

section \<open>Properties\<close>

definition sample_notification :: lttng_notification where
  "sample_notification = \<lparr>ncondition = Some sample_condition,
     nevaluation = Some (usage_evaluation LTTNG_CONDITION_TYPE_BUFFER_USAGE_HIGH 6000 8192), owns_elements = False\<rparr>"

lemma sample_notification_sendable: "sendable_notification (Some sample_notification)"
  using sample_sendable by (simp add: sendable_notification_def sample_notification_def evaluation_ok_def
      usage_evaluation_def is_usage_evaluation_def lttng_evaluation_get_type_def)

lemma length_sample_notification: "length (notification_bytes (Some sample_notification)) = 41"
  using length_sample by (simp add: notification_bytes_def frame_def sample_notification_def)

text \<open>
  C4: a notification reaches the client. What the session daemon serializes (in exactly the size it
  queried, and without touching other bytes) the client library parses into a notification with the
  same evaluation and the received condition. That notification owns its five blocks, and destroying
  it releases all of them.
\<close>

theorem notification_delivery:
  assumes "sendable_notification (Some n)" "outcomes h = []"
    and "lttng_notification_serialize (Some n) None m = Some (k, m0)" "off + nat k \<le> length m"
  shows "\<exists>m' n' h'. lttng_notification_serialize (Some n) (Some off) m = Some (k, m') \<and>
    (\<forall>i. i < off \<or> off + nat k \<le> i \<longrightarrow> m' ! i = m ! i) \<and>
    lttng_notification_create_from_buffer h m' (Some \<lparr>vdata = Some off, vsize = of_int k\<rparr>) True =
      Some (k, Some n', h') \<and>
    nevaluation n' = nevaluation n \<and> ncondition n' = Some (received_condition (the (ncondition n))) \<and>
    live h' = live h + 5 \<and> lttng_notification_destroy (Some n') h' = Some h"
proof -
  obtain c e b where c: "n = \<lparr>ncondition = Some c, nevaluation = Some e, owns_elements = b\<rparr>"
    "sendable_condition c" "evaluation_ok e"
    using assms(1) by (auto elim: sendable_notificationE)
  obtain s ch t where names: "session_name c = Some s" "channel_name c = Some ch" "parent c = usage_parent t"
    using c(2) by (elim sendableE) simp
  let ?n = "received_notification (Some n)" and ?h = "h\<lparr>live := live h + 5\<rparr>"
  have "lttng_notification_destroy (Some ?n) ?h = Some h"
    using c names
    by (simp add: lttng_notification_destroy_def received_notification_def lttng_condition_destroy_def
        received_condition_def lttng_condition_buffer_usage_destroy_def lttng_evaluation_destroy_def
        evaluation_ok_def lttng_evaluation_buffer_usage_destroy_def c_free_def c_free_opt_def)
  then show ?thesis
    using notification.roundtrip[OF assms] notification.query_predicts_write[OF assms(1,3,4)] c
    by (auto simp: received_notification_def intro!: exI[of _ ?n] exI[of _ ?h])
qed

theorem notification_delivery_witness:
  "\<exists>m' n' h'. lttng_notification_serialize (Some sample_notification) (Some 0) (replicate 41 None) = Some (41, m') \<and>
    lttng_notification_create_from_buffer \<lparr>outcomes = [], live = 0\<rparr> m' (Some \<lparr>vdata = Some 0, vsize = 41\<rparr>) True =
      Some (41, Some n', h') \<and>
    nevaluation n' = nevaluation sample_notification \<and>
    lttng_notification_destroy (Some n') h' = Some \<lparr>outcomes = [], live = 0\<rparr>"
  using notification_delivery[OF sample_notification_sendable, of "\<lparr>outcomes = [], live = 0\<rparr>" "replicate 41 None" 41
      "replicate 41 None" 0] notification.ser_query[OF sample_notification_sendable, of "replicate 41 None"]
    length_sample_notification by auto

text \<open>
  The notification parser leaks the condition when the evaluation cannot be parsed. For every
  sendable condition followed by fewer than 17 bytes, at least one of them, the parser returns -1,
  gives no notification, and the three blocks of the parsed condition stay live.
\<close>

theorem notification_parse_leak:
  assumes "sendable_condition c" "outcomes h = []" "length hdr = 4" "length r < 16"
    and "view_bytes m v = Some (hdr @ condition_bytes c @ b # r)"
  shows "lttng_notification_create_from_buffer h m (Some v) True = Some (-1, None, h\<lparr>live := live h + 3\<rparr>)"
proof -
  let ?n = "length (condition_bytes c)"
  obtain v1 where v1: "lttng_buffer_view_from_view (Some v) 4 (-1) = Some v1"
    "view_bytes m v1 = Some (condition_bytes c @ b # r)"
    using sub_view[OF assms(5), of 4] assms(3) by auto
  have o: "unat (of_int (int ?n) :: size_t) = ?n"
    using condition_bytes_bounds(1)[OF assms(1)] by (simp add: unat_of_nat)
  obtain v2 where v2: "lttng_buffer_view_from_view (Some v1) (of_int (int ?n)) (-1) = Some v2"
    "view_bytes m v2 = Some (b # r)"
    using sub_view[OF v1(2), of "of_int (int ?n)"] unfolding o by auto
  obtain v3 where v3: "lttng_buffer_view_from_view (Some v2) 1 (-1) = Some v3" "view_bytes m v3 = Some r"
    using sub_view[OF v2(2), of 1] by auto
  obtain a where a: "vdata v2 = Some a" using view_data[OF v2(2)] by blast
  have "rd m (int a) = Some b" using view_rd[OF v2(2) a, of 0] by simp
  then have "lttng_evaluation_create_from_buffer h' m (Some v2) True = Some (-1, None, h')" for h'
    using a v3 view_size[OF v3(2)] assms(4)
    by (simp add: lttng_evaluation_create_from_buffer_def create_evaluation_from_buffer_def
        lttng_evaluation_buffer_usage_low_create_from_buffer_def lttng_evaluation_destroy_def
        lttng_evaluation_buffer_usage_high_create_from_buffer_def)
  moreover have "vdata v \<noteq> None" using view_data[OF assms(5)] by auto
  ultimately show ?thesis
    using v1 v2(1) condition_parse[OF assms(1,2) v1(2)] by (simp add: lttng_notification_create_from_buffer_def)
qed

theorem notification_parse_leak_witness:
  "lttng_notification_create_from_buffer \<lparr>outcomes = [], live = 0\<rparr>
     (map Some ([21, 0, 0, 0] @ condition_bytes sample_condition @ [101]))
     (Some \<lparr>vdata = Some 0, vsize = 25\<rparr>) True = Some (-1, None, \<lparr>outcomes = [], live = 3\<rparr>)"
  using notification_parse_leak[OF sample_sendable(1), of "\<lparr>outcomes = [], live = 0\<rparr>" "[21, 0, 0, 0]" "[]"
      "map Some ([21, 0, 0, 0] @ condition_bytes sample_condition @ [101])" "\<lparr>vdata = Some 0, vsize = 25\<rparr>" 101]
    length_sample by (simp add: view_bytes_def rd_bytes_def those_eq_Some_iff)

end
