(* ===== verification/Unix_Socket.thy ===== *)
theory Unix_Socket
  imports LTT_Prelude
begin

text \<open>
  The stream socket wrappers of src/common/unix.c. The kernel is the environment: a socket has the
  bytes that the peer sends until it shuts down (\<open>rx\<close>), the bytes it accepted from us (\<open>tx\<close>), and the
  outcomes of the coming calls (a call past the end of the list takes all it can). A call moves an
  arbitrary part of what was asked for, is interrupted by a signal, would block, or fails.
\<close>

section \<open>System calls\<close>

datatype outcome = Part nat \<comment> \<open>at most this many bytes more than one\<close> | Interrupted | Blocked | Failed

record sock =
  rx :: "byte list"
  rx_outcomes :: "outcome list"
  tx :: "byte list"
  tx_outcomes :: "outcome list"

datatype 'a result = Done 'a | EINTR | EAGAIN | Error

text \<open>Zero bytes are an orderly shutdown of the peer.\<close>

definition recvmsg :: "sock \<Rightarrow> nat \<Rightarrow> byte list result \<times> sock" where
  "recvmsg s len =
     (case rx_outcomes s of
        [] \<Rightarrow> (Done (take len (rx s)), s\<lparr>rx := drop len (rx s)\<rparr>)
      | Part n # os \<Rightarrow>
          (Done (take (min len (Suc n)) (rx s)), s\<lparr>rx := drop (min len (Suc n)) (rx s), rx_outcomes := os\<rparr>)
      | Interrupted # os \<Rightarrow> (EINTR, s\<lparr>rx_outcomes := os\<rparr>)
      | Blocked # os \<Rightarrow> (EAGAIN, s\<lparr>rx_outcomes := os\<rparr>)
      | Failed # os \<Rightarrow> (Error, s\<lparr>rx_outcomes := os\<rparr>))"

definition sendmsg :: "sock \<Rightarrow> byte list \<Rightarrow> nat result \<times> sock" where
  "sendmsg s bs =
     (case tx_outcomes s of
        [] \<Rightarrow> (Done (length bs), s\<lparr>tx := tx s @ bs\<rparr>)
      | Part n # os \<Rightarrow>
          (Done (min (length bs) (Suc n)), s\<lparr>tx := tx s @ take (min (length bs) (Suc n)) bs, tx_outcomes := os\<rparr>)
      | Interrupted # os \<Rightarrow> (EINTR, s\<lparr>tx_outcomes := os\<rparr>)
      | Blocked # os \<Rightarrow> (EAGAIN, s\<lparr>tx_outcomes := os\<rparr>)
      | Failed # os \<Rightarrow> (Error, s\<lparr>tx_outcomes := os\<rparr>))"

lemma recvmsg_EINTR: "recvmsg s len = (EINTR, s') \<Longrightarrow> length (rx_outcomes s') < length (rx_outcomes s)"
  by (auto simp: recvmsg_def split: list.splits outcome.splits)

lemma recvmsg_Done:
  "recvmsg s len = (Done bs, s') \<Longrightarrow> length (rx_outcomes s') \<le> length (rx_outcomes s) \<and> length bs \<le> len \<and>
    rx s = bs @ rx s' \<and> (bs = [] \<longrightarrow> len = 0 \<or> rx s = []) \<and> tx s' = tx s \<and> tx_outcomes s' = tx_outcomes s"
  by (auto simp: recvmsg_def split: list.splits outcome.splits)

lemma sendmsg_EINTR: "sendmsg s bs = (EINTR, s') \<Longrightarrow> length (tx_outcomes s') < length (tx_outcomes s)"
  by (auto simp: sendmsg_def split: list.splits outcome.splits)

lemma sendmsg_Done:
  "sendmsg s bs = (Done n, s') \<Longrightarrow> n \<le> length bs \<and> tx s' = tx s @ take n bs \<and> (n = 0 \<longrightarrow> bs = []) \<and>
    length (tx_outcomes s') \<le> length (tx_outcomes s) \<and> rx s' = rx s \<and> rx_outcomes s' = rx_outcomes s"
  by (auto simp: sendmsg_def min_def split: list.splits outcome.splits if_splits)

lemma recvmsg_progress:
  assumes "(Done bs, s') = recvmsg s len" "bs \<noteq> []" "length bs < len"
  shows "len - length bs + length (rx_outcomes s') < len + length (rx_outcomes s)"
proof -
  have "length (rx_outcomes s') \<le> length (rx_outcomes s)" "length bs > 0"
    using recvmsg_Done[OF assms(1)[symmetric]] assms(2) by auto
  with assms(3) show ?thesis by linarith
qed

section \<open>Wrappers\<close>

text \<open>
  Blocking reception of \<open>len\<close> bytes into the object \<open>m\<close> at \<open>off\<close>; \<open>whole\<close> is the length of the first call.
  The result is negative on an error and 0 after a shutdown of the peer.
\<close>

function recv_loop :: "sock \<Rightarrow> mem \<Rightarrow> nat \<Rightarrow> nat \<Rightarrow> nat \<Rightarrow> (int \<times> mem \<times> sock) run" where
  "recv_loop s m off len whole =
     (case recvmsg s len of
        (EINTR, s') \<Rightarrow> recv_loop s' m off len whole
      | (EAGAIN, s') \<Rightarrow> Some (-1, m, s')
      | (Error, s') \<Rightarrow> Some (-1, m, s')
      | (Done bs, s') \<Rightarrow>
          (case wr_bytes m off bs of
             None \<Rightarrow> crash
           | Some m' \<Rightarrow>
               if bs = [] then Some (0, m', s')
               else if length bs < len then recv_loop s' m' (off + length bs) (len - length bs) whole
               else Some (int whole, m', s')))"
  by pat_completeness auto
termination
  by (relation "measure (\<lambda>(s, m, off, len, whole). len + length (rx_outcomes s))")
    (auto dest!: recvmsg_EINTR recvmsg_progress sym[of "(EINTR, _)"])

definition lttcomm_recv_unix_sock :: "sock \<Rightarrow> mem \<Rightarrow> nat \<Rightarrow> nat \<Rightarrow> (int \<times> mem \<times> sock) run" where
  "lttcomm_recv_unix_sock s m off len = recv_loop s m off len len"

text \<open>Non-blocking reception: any call that succeeds is reported as complete.\<close>

function lttcomm_recv_unix_sock_non_block :: "sock \<Rightarrow> mem \<Rightarrow> nat \<Rightarrow> nat \<Rightarrow> (int \<times> mem \<times> sock) run" where
  "lttcomm_recv_unix_sock_non_block s m off len =
     (case recvmsg s len of
        (EINTR, s') \<Rightarrow> lttcomm_recv_unix_sock_non_block s' m off len
      | (EAGAIN, s') \<Rightarrow> Some (-1, m, s')
      | (Error, s') \<Rightarrow> Some (-1, m, s')
      | (Done bs, s') \<Rightarrow> (case wr_bytes m off bs of None \<Rightarrow> crash | Some m' \<Rightarrow> Some (int len, m', s')))"
  by pat_completeness auto
termination
  by (relation "measure (\<lambda>(s, m, off, len). length (rx_outcomes s))")
    (auto dest!: recvmsg_EINTR sym[of "(_, _)"])

function send_loop :: "sock \<Rightarrow> byte list \<Rightarrow> nat \<Rightarrow> int \<times> sock" where
  "send_loop s bs whole =
     (if bs = [] then (int whole, s)
      else case sendmsg s bs of
        (EINTR, s') \<Rightarrow> send_loop s' bs whole
      | (EAGAIN, s') \<Rightarrow> (-1, s')
      | (Error, s') \<Rightarrow> (-1, s')
      | (Done n, s') \<Rightarrow> send_loop s' (drop n bs) whole)"
  by pat_completeness auto
termination
  by (relation "measure (\<lambda>(s, bs, whole). length bs + length (tx_outcomes s))")
    (auto dest!: sendmsg_EINTR sendmsg_Done sym[of "(_, _)"] intro: Nat.gr0I)

definition lttcomm_send_unix_sock :: "sock \<Rightarrow> byte list \<Rightarrow> int \<times> sock" where
  "lttcomm_send_unix_sock s bs = send_loop s bs (length bs)"

text \<open>The error and whether it is \<open>EAGAIN\<close> or \<open>EWOULDBLOCK\<close> on failure, the length on success.\<close>

function lttcomm_send_unix_sock_non_block :: "sock \<Rightarrow> byte list \<Rightarrow> (bool + nat) \<times> sock" where
  "lttcomm_send_unix_sock_non_block s bs =
     (case sendmsg s bs of
        (EINTR, s') \<Rightarrow> lttcomm_send_unix_sock_non_block s' bs
      | (EAGAIN, s') \<Rightarrow> (Inl True, s')
      | (Error, s') \<Rightarrow> (Inl False, s')
      | (Done n, s') \<Rightarrow> (Inr (length bs), s'))"
  by pat_completeness auto
termination
  by (relation "measure (\<lambda>(s, bs). length (tx_outcomes s))")
    (auto dest!: sendmsg_EINTR sym[of "(_, _)"])

text \<open>The credentials travel beside the bytes of the first call; the length that the kernel took is returned.\<close>

function lttcomm_send_creds_unix_sock :: "sock \<Rightarrow> byte list \<Rightarrow> int \<times> sock" where
  "lttcomm_send_creds_unix_sock s bs =
     (case sendmsg s bs of
        (EINTR, s') \<Rightarrow> lttcomm_send_creds_unix_sock s' bs
      | (EAGAIN, s') \<Rightarrow> (-1, s')
      | (Error, s') \<Rightarrow> (-1, s')
      | (Done n, s') \<Rightarrow> (int n, s'))"
  by pat_completeness auto
termination
  by (relation "measure (\<lambda>(s, bs). length (tx_outcomes s))")
    (auto dest!: sendmsg_EINTR sym[of "(_, _)"])

text \<open>
  \<open>anc\<close> are the credentials in the control message of the last call, if it has a valid one; they are
  stored in that case only.
\<close>

definition lttcomm_recv_creds_unix_sock ::
  "sock \<Rightarrow> mem \<Rightarrow> nat \<Rightarrow> nat \<Rightarrow> 'c option \<Rightarrow> (int \<times> mem \<times> 'c option \<times> sock) run"
where
  "lttcomm_recv_creds_unix_sock s m off len anc = do {
     (ret, m, s) \<leftarrow> recv_loop s m off len len;
     if ret < 0 then Some (ret, m, None, s)
     else if anc = None then Some (-1, m, None, s)
     else Some (ret, m, anc, s)
   }"

declare lttcomm_send_creds_unix_sock.simps [simp del]
declare recv_loop.simps [simp del] lttcomm_recv_unix_sock_non_block.simps [simp del]
  send_loop.simps [simp del] lttcomm_send_unix_sock_non_block.simps [simp del]

section \<open>Transfers\<close>

text \<open>No call blocks or fails: only segmentation and interruptions are left to the environment.\<close>

definition harmless :: "outcome list \<Rightarrow> bool" where
  "harmless os \<longleftrightarrow> Blocked \<notin> set os \<and> Failed \<notin> set os"

lemma recvmsg_harmless:
  "harmless (rx_outcomes s) \<Longrightarrow> \<exists>r s'. recvmsg s len = (r, s') \<and> harmless (rx_outcomes s') \<and>
    tx s' = tx s \<and> tx_outcomes s' = tx_outcomes s \<and> (r = EINTR \<and> rx s' = rx s \<or> (\<exists>bs. r = Done bs))"
  by (auto simp: recvmsg_def harmless_def split: list.splits outcome.splits)

lemma wr_bytes_append:
  "wr_bytes m off xs = Some m' \<Longrightarrow> wr_bytes m' (off + length xs) ys = Some m'' \<Longrightarrow> wr_bytes m off (xs @ ys) = Some m''"
  by (auto simp: wr_bytes_def wr_cells_def ac_simps split: if_splits)

lemma wr_bytes_total: "off + length bs \<le> length m \<Longrightarrow> \<exists>m'. wr_bytes m off bs = Some m' \<and> length m' = length m"
  by (auto simp: wr_bytes_split)

lemma recv_loop_complete:
  assumes "harmless (rx_outcomes s)" "len \<le> length (rx s)" "0 < len" "off + len \<le> length m"
  shows "\<exists>m' s'. recv_loop s m off len whole = Some (int whole, m', s') \<and>
    wr_bytes m off (take len (rx s)) = Some m' \<and> rx s' = drop len (rx s) \<and> harmless (rx_outcomes s') \<and>
    tx s' = tx s \<and> tx_outcomes s' = tx_outcomes s"
  using assms
proof (induction s m off len whole rule: recv_loop.induct)
  case (1 s m off len whole)
  obtain r s1 where r: "recvmsg s len = (r, s1)" "harmless (rx_outcomes s1)" "tx s1 = tx s"
    "tx_outcomes s1 = tx_outcomes s" "r = EINTR \<and> rx s1 = rx s \<or> (\<exists>bs. r = Done bs)"
    using recvmsg_harmless[OF 1(3), of len] by blast
  show ?case
  proof (cases r)
    case EINTR
    then have "rx s1 = rx s" using r(5) by auto
    with 1(2)[OF r(1)[symmetric] EINTR] 1(4-6) r EINTR show ?thesis
      by (simp add: recv_loop.simps[of s])
  next
    case (Done bs)
    have d: "length bs \<le> len" "rx s = bs @ rx s1" "bs \<noteq> []"
      using recvmsg_Done[OF r(1)[unfolded Done]] 1(4,5) by auto
    then obtain m1 where m1: "wr_bytes m off bs = Some m1" "length m1 = length m"
      using wr_bytes_total[of off bs m] 1(6) by auto
    show ?thesis
    proof (cases "length bs < len")
      case True
      have "len - length bs \<le> length (rx s1)" "0 < len - length bs" "off + length bs + (len - length bs) \<le> length m1"
        using True 1(4,6) d m1(2) by auto
      from 1(1)[OF r(1)[symmetric] Done m1(1) d(3) True r(2) this] obtain m' s' where
        "recv_loop s1 m1 (off + length bs) (len - length bs) whole = Some (int whole, m', s')"
        "wr_bytes m1 (off + length bs) (take (len - length bs) (rx s1)) = Some m'"
        "rx s' = drop (len - length bs) (rx s1)" "harmless (rx_outcomes s')"
        "tx s' = tx s1" "tx_outcomes s' = tx_outcomes s1" by blast
      with True Done r d m1 wr_bytes_append[OF m1(1)] show ?thesis
        by (auto simp: recv_loop.simps[of s])
    next
      case False
      then show ?thesis using Done r d m1 by (auto simp: recv_loop.simps[of s])
    qed
  qed (use r(5) in auto)
qed

lemma send_loop_complete:
  "harmless (tx_outcomes s) \<Longrightarrow> \<exists>s'. send_loop s bs whole = (int whole, s') \<and> tx s' = tx s @ bs \<and>
    rx s' = rx s \<and> rx_outcomes s' = rx_outcomes s \<and> harmless (tx_outcomes s')"
proof (induction s bs whole rule: send_loop.induct)
  case (1 s bs whole)
  show ?case
  proof (cases "bs = []")
    case True
    then show ?thesis using 1(3) by (simp add: send_loop.simps)
  next
    case False
    obtain r s1 where r: "sendmsg s bs = (r, s1)" by (cases "sendmsg s bs")
    then have h: "harmless (tx_outcomes s1)" "r = EINTR \<and> tx s1 = tx s \<and> rx s1 = rx s \<and> rx_outcomes s1 = rx_outcomes s \<or> (\<exists>n. r = Done n)"
      using 1(3) by (auto simp: sendmsg_def harmless_def split: list.splits outcome.splits)
    show ?thesis
    proof (cases r)
      case EINTR
      with 1(2)[OF False r[symmetric]] r h show ?thesis by (auto simp: send_loop.simps[of s] False)
    next
      case (Done n)
      with 1(1)[OF False r[symmetric] Done h(1)] sendmsg_Done[OF r[unfolded Done]] r h show ?thesis
        by (auto simp: send_loop.simps[of s] False)
    qed (use h(2) in auto)
  qed
qed

text \<open>Every outcome of a reception only consumes from the stream.\<close>

lemma recv_loop_rx:
  "recv_loop s m off len whole = Some (ret, m', s') \<Longrightarrow>
    length (rx s') \<le> length (rx s) \<and> (0 < ret \<longrightarrow> length (rx s') < length (rx s))"
proof (induction s m off len whole rule: recv_loop.induct)
  case (1 s m off len whole)
  obtain r s1 where r: "recvmsg s len = (r, s1)" by (cases "recvmsg s len")
  show ?case
  proof (cases r)
    case EINTR
    then have "rx s1 = rx s" using r by (auto simp: recvmsg_def split: list.splits outcome.splits)
    with 1(2)[OF r[symmetric] EINTR] 1(3) r EINTR show ?thesis by (simp add: recv_loop.simps[of s])
  next
    case (Done bs)
    have d: "rx s = bs @ rx s1" using recvmsg_Done[OF r[unfolded Done]] by simp
    obtain m1 where m1: "wr_bytes m off bs = Some m1"
      using 1(3) r Done by (auto simp: recv_loop.simps[of s] split: option.splits)
    with 1(1)[OF r[symmetric] Done m1] 1(3) r Done d show ?thesis
      by (auto simp: recv_loop.simps[of s] split: if_splits)
  next
    case EAGAIN
    then show ?thesis using r 1(3) by (auto simp: recv_loop.simps[of s] recvmsg_def split: list.splits outcome.splits)
  next
    case Error
    then show ?thesis using r 1(3) by (auto simp: recv_loop.simps[of s] recvmsg_def split: list.splits outcome.splits)
  qed
qed

section \<open>Properties\<close>

text \<open>
  C33: the blocking wrappers transfer exactly what they are asked to. However the kernel cuts the stream
  into parts and however often a signal interrupts the calls, sending puts all bytes on the wire in
  order and returns their number, and receiving stores the next \<open>len\<close> bytes of the stream, leaves the
  rest of it and of the object alone, and returns \<open>len\<close>.
\<close>

theorem unix_sock_transfer:
  assumes "harmless (tx_outcomes s)" "harmless (rx_outcomes s)" "0 < len" "len \<le> length (rx s)" "off + len \<le> length m"
  shows "(\<exists>s'. lttcomm_send_unix_sock s bs = (int (length bs), s') \<and> tx s' = tx s @ bs \<and> rx s' = rx s) \<and>
    (\<exists>s'. lttcomm_recv_unix_sock s m off len =
       Some (int len, take off m @ map Some (take len (rx s)) @ drop (off + len) m, s') \<and>
     rx s' = drop len (rx s) \<and> tx s' = tx s)"
proof -
  obtain s1 where "send_loop s bs (length bs) = (int (length bs), s1)" "tx s1 = tx s @ bs" "rx s1 = rx s"
    using send_loop_complete[OF assms(1)] by blast
  moreover obtain m' s2 where "recv_loop s m off len len = Some (int len, m', s2)"
    "wr_bytes m off (take len (rx s)) = Some m'" "rx s2 = drop len (rx s)" "tx s2 = tx s"
    using recv_loop_complete[OF assms(2,4,3,5)] by blast
  ultimately show ?thesis
    using assms(4,5) by (auto simp: lttcomm_send_unix_sock_def lttcomm_recv_unix_sock_def wr_bytes_split)
qed

theorem unix_sock_transfer_witness:
  "\<exists>s'. lttcomm_recv_unix_sock \<lparr>rx = [1, 2, 3, 4], rx_outcomes = [Part 0, Interrupted, Part 0], tx = [], tx_outcomes = []\<rparr>
      [None, None, None] 0 3 = Some (3, [Some 1, Some 2, Some 3], s') \<and> rx s' = [4]"
  using unix_sock_transfer[of "\<lparr>rx = [1, 2, 3, 4], rx_outcomes = [Part 0, Interrupted, Part 0], tx = [], tx_outcomes = []\<rparr>"
      3 0 "[None, None, None]" "[]"]
  by (auto simp: harmless_def)

text \<open>
  C39: the non-blocking wrappers report transfers that did not happen. When the kernel takes or gives
  only a part of the bytes, both still return the full length: the rest of a message that is sent is
  lost for a caller that trusts the result, and the rest of a message that is received keeps
  its old content; even the shutdown of the peer is reported as a complete message.
\<close>

theorem unix_sock_non_block_partial:
  assumes "tx_outcomes s = Part n # os" "Suc n < length bs" "rx_outcomes s = [Part j]" "Suc j < len" "off + len \<le> length m"
  shows "(\<exists>s'. lttcomm_send_unix_sock_non_block s bs = (Inr (length bs), s') \<and> tx s' = tx s @ take (Suc n) bs) \<and>
    (\<exists>s' part. lttcomm_recv_unix_sock_non_block s m off len =
       Some (int len, take off m @ map Some part @ drop (off + length part) m, s') \<and> part = take (Suc j) (rx s))"
proof -
  have "off + length (take (Suc j) (rx s)) \<le> length m" using assms(4,5) by simp
  with assms show ?thesis
    by (simp add: lttcomm_send_unix_sock_non_block.simps[of s] sendmsg_def
        lttcomm_recv_unix_sock_non_block.simps[of s] recvmsg_def wr_bytes_split min_def)
qed

theorem unix_sock_non_block_partial_witness:
  "\<exists>s'. lttcomm_send_unix_sock_non_block \<lparr>rx = [], rx_outcomes = [Part 0], tx = [], tx_outcomes = [Part 0]\<rparr> [1, 2, 3] =
      (Inr 3, s') \<and> tx s' = [1]"
  using unix_sock_non_block_partial[of "\<lparr>rx = [], rx_outcomes = [Part 0], tx = [], tx_outcomes = [Part 0]\<rparr>" 0 "[]"
      "[1, 2, 3]" 0 2 0 "[None, None]"] by auto

end
