(* ===== verification/Notification_Channel.thy ===== *)
theory Notification_Channel
  imports Notification Unix_Socket
begin

text \<open>
  The client side of the notification protocol: src/lib/lttng-ctl/channel.c. A channel holds the
  socket to the session daemon, the buffer of the message being received, and the notifications that
  arrived while it waited for the reply to a command.
\<close>

section \<open>Messages\<close>

datatype lttng_notification_channel_message_type =
    LTTNG_NOTIFICATION_CHANNEL_MESSAGE_TYPE_UNKNOWN
  | LTTNG_NOTIFICATION_CHANNEL_MESSAGE_TYPE_HANDSHAKE
  | LTTNG_NOTIFICATION_CHANNEL_MESSAGE_TYPE_SUBSCRIBE
  | LTTNG_NOTIFICATION_CHANNEL_MESSAGE_TYPE_UNSUBSCRIBE
  | LTTNG_NOTIFICATION_CHANNEL_MESSAGE_TYPE_COMMAND_REPLY
  | LTTNG_NOTIFICATION_CHANNEL_MESSAGE_TYPE_NOTIFICATION
  | LTTNG_NOTIFICATION_CHANNEL_MESSAGE_TYPE_NOTIFICATION_DROPPED

text \<open>A type byte that is no value of the enumeration matches no case of the code.\<close>

definition message_type_of_byte :: "byte \<Rightarrow> lttng_notification_channel_message_type option" where
  "message_type_of_byte b =
     (if b = 255 then Some LTTNG_NOTIFICATION_CHANNEL_MESSAGE_TYPE_UNKNOWN
      else if b = 0 then Some LTTNG_NOTIFICATION_CHANNEL_MESSAGE_TYPE_HANDSHAKE
      else if b = 1 then Some LTTNG_NOTIFICATION_CHANNEL_MESSAGE_TYPE_SUBSCRIBE
      else if b = 2 then Some LTTNG_NOTIFICATION_CHANNEL_MESSAGE_TYPE_UNSUBSCRIBE
      else if b = 3 then Some LTTNG_NOTIFICATION_CHANNEL_MESSAGE_TYPE_COMMAND_REPLY
      else if b = 4 then Some LTTNG_NOTIFICATION_CHANNEL_MESSAGE_TYPE_NOTIFICATION
      else if b = 5 then Some LTTNG_NOTIFICATION_CHANNEL_MESSAGE_TYPE_NOTIFICATION_DROPPED
      else None)"

fun message_type_byte :: "lttng_notification_channel_message_type \<Rightarrow> byte" where
  "message_type_byte LTTNG_NOTIFICATION_CHANNEL_MESSAGE_TYPE_UNKNOWN = 255"
| "message_type_byte LTTNG_NOTIFICATION_CHANNEL_MESSAGE_TYPE_HANDSHAKE = 0"
| "message_type_byte LTTNG_NOTIFICATION_CHANNEL_MESSAGE_TYPE_SUBSCRIBE = 1"
| "message_type_byte LTTNG_NOTIFICATION_CHANNEL_MESSAGE_TYPE_UNSUBSCRIBE = 2"
| "message_type_byte LTTNG_NOTIFICATION_CHANNEL_MESSAGE_TYPE_COMMAND_REPLY = 3"
| "message_type_byte LTTNG_NOTIFICATION_CHANNEL_MESSAGE_TYPE_NOTIFICATION = 4"
| "message_type_byte LTTNG_NOTIFICATION_CHANNEL_MESSAGE_TYPE_NOTIFICATION_DROPPED = 5"

lemma message_type_roundtrip [simp]: "message_type_of_byte (message_type_byte t) = Some t"
  by (cases t) (simp_all add: message_type_of_byte_def)

text \<open>The packed structure \<open>lttng_notification_channel_message\<close>.\<close>

definition message_header :: "lttng_notification_channel_message_type \<Rightarrow> u32 \<Rightarrow> byte list" where
  "message_header t psize = message_type_byte t # bytes_u32 psize"

abbreviation (input) header_size :: nat where "header_size \<equiv> 5"

lemma length_message_header [simp]: "length (message_header t psize) = 5"
  by (simp add: message_header_def)

definition header_payload_size :: "byte list \<Rightarrow> u32" where
  "header_payload_size raw = of_nat (le_val (take 4 (drop 1 raw)))"

lemma header_payload_size [simp]: "header_payload_size (message_header t psize @ r) = psize"
  by (simp add: header_payload_size_def message_header_def)

abbreviation (input) STATUS_NOTIFICATIONS_DROPPED :: int where "STATUS_NOTIFICATIONS_DROPPED \<equiv> 1"
abbreviation (input) STATUS_OK :: int where "STATUS_OK \<equiv> 0"
abbreviation (input) STATUS_ERROR :: int where "STATUS_ERROR \<equiv> -1"
abbreviation (input) STATUS_ALREADY_SUBSCRIBED :: int where "STATUS_ALREADY_SUBSCRIBED \<equiv> -3"
abbreviation (input) STATUS_UNKNOWN_CONDITION :: int where "STATUS_UNKNOWN_CONDITION \<equiv> -4"
abbreviation (input) STATUS_INVALID :: int where "STATUS_INVALID \<equiv> -5"
abbreviation (input) STATUS_UNSUPPORTED_VERSION :: int where "STATUS_UNSUPPORTED_VERSION \<equiv> -6"

abbreviation (input) DEFAULT_MAX_NOTIFICATION_CLIENT_MESSAGE_PAYLOAD_SIZE :: u32 where
  "DEFAULT_MAX_NOTIFICATION_CLIENT_MESSAGE_PAYLOAD_SIZE \<equiv> 65536"
abbreviation (input) DEFAULT_CLIENT_MAX_QUEUED_NOTIFICATIONS_COUNT :: u32 where
  "DEFAULT_CLIENT_MAX_QUEUED_NOTIFICATIONS_COUNT \<equiv> 100"
abbreviation (input) LTTNG_NOTIFICATION_CHANNEL_VERSION_MAJOR :: u8 where "LTTNG_NOTIFICATION_CHANNEL_VERSION_MAJOR \<equiv> 1"
abbreviation (input) LTTNG_NOTIFICATION_CHANNEL_VERSION_MINOR :: u8 where "LTTNG_NOTIFICATION_CHANNEL_VERSION_MINOR \<equiv> 0"

section \<open>Channels\<close>

text \<open>The pending notifications are in the order of the linked list, \<open>None\<close> for dropped ones.\<close>

record lttng_notification_channel =
  socket :: sock
  pending_count :: u32
  pending_list :: "lttng_notification option list"
  reception_buffer :: lttng_dynamic_buffer
  version_set :: bool
  version_major :: u8
  version_minor :: u8

definition set_size_buffer ::
  "lttng_notification_channel \<Rightarrow> heap \<Rightarrow> size_t \<Rightarrow> (int \<times> lttng_notification_channel \<times> heap) run"
where
  "set_size_buffer channel h n = do {
     (ret, b, h) \<leftarrow> lttng_dynamic_buffer_set_size h (Some (reception_buffer channel)) n;
     b \<leftarrow> b;
     Some (ret, channel\<lparr>reception_buffer := b\<rparr>, h)
   }"

definition receive_error ::
  "lttng_notification_channel \<Rightarrow> heap \<Rightarrow> int \<Rightarrow> (int \<times> lttng_notification_channel \<times> heap) run"
where
  "receive_error channel h ret = do {
     (ret', channel, h) \<leftarrow> set_size_buffer channel h 0;
     Some (if ret' \<noteq> 0 then -1 else ret, channel, h)
   }"

definition receive_payload ::
  "lttng_notification_channel \<Rightarrow> heap \<Rightarrow> u32 \<Rightarrow> (int \<times> lttng_notification_channel \<times> heap) run"
where
  "receive_payload channel h psize =
     (case bdata (reception_buffer channel) of
        Live m \<Rightarrow> do {
          (ret, m, s) \<leftarrow> lttcomm_recv_unix_sock (socket channel) m header_size (unat psize);
          let channel = channel\<lparr>socket := s, reception_buffer := (reception_buffer channel)\<lparr>bdata := Live m\<rparr>\<rparr>;
          if ret < int (unat psize) then receive_error channel h (-1) else Some (0, channel, h)
        }
      | _ \<Rightarrow> crash)"

definition receive_message ::
  "lttng_notification_channel \<Rightarrow> heap \<Rightarrow> (int \<times> lttng_notification_channel \<times> heap) run"
where
  "receive_message channel h = do {
     (ret, channel, h) \<leftarrow> set_size_buffer channel h 0;
     if ret \<noteq> 0 then receive_error channel h ret
     else do {
       (ret, msg, s) \<leftarrow> lttcomm_recv_unix_sock (socket channel) (replicate header_size None) 0 header_size;
       let channel = channel\<lparr>socket := s\<rparr>;
       if ret \<le> 0 then receive_error channel h (-1)
       else do {
         raw \<leftarrow> those msg;
         let psize = header_payload_size raw;
         if psize > DEFAULT_MAX_NOTIFICATION_CLIENT_MESSAGE_PAYLOAD_SIZE then receive_error channel h (-1)
         else do {
           (ret, b, h) \<leftarrow> lttng_dynamic_buffer_append h (Some (reception_buffer channel)) (Some msg) 5;
           b \<leftarrow> b;
           let channel = channel\<lparr>reception_buffer := b\<rparr>;
           if ret \<noteq> 0 then receive_error channel h ret
           else do {
             (ret, channel, h) \<leftarrow> set_size_buffer channel h (bsize b + ucast psize);
             if ret \<noteq> 0 then receive_error channel h ret
             else receive_payload channel h psize
           }
         }
       }
     }
   }"

definition get_current_message_type ::
  "lttng_notification_channel \<Rightarrow> lttng_notification_channel_message_type option run"
where
  "get_current_message_type channel = do {
     c_assert (bsize (reception_buffer channel) \<ge> 5);
     m \<leftarrow> block_cells (bdata (reception_buffer channel));
     b \<leftarrow> rd m 0;
     Some (message_type_of_byte b)
   }"

definition create_notification_from_current_message ::
  "lttng_notification_channel \<Rightarrow> heap \<Rightarrow> (lttng_notification option \<times> heap) run"
where
  "create_notification_from_current_message channel h =
     (let b = reception_buffer channel in
      if bsize b \<le> 5 then Some (None, h)
      else do {
        view \<leftarrow> lttng_buffer_view_from_dynamic_buffer (Some b) 5 (-1);
        m \<leftarrow> block_cells (bdata b);
        (ret, notification, h) \<leftarrow> lttng_notification_create_from_buffer h m (Some view) True;
        if of_int ret \<noteq> bsize b - 5 then do {
          h \<leftarrow> lttng_notification_destroy notification h;
          Some (None, h)
        }
        else Some (notification, h)
      })"

text \<open>A message that was received has consumed a part of the stream.\<close>

lemma set_size_buffer_socket:
  "set_size_buffer channel h n = Some (ret, channel', h') \<Longrightarrow> socket channel' = socket channel"
  by (auto simp: set_size_buffer_def split: bind_splits)

lemma receive_error_result [simp]: "ret \<noteq> 0 \<Longrightarrow> receive_error channel h ret \<noteq> Some (0, channel', h')"
  by (auto simp: receive_error_def split: bind_splits if_splits)

lemma receive_message_consumes:
  assumes "receive_message channel h = Some (0, channel', h')"
  shows "length (rx (socket channel')) < length (rx (socket channel))"
  using assms
  by (auto simp: receive_message_def receive_payload_def Let_def lttcomm_recv_unix_sock_def
      split: bind_splits if_splits block.splits
      dest!: set_size_buffer_socket recv_loop_rx)

section \<open>Notifications\<close>

text \<open>
  The status, the notification stored through the result pointer (\<open>out\<close>: it is not null), the channel
  and the ledger.
\<close>

definition lttng_notification_channel_get_next_notification ::
  "lttng_notification_channel option \<Rightarrow> bool \<Rightarrow> heap \<Rightarrow>
     (int \<times> lttng_notification option \<times> lttng_notification_channel option \<times> heap) run"
where
  "lttng_notification_channel_get_next_notification channel out h =
     (case channel of
        None \<Rightarrow> Some (STATUS_INVALID, None, channel, h)
      | Some ch \<Rightarrow>
          if \<not> out then Some (STATUS_INVALID, None, channel, h)
          else if pending_count ch \<noteq> 0 then
            (case pending_list ch of
               [] \<Rightarrow> crash
             | notification # rest \<Rightarrow>
                 Some (if notification = None then STATUS_NOTIFICATIONS_DROPPED else STATUS_OK, notification,
                   Some (ch\<lparr>pending_list := rest, pending_count := pending_count ch - 1\<rparr>), c_free h))
          else do {
            (ret, ch, h) \<leftarrow> receive_message ch h;
            if ret \<noteq> 0 then Some (STATUS_ERROR, None, Some ch, h)
            else do {
              t \<leftarrow> get_current_message_type ch;
              if t = Some LTTNG_NOTIFICATION_CHANNEL_MESSAGE_TYPE_NOTIFICATION then do {
                (notification, h) \<leftarrow> create_notification_from_current_message ch h;
                Some (if notification = None then STATUS_ERROR else STATUS_OK, notification, Some ch, h)
              }
              else if t = Some LTTNG_NOTIFICATION_CHANNEL_MESSAGE_TYPE_NOTIFICATION_DROPPED
              then Some (STATUS_NOTIFICATIONS_DROPPED, None, Some ch, h)
              else Some (STATUS_ERROR, None, Some ch, h)
            }
          })"

text \<open>
  The last element of an empty list is the head of the list inside the channel: the member that is
  taken for its notification are the bytes of the count before it, a null pointer when the count is 0.
\<close>

definition enqueue_dropped_notification ::
  "lttng_notification_channel \<Rightarrow> heap \<Rightarrow> (int \<times> lttng_notification_channel \<times> heap) run"
where
  "enqueue_dropped_notification channel h =
     (if pending_list channel = [] then
        (if pending_count channel = 0 then Some (0, channel, h) else crash)
      else let last_notification = List.last (pending_list channel) in
        if last_notification = None then Some (0, channel, h)
        else if pending_count channel \<ge> DEFAULT_CLIENT_MAX_QUEUED_NOTIFICATIONS_COUNT then do {
          h \<leftarrow> lttng_notification_destroy last_notification h;
          Some (0, channel\<lparr>pending_list := butlast (pending_list channel) @ [None]\<rparr>, h)
        }
        else let (ok, h) = zmalloc h in
          if \<not> ok then Some (-1, channel, h)
          else Some (0, channel\<lparr>pending_list := None # pending_list channel,
                                pending_count := pending_count channel + 1\<rparr>, h))"

definition enqueue_notification_from_current_message ::
  "lttng_notification_channel \<Rightarrow> heap \<Rightarrow> (int \<times> lttng_notification_channel \<times> heap) run"
where
  "enqueue_notification_from_current_message channel h =
     (if pending_count channel \<ge> DEFAULT_CLIENT_MAX_QUEUED_NOTIFICATIONS_COUNT
      then enqueue_dropped_notification channel h
      else let (ok, h) = zmalloc h in
        if \<not> ok then Some (-1, channel, h)
        else do {
          (notification, h) \<leftarrow> create_notification_from_current_message channel h;
          if notification = None then Some (-1, channel, c_free h)
          else Some (0, channel\<lparr>pending_list := notification # pending_list channel,
                                pending_count := pending_count channel + 1\<rparr>, h)
        })"

lemma enqueue_socket:
  "enqueue_dropped_notification channel h = Some (ret, channel', h') \<Longrightarrow> socket channel' = socket channel"
  "enqueue_notification_from_current_message channel h = Some (ret, channel', h') \<Longrightarrow> socket channel' = socket channel"
proof -
  show d: "enqueue_dropped_notification channel h = Some (ret, channel', h') \<Longrightarrow> socket channel' = socket channel" for ret channel' h' h
    by (auto simp: enqueue_dropped_notification_def Let_def split: bind_splits if_splits prod.splits)
  show "enqueue_notification_from_current_message channel h = Some (ret, channel', h') \<Longrightarrow> socket channel' = socket channel"
    by (auto simp: enqueue_notification_from_current_message_def Let_def d split: bind_splits if_splits prod.splits)
qed

section \<open>Commands\<close>

text \<open>
  The return value, the status of the reply if one was received, the channel and the ledger. The
  handlers of the other messages that may come before the reply are separate.
\<close>

definition receive_handshake :: "lttng_notification_channel \<Rightarrow> lttng_notification_channel run" where
  "receive_handshake channel = do {
     m \<leftarrow> block_cells (bdata (reception_buffer channel));
     major \<leftarrow> rd m 5;
     minor \<leftarrow> rd m 6;
     Some (channel\<lparr>version_major := major, version_minor := minor, version_set := True\<rparr>)
   }"

definition handle_interleaved ::
  "lttng_notification_channel_message_type option \<Rightarrow> lttng_notification_channel \<Rightarrow> heap \<Rightarrow>
     (int \<times> lttng_notification_channel \<times> heap) run"
where
  "handle_interleaved t channel h =
     (if t = Some LTTNG_NOTIFICATION_CHANNEL_MESSAGE_TYPE_NOTIFICATION
      then enqueue_notification_from_current_message channel h
      else if t = Some LTTNG_NOTIFICATION_CHANNEL_MESSAGE_TYPE_NOTIFICATION_DROPPED
      then enqueue_dropped_notification channel h
      else if t = Some LTTNG_NOTIFICATION_CHANNEL_MESSAGE_TYPE_HANDSHAKE
      then do { channel \<leftarrow> receive_handshake channel; Some (0, channel, h) }
      else Some (-1, channel, h))"

lemma handle_interleaved_socket:
  "handle_interleaved t channel h = Some (ret, channel', h') \<Longrightarrow> socket channel' = socket channel"
  by (auto simp: handle_interleaved_def receive_handshake_def split: if_splits bind_splits dest: enqueue_socket)

definition read_reply :: "lttng_notification_channel \<Rightarrow> (int \<times> int option) run" where
  "read_reply channel =
     (if bsize (reception_buffer channel) < 6 then Some (-1, None)
      else do {
        m \<leftarrow> block_cells (bdata (reception_buffer channel));
        b \<leftarrow> rd m 5;
        Some (0, Some (sint b))
      })"

function receive_command_reply ::
  "lttng_notification_channel \<Rightarrow> heap \<Rightarrow> (int \<times> int option \<times> lttng_notification_channel \<times> heap) run"
where
  "receive_command_reply channel h =
     (case receive_message channel h of
        None \<Rightarrow> crash
      | Some (ret, channel1, h1) \<Rightarrow>
          if ret \<noteq> 0 then Some (ret, None, channel1, h1)
          else (case get_current_message_type channel1 of
            None \<Rightarrow> crash
          | Some t \<Rightarrow>
              if t = Some LTTNG_NOTIFICATION_CHANNEL_MESSAGE_TYPE_COMMAND_REPLY then do {
                (ret, status) \<leftarrow> read_reply channel1;
                Some (ret, status, channel1, h1)
              }
              else (case handle_interleaved t channel1 h1 of
                None \<Rightarrow> crash
              | Some (ret, channel2, h2) \<Rightarrow>
                  if ret \<noteq> 0 then Some (ret, None, channel2, h2) else receive_command_reply channel2 h2)))"
  by pat_completeness auto
termination
  by (relation "measure (\<lambda>(channel, h). length (rx (socket channel)))")
    (auto dest!: receive_message_consumes handle_interleaved_socket)

declare receive_command_reply.simps [simp del]

definition handshake :: "lttng_notification_channel \<Rightarrow> heap \<Rightarrow> (int \<times> lttng_notification_channel \<times> heap) run" where
  "handshake channel h =
     (let send_buffer = message_header LTTNG_NOTIFICATION_CHANNEL_MESSAGE_TYPE_HANDSHAKE 2 @
            [LTTNG_NOTIFICATION_CHANNEL_VERSION_MAJOR, LTTNG_NOTIFICATION_CHANNEL_VERSION_MINOR];
          (ret, s) = lttcomm_send_creds_unix_sock (socket channel) send_buffer;
          channel = channel\<lparr>socket := s\<rparr> in
      if ret < 0 then Some (ret, channel, h)
      else do {
        (ret, status, channel, h) \<leftarrow> receive_command_reply channel h;
        if ret < 0 then Some (ret, channel, h)
        else if \<not> version_set channel then Some (-1, channel, h)
        else if version_major channel \<noteq> LTTNG_NOTIFICATION_CHANNEL_VERSION_MAJOR then Some (-1, channel, h)
        else Some (ret, channel, h)
      })"

text \<open>The transfer of the serialized command and the reply.\<close>

definition send_command_buffer ::
  "lttng_notification_channel \<Rightarrow> byte list \<Rightarrow> heap \<Rightarrow> (int \<times> lttng_notification_channel \<times> heap) run"
where
  "send_command_buffer channel command_buffer h =
     (let (ret, s) = lttcomm_send_unix_sock (socket channel) command_buffer;
          channel = channel\<lparr>socket := s\<rparr> in
      if ret < 0 then Some (STATUS_ERROR, channel, h)
      else do {
        (ret, status, channel, h) \<leftarrow> receive_command_reply channel h;
        Some (if ret < 0 then STATUS_ERROR else case status of None \<Rightarrow> STATUS_OK | Some s \<Rightarrow> s, channel, h)
      })"

definition send_condition_command ::
  "lttng_notification_channel option \<Rightarrow> lttng_notification_channel_message_type \<Rightarrow> cond option \<Rightarrow> heap \<Rightarrow>
     (int \<times> lttng_notification_channel option \<times> heap) run"
where
  "send_condition_command channel type condition h =
     (case channel of
        None \<Rightarrow> Some (STATUS_INVALID, None, h)
      | Some ch \<Rightarrow> do {
          c_assert (type = LTTNG_NOTIFICATION_CHANNEL_MESSAGE_TYPE_SUBSCRIBE \<or>
            type = LTTNG_NOTIFICATION_CHANNEL_MESSAGE_TYPE_UNSUBSCRIBE);
          if \<not> lttng_condition_validate condition then Some (STATUS_INVALID, Some ch, h)
          else do {
            (ret, _) \<leftarrow> lttng_condition_serialize condition None [];
            if ret < 0 then Some (STATUS_INVALID, Some ch, h)
            else do {
              c_assert (ret < 4294967295);
              let (ok, h) = zmalloc h;
              if \<not> ok then Some (STATUS_OK, Some ch, h)
              else do {
                command_buffer \<leftarrow> wr_bytes (replicate (nat ret + header_size) (Some 0)) 0 (message_header type (of_int ret));
                (ret, command_buffer) \<leftarrow> lttng_condition_serialize condition (Some header_size) command_buffer;
                if ret < 0 then Some (STATUS_OK, Some ch, c_free h)
                else do {
                  bytes \<leftarrow> those command_buffer;
                  (status, ch, h) \<leftarrow> send_command_buffer ch bytes h;
                  Some (status, Some ch, c_free h)
                }
              }
            }
          }
        })"

definition lttng_notification_channel_subscribe ::
  "lttng_notification_channel option \<Rightarrow> cond option \<Rightarrow> heap \<Rightarrow> (int \<times> lttng_notification_channel option \<times> heap) run"
where
  "lttng_notification_channel_subscribe channel condition h =
     send_condition_command channel LTTNG_NOTIFICATION_CHANNEL_MESSAGE_TYPE_SUBSCRIBE condition h"

definition lttng_notification_channel_unsubscribe ::
  "lttng_notification_channel option \<Rightarrow> cond option \<Rightarrow> heap \<Rightarrow> (int \<times> lttng_notification_channel option \<times> heap) run"
where
  "lttng_notification_channel_unsubscribe channel condition h =
     send_condition_command channel LTTNG_NOTIFICATION_CHANNEL_MESSAGE_TYPE_UNSUBSCRIBE condition h"

definition lttng_notification_channel_destroy :: "lttng_notification_channel option \<Rightarrow> heap \<Rightarrow> heap run" where
  "lttng_notification_channel_destroy channel h =
     (case channel of
        None \<Rightarrow> Some h
      | Some ch \<Rightarrow> do {
          (_, h) \<leftarrow> lttng_dynamic_buffer_reset h (Some (reception_buffer ch));
          Some (c_free h)
        })"

section \<open>Reception of a message\<close>

lemma buffer_outcomes:
  "lttng_dynamic_buffer_set_capacity h b n = Some (ret, b', h') \<Longrightarrow> outcomes h = [] \<Longrightarrow> outcomes h' = []"
  "lttng_dynamic_buffer_set_size h b n = Some (ret, b', h') \<Longrightarrow> outcomes h = [] \<Longrightarrow> outcomes h' = []"
  "lttng_dynamic_buffer_append h b c n = Some (ret, b', h') \<Longrightarrow> outcomes h = [] \<Longrightarrow> outcomes h' = []"
proof -
  show c: "lttng_dynamic_buffer_set_capacity h b n = Some (ret, b', h') \<Longrightarrow> outcomes h = [] \<Longrightarrow> outcomes h' = []"
    for h b n ret b' h'
    by (auto simp: lttng_dynamic_buffer_set_capacity_def realloc_def zmalloc_def Let_def
        split: option.splits if_splits bind_splits block.splits)
  show "lttng_dynamic_buffer_set_size h b n = Some (ret, b', h') \<Longrightarrow> outcomes h = [] \<Longrightarrow> outcomes h' = []"
    by (auto simp: lttng_dynamic_buffer_set_size_def Let_def dest!: c split: option.splits if_splits bind_splits)
  show "lttng_dynamic_buffer_append h b c n = Some (ret, b', h') \<Longrightarrow> outcomes h = [] \<Longrightarrow> outcomes h' = []"
    by (auto simp: lttng_dynamic_buffer_append_def dest!: c split: option.splits if_splits bind_splits)
qed

lemma zmalloc_ok: "outcomes h = [] \<Longrightarrow> fst (zmalloc h)"
  by (simp add: zmalloc_def)

lemma set_size_buffer_ok:
  assumes "buf_ok (reception_buffer ch)" "outcomes h = []" "unat n \<le> 2 ^ 63"
  shows "\<exists>b h'. set_size_buffer ch h n = Some (0, ch\<lparr>reception_buffer := b\<rparr>, h') \<and> buf_ok b \<and> bsize b = n \<and>
    outcomes h' = [] \<and> (bsize (reception_buffer ch) \<le> n \<longrightarrow>
      take (unat (bsize (reception_buffer ch))) (contents b) = contents (reception_buffer ch))"
proof -
  let ?b = "reception_buffer ch"
  from set_size_ok[OF assms(1,3), of h] obtain b h' where b: "lttng_dynamic_buffer_set_size h (Some ?b) n = Some (0, Some b, h')"
    "buf_ok b" "bsize b = n" "contents b = take (unat n) (contents ?b @ replicate (unat (bcapacity ?b) - unat (bsize ?b)) (Some 0) @
      replicate (unat n - unat (bcapacity ?b)) None)"
    using zmalloc_ok[OF assms(2)] by metis
  have "take (unat (bsize ?b)) (contents b) = contents ?b" if "bsize ?b \<le> n"
    using that length_contents[OF assms(1)] by (simp add: b(4) word_le_nat_alt)
  with b buffer_outcomes(2)[OF b(1) assms(2)] show ?thesis by (auto simp: set_size_buffer_def)
qed

lemma recv_all:
  assumes "harmless (rx_outcomes s)" "len \<le> length (rx s)" "off + len \<le> length m"
  shows "\<exists>s'. lttcomm_recv_unix_sock s m off len =
      Some (int len, take off m @ map Some (take len (rx s)) @ drop (off + len) m, s') \<and>
    rx s' = drop len (rx s) \<and> harmless (rx_outcomes s') \<and> tx s' = tx s \<and> tx_outcomes s' = tx_outcomes s"
proof (cases "len = 0")
  case True
  have "\<exists>s'. recv_loop s m off 0 0 = Some (0, m, s') \<and> rx s' = rx s \<and> harmless (rx_outcomes s') \<and> tx s' = tx s \<and>
      tx_outcomes s' = tx_outcomes s"
    using assms(1,3)
  proof (induction "length (rx_outcomes s)" arbitrary: s)
    case 0
    then show ?case by (simp add: recv_loop.simps[of s] recvmsg_def wr_bytes_split True)
  next
    case (Suc n)
    then obtain a os where a: "rx_outcomes s = a # os" by (cases "rx_outcomes s") auto
    show ?case
    proof (cases a)
      case Interrupted
      with Suc(1)[of "s\<lparr>rx_outcomes := os\<rparr>"] Suc(2-) a show ?thesis
        by (auto simp: recv_loop.simps[of s] recvmsg_def harmless_def)
    qed (use Suc a in \<open>auto simp: recv_loop.simps[of s] recvmsg_def wr_bytes_split harmless_def True\<close>)
  qed
  with True show ?thesis by (simp add: lttcomm_recv_unix_sock_def)
next
  case False
  then show ?thesis
    using recv_loop_complete[OF assms(1,2) _ assms(3), of len] assms(2,3)
    by (auto simp: lttcomm_recv_unix_sock_def wr_bytes_split)
qed

text \<open>A message of the protocol, and a channel between two messages.\<close>

definition message :: "lttng_notification_channel_message_type \<Rightarrow> byte list \<Rightarrow> byte list" where
  "message t payload = message_header t (of_nat (length payload)) @ payload"

definition ready :: "lttng_notification_channel \<Rightarrow> heap \<Rightarrow> bool" where
  "ready ch h \<longleftrightarrow> buf_ok (reception_buffer ch) \<and> harmless (rx_outcomes (socket ch)) \<and> outcomes h = [] \<and>
     pending_count ch = of_nat (length (pending_list ch)) \<and> length (pending_list ch) \<le> 100"

definition received_message :: "lttng_notification_channel \<Rightarrow> byte list \<Rightarrow> byte list \<Rightarrow> lttng_notification_channel \<Rightarrow> bool" where
  "received_message ch bs rest ch' \<longleftrightarrow>
     (\<exists>s b. ch' = ch\<lparr>socket := s, reception_buffer := b\<rparr> \<and> rx s = rest \<and> tx s = tx (socket ch) \<and>
        tx_outcomes s = tx_outcomes (socket ch) \<and> contents b = map Some bs)"

lemma receive_payload_ok:
  assumes "buf_ok b" "bsize b = 5 + ucast n" "harmless (rx_outcomes s)" "rx s = payload @ rest"
    "length payload = unat n" "take 5 (contents b) = map Some header" "reception_buffer ch = b" "socket ch = s"
  shows "\<exists>s' b'. receive_payload ch h n = Some (0, ch\<lparr>socket := s', reception_buffer := b'\<rparr>, h) \<and>
    rx s' = rest \<and> tx s' = tx s \<and> tx_outcomes s' = tx_outcomes s \<and> harmless (rx_outcomes s') \<and>
    buf_ok b' \<and> contents b' = map Some (header @ payload)"
proof -
  have sz: "unat (bsize b) = 5 + unat n"
    using assms(2) unat_bounds(3)[of n] by (simp add: unat_word_ariths)
  from assms(1) obtain m k where m: "bdata b = Live m" "length m = unat (bcapacity b)" "k < 64"
    "unat (bcapacity b) = 2 ^ k" "contents b = take (unat (bsize b)) m"
    using sz by (cases rule: buf_ok_cases) auto
  have fits: "5 + unat n \<le> length m" using buf_ok_size_le[OF assms(1)] sz m(2) by simp
  obtain s' where r: "lttcomm_recv_unix_sock s m 5 (unat n) =
      Some (int (unat n), take 5 m @ map Some (take (unat n) (rx s)) @ drop (5 + unat n) m, s')"
    "rx s' = drop (unat n) (rx s)" "harmless (rx_outcomes s')" "tx s' = tx s" "tx_outcomes s' = tx_outcomes s"
    using recv_all[OF assms(3), of "unat n" 5 m] assms(4,5) fits by auto
  let ?m = "take 5 m @ map Some payload @ drop (5 + unat n) m"
  let ?b = "b\<lparr>bdata := Live ?m\<rparr>"
  have h: "take 5 m = map Some header" using assms(6) m(5) sz by (simp add: min_def)
  have len: "length header = 5" using arg_cong[OF h, of length] fits by simp
  have "buf_ok ?b" using assms(1,5) m fits by (auto simp: buf_ok_def)
  moreover have "contents ?b = map Some (header @ payload)"
    using h sz assms(5) len by (simp add: contents_def)
  ultimately show ?thesis
    using r m(1) assms(4,5,7,8) by (auto simp: receive_payload_def)
qed

lemma receive_message_ok:
  assumes "ready ch h" "rx (socket ch) = message t payload @ rest" "length payload \<le> 65536"
  shows "\<exists>ch' h'. receive_message ch h = Some (0, ch', h') \<and> received_message ch (message t payload) rest ch' \<and> ready ch' h'"
proof -
  let ?n = "of_nat (length payload) :: u32" and ?s = "socket ch"
  have n: "unat ?n = length payload" using assms(3) by (simp add: unat_of_nat)
  note r = assms(1)[unfolded ready_def]
  obtain b0 h0 where b0: "set_size_buffer ch h 0 = Some (0, ch\<lparr>reception_buffer := b0\<rparr>, h0)" "buf_ok b0" "bsize b0 = 0"
    "outcomes h0 = []" using set_size_buffer_ok[of ch h 0] r by auto
  let ?hd = "message_header t ?n"
  obtain s1 where s1: "lttcomm_recv_unix_sock ?s (replicate 5 None) 0 5 = Some (5, map Some ?hd, s1)"
    "rx s1 = payload @ rest" "harmless (rx_outcomes s1)" "tx s1 = tx ?s" "tx_outcomes s1 = tx_outcomes ?s"
    using recv_all[of ?s 5 0 "replicate 5 None"] r assms(2) by (auto simp: message_def)
  have e0: "contents b0 = []" using length_contents[OF b0(2)] b0(3) by simp
  obtain b1 h1 where b1: "lttng_dynamic_buffer_append h0 (Some b0) (Some (map Some ?hd)) 5 = Some (0, Some b1, h1)"
    "buf_ok b1" "bsize b1 = 5" "contents b1 = map Some ?hd"
    using append_ok[OF b0(2), of 5 "map Some ?hd" h0] zmalloc_ok[OF b0(4)] b0(3) e0 by auto
  have h1: "outcomes h1 = []" by (rule buffer_outcomes(3)[OF b1(1) b0(4)])
  let ?ch1 = "ch\<lparr>socket := s1, reception_buffer := b1\<rparr>"
  have sz: "unat (5 + ucast ?n :: size_t) \<le> 2 ^ 63" "bsize b1 \<le> 5 + ucast ?n"
    using assms(3) n by (simp_all add: unat_word_ariths b1(3) word_le_nat_alt)
  obtain b2 h2 where b2: "set_size_buffer ?ch1 h1 (5 + ucast ?n) = Some (0, ?ch1\<lparr>reception_buffer := b2\<rparr>, h2)" "buf_ok b2"
    "bsize b2 = 5 + ucast ?n" "outcomes h2 = []" "take 5 (contents b2) = map Some ?hd"
    using set_size_buffer_ok[of ?ch1 h1 "5 + ucast ?n"] b1 h1 sz by auto
  obtain s' b' where p: "receive_payload (?ch1\<lparr>reception_buffer := b2\<rparr>) h2 ?n =
      Some (0, ?ch1\<lparr>reception_buffer := b2\<rparr>\<lparr>socket := s', reception_buffer := b'\<rparr>, h2)" "rx s' = rest" "tx s' = tx s1"
    "tx_outcomes s' = tx_outcomes s1" "harmless (rx_outcomes s')" "buf_ok b'" "contents b' = map Some (?hd @ payload)"
    using receive_payload_ok[OF b2(2,3) s1(3,2) n[symmetric] b2(5), of "?ch1\<lparr>reception_buffer := b2\<rparr>" h2] by auto
  have "header_payload_size ?hd = ?n" using header_payload_size[of t ?n "[]"] by simp
  moreover have "\<not> 65536 < ?n" using n assms(3) by (simp add: word_less_nat_alt)
  ultimately have "receive_message ch h = Some (0, ch\<lparr>socket := s', reception_buffer := b'\<rparr>, h2)"
    using b0(1) s1(1) b1(1,3) b2(1) p(1) by (simp add: receive_message_def Let_def)
  then show ?thesis
    using p(2-7) s1(4,5) b2(4) r by (auto simp: received_message_def ready_def message_def)
qed

section \<open>Messages of the session daemon\<close>

abbreviation notification_message :: "lttng_notification \<Rightarrow> byte list" where
  "notification_message n \<equiv> message LTTNG_NOTIFICATION_CHANNEL_MESSAGE_TYPE_NOTIFICATION (notification_bytes (Some n))"

lemma message_block:
  assumes "received_message ch (message t payload) rest ch'" "ready ch' h" "length payload \<le> 65536"
  obtains m q where "bdata (reception_buffer ch') = Live m" "m = map Some (message t payload) @ q"
    "unat (bsize (reception_buffer ch')) = 5 + length payload"
proof -
  let ?b = "reception_buffer ch'"
  have c: "contents ?b = map Some (message t payload)" "buf_ok ?b"
    using assms(1,2) by (auto simp: received_message_def ready_def)
  then have sz: "unat (bsize ?b) = 5 + length payload"
    using length_contents[OF c(2)] by (simp add: message_def)
  from c(2) obtain m where m: "bdata ?b = Live m" "contents ?b = take (unat (bsize ?b)) m"
    using sz by (cases rule: buf_ok_cases) auto
  then have "m = map Some (message t payload) @ drop (unat (bsize ?b)) m"
    using c(1) append_take_drop_id[of "unat (bsize ?b)" m] by simp
  with that m(1) sz show thesis by blast
qed

lemma current_type:
  assumes "received_message ch (message t payload) rest ch'" "ready ch' h" "length payload \<le> 65536"
  shows "get_current_message_type ch' = Some (Some t)"
proof -
  obtain m q where m: "bdata (reception_buffer ch') = Live m" "m = map Some (message t payload) @ q"
    "unat (bsize (reception_buffer ch')) = 5 + length payload" by (rule message_block[OF assms])
  have "5 \<le> bsize (reception_buffer ch')" using m(3) by (simp add: word_le_nat_alt)
  with m(1,2) show ?thesis
    by (simp add: get_current_message_type_def block_cells_def rd_def message_def message_header_def)
qed

lemma create_current_notification:
  assumes "received_message ch (notification_message n) rest ch'" "ready ch' h" "sendable_notification (Some n)"
  shows "create_notification_from_current_message ch' h = Some (Some (received_notification (Some n)), h\<lparr>live := live h + 5\<rparr>)"
proof -
  let ?p = "notification_bytes (Some n)" and ?b = "reception_buffer ch'"
  have small: "length ?p < 2 ^ 16" "0 < length ?p"
    using notification.enc_bounded[OF assms(3)] by (auto simp: notification_bytes_def frame_def)
  then have "length ?p \<le> 65536" by simp
  then obtain m q where m: "bdata ?b = Live m"
      "m = map Some (message LTTNG_NOTIFICATION_CHANNEL_MESSAGE_TYPE_NOTIFICATION ?p) @ q"
      "unat (bsize ?b) = 5 + length ?p" by (rule message_block[OF assms(1,2)])
  let ?v = "\<lparr>vdata = Some 5, vsize = bsize ?b - 5\<rparr>"
  have sz: "unat (bsize ?b - 5) = length ?p" "\<not> bsize ?b < 5" "\<not> bsize ?b \<le> 5"
    using m(3) small(2) by (simp_all add: unat_sub_if' word_less_nat_alt word_le_nat_alt)
  have v: "lttng_buffer_view_from_dynamic_buffer (Some ?b) 5 (-1) = Some ?v"
    using m(1) sz(2) by (simp add: lttng_buffer_view_from_dynamic_buffer_def view_of_def)
  have "view_bytes m ?v = Some (?p @ [])"
    using sz(1) m(2) by (simp add: view_bytes_def message_def rd_bytes_def)
  from notification_parse[OF assms(3) _ this, of h] assms(2)
  have "lttng_notification_create_from_buffer h m (Some ?v) True =
      Some (int (length ?p), Some (received_notification (Some n)), h\<lparr>live := live h + 5\<rparr>)" by (simp add: ready_def)
  moreover have "of_int (int (length ?p)) = bsize ?b - 5"
    by (simp flip: sz(1))
  ultimately show ?thesis
    using v sz(3) m(1) by (simp add: create_notification_from_current_message_def Let_def block_cells_def)
qed

text \<open>Reception of the messages that come before a reply.\<close>

lemma receive_notification:
  assumes "ready ch h" "rx (socket ch) = notification_message n @ rest" "sendable_notification (Some n)"
    "length (pending_list ch) < 100"
  shows "\<exists>ch1 h1 ch2 h2. receive_message ch h = Some (0, ch1, h1) \<and> tx (socket ch2) = tx (socket ch) \<and>
    get_current_message_type ch1 = Some (Some LTTNG_NOTIFICATION_CHANNEL_MESSAGE_TYPE_NOTIFICATION) \<and>
    enqueue_notification_from_current_message ch1 h1 = Some (0, ch2, h2) \<and> ready ch2 h2 \<and> rx (socket ch2) = rest \<and>
    pending_list ch2 = Some (received_notification (Some n)) # pending_list ch"
proof -
  have small: "length (notification_bytes (Some n)) \<le> 65536" using notification.enc_bounded[OF assms(3)] by simp
  obtain ch1 h1 where r: "receive_message ch h = Some (0, ch1, h1)"
    "received_message ch (notification_message n) rest ch1" "ready ch1 h1"
    using receive_message_ok[OF assms(1,2) small] by blast
  have p: "pending_list ch1 = pending_list ch" "pending_count ch1 = pending_count ch" "rx (socket ch1) = rest"
    "tx (socket ch1) = tx (socket ch)"
    using r(2) by (auto simp: received_message_def)
  have c: "pending_count ch = of_nat (length (pending_list ch))" using assms(1) by (simp add: ready_def)
  have lt: "\<not> 100 \<le> pending_count ch1" using c assms(4) p by (simp add: word_le_nat_alt unat_of_nat)
  let ?h = "h1\<lparr>live := live h1 + 1\<rparr>"
  have z: "zmalloc h1 = (True, ?h)" using r(3) by (simp add: ready_def zmalloc_def)
  have "ready ch1 ?h" using r(3) by (simp add: ready_def)
  from create_current_notification[OF r(2) this assms(3)]
  have "enqueue_notification_from_current_message ch1 h1 =
      Some (0, ch1\<lparr>pending_list := Some (received_notification (Some n)) # pending_list ch1,
        pending_count := pending_count ch1 + 1\<rparr>, h1\<lparr>live := live h1 + 6\<rparr>)"
    using lt z by (simp add: enqueue_notification_from_current_message_def)
  moreover have "ready (ch1\<lparr>pending_list := Some (received_notification (Some n)) # pending_list ch1,
        pending_count := pending_count ch1 + 1\<rparr>) (h1\<lparr>live := live h1 + 6\<rparr>)"
    using r(3) assms(4) p c by (simp add: ready_def)
  ultimately show ?thesis using r current_type[OF r(2,3) small] p by auto
qed

lemma receive_reply:
  assumes "ready ch h" "rx (socket ch) = message LTTNG_NOTIFICATION_CHANNEL_MESSAGE_TYPE_COMMAND_REPLY [st] @ rest"
  shows "\<exists>ch' h'. receive_command_reply ch h = Some (0, Some (sint st), ch', h') \<and> ready ch' h' \<and>
    rx (socket ch') = rest \<and> tx (socket ch') = tx (socket ch) \<and> pending_list ch' = pending_list ch \<and>
    version_set ch' = version_set ch \<and> version_major ch' = version_major ch \<and> version_minor ch' = version_minor ch"
proof -
  let ?t = LTTNG_NOTIFICATION_CHANNEL_MESSAGE_TYPE_COMMAND_REPLY
  obtain ch1 h1 where r: "receive_message ch h = Some (0, ch1, h1)" "received_message ch (message ?t [st]) rest ch1" "ready ch1 h1"
    using receive_message_ok[OF assms] by auto
  obtain m q where m: "bdata (reception_buffer ch1) = Live m" "m = map Some (message ?t [st]) @ q"
    "unat (bsize (reception_buffer ch1)) = 5 + length [st]" by (rule message_block[OF r(2,3)]) simp
  have "rd m 5 = Some st" "\<not> bsize (reception_buffer ch1) < 6"
    using m(2,3) by (simp_all add: rd_def message_def message_header_def bytes_u32_expand word_less_nat_alt)
  then have "read_reply ch1 = Some (0, Some (sint st))" using m(1) by (simp add: read_reply_def block_cells_def)
  with r current_type[OF r(2,3)] show ?thesis
    by (auto simp: receive_command_reply.simps[of ch] received_message_def)
qed

lemma receive_interleaved:
  assumes "list_all (\<lambda>n. sendable_notification (Some n)) ns" "length ns + length (pending_list ch) \<le> 100" "ready ch h"
    "rx (socket ch) = concat (map notification_message ns) @ message LTTNG_NOTIFICATION_CHANNEL_MESSAGE_TYPE_COMMAND_REPLY [st] @ rest"
  shows "\<exists>ch' h'. receive_command_reply ch h = Some (0, Some (sint st), ch', h') \<and> ready ch' h' \<and> rx (socket ch') = rest \<and>
    tx (socket ch') = tx (socket ch) \<and> pending_list ch' = rev (map (\<lambda>n. Some (received_notification (Some n))) ns) @ pending_list ch"
  using assms
proof (induction ns arbitrary: ch h)
  case Nil
  then show ?case using receive_reply[of ch h st rest] by auto
next
  case (Cons n ns)
  let ?rest = "concat (map notification_message ns) @ message LTTNG_NOTIFICATION_CHANNEL_MESSAGE_TYPE_COMMAND_REPLY [st] @ rest"
  obtain ch1 h1 ch2 h2 where n: "receive_message ch h = Some (0, ch1, h1)"
    "get_current_message_type ch1 = Some (Some LTTNG_NOTIFICATION_CHANNEL_MESSAGE_TYPE_NOTIFICATION)"
    "enqueue_notification_from_current_message ch1 h1 = Some (0, ch2, h2)" "ready ch2 h2" "rx (socket ch2) = ?rest"
    "pending_list ch2 = Some (received_notification (Some n)) # pending_list ch" "tx (socket ch2) = tx (socket ch)"
    using receive_notification[of ch h n ?rest] Cons.prems by auto
  then have "receive_command_reply ch h = receive_command_reply ch2 h2"
    by (simp add: receive_command_reply.simps[of ch] handle_interleaved_def)
  with Cons.IH[of ch2 h2] Cons.prems n(4-7) show ?case by simp
qed

section \<open>Commands on a condition\<close>

lemma command_buffer:
  assumes "sendable_condition c"
  shows "lttng_condition_validate (Some c)"
    "lttng_condition_serialize (Some c) None [] = Some (int (length (condition_bytes c)), [])"
    "\<exists>m. wr_bytes (replicate (length (condition_bytes c) + 5) (Some 0)) 0 (message_header t (of_nat (length (condition_bytes c)))) = Some m \<and>
      lttng_condition_serialize (Some c) (Some 5) m =
        Some (int (length (condition_bytes c)), map Some (message t (condition_bytes c)))"
proof -
  let ?b = "condition_bytes c" and ?hd = "message_header t (of_nat (length (condition_bytes c)))"
  show "lttng_condition_validate (Some c)" using assms by (simp add: sendable_condition_def)
  show "lttng_condition_serialize (Some c) None [] = Some (int (length ?b), [])"
    using condition.ser_query[of "Some c"] assms by simp
  let ?m = "map Some ?hd @ replicate (length ?b) (Some 0)"
  have "patch ?m 5 ?b = map Some (message t ?b)" by (simp add: patch_def message_def)
  then have "lttng_condition_serialize (Some c) (Some 5) ?m = Some (int (length ?b), map Some (message t ?b))"
    using condition.ser_write[of "Some c" 5 ?m] assms by simp
  moreover have "wr_bytes (replicate (length ?b + 5) (Some 0)) 0 ?hd = Some ?m" by (simp add: wr_bytes_split)
  ultimately show "\<exists>m. wr_bytes (replicate (length ?b + 5) (Some 0)) 0 ?hd = Some m \<and>
      lttng_condition_serialize (Some c) (Some 5) m = Some (int (length ?b), map Some (message t ?b))" by blast
qed

lemma send_condition_ok:
  assumes "sendable_condition c" "outcomes h = []"
    "t = LTTNG_NOTIFICATION_CHANNEL_MESSAGE_TYPE_SUBSCRIBE \<or> t = LTTNG_NOTIFICATION_CHANNEL_MESSAGE_TYPE_UNSUBSCRIBE"
  shows "send_condition_command (Some ch) t (Some c) h = do {
      (status, ch, h) \<leftarrow> send_command_buffer ch (message t (condition_bytes c)) (h\<lparr>live := live h + 1\<rparr>);
      Some (status, Some ch, c_free h)
    }"
proof -
  have n: "length (condition_bytes c) < 4294967295" using condition.enc_bounded[of "Some c"] assms(1) by simp
  obtain m where "wr_bytes (replicate (length (condition_bytes c) + 5) (Some 0)) 0 (message_header t (of_nat (length (condition_bytes c)))) = Some m"
    "lttng_condition_serialize (Some c) (Some 5) m = Some (int (length (condition_bytes c)), map Some (message t (condition_bytes c)))"
    using command_buffer(3)[OF assms(1)] by blast
  with command_buffer(1,2)[OF assms(1)] assms(2,3) n show ?thesis
    by (simp add: send_condition_command_def zmalloc_def)
qed

text \<open>
  A subscription ends with the reply of the session daemon, whatever notifications come before it: they
  are kept, up to the limit of the channel, and will be given to the client newest first.
\<close>

lemma channel_subscribe:
  assumes "ready ch h" "harmless (tx_outcomes (socket ch))" "sendable_condition c"
    and "list_all (\<lambda>n. sendable_notification (Some n)) ns" "length ns + length (pending_list ch) \<le> 100"
    and "rx (socket ch) = concat (map notification_message ns) @
      message LTTNG_NOTIFICATION_CHANNEL_MESSAGE_TYPE_COMMAND_REPLY [st] @ rest"
  shows "\<exists>ch' h'. lttng_notification_channel_subscribe (Some ch) (Some c) h = Some (sint st, Some ch', h') \<and>
    tx (socket ch') = tx (socket ch) @ message LTTNG_NOTIFICATION_CHANNEL_MESSAGE_TYPE_SUBSCRIBE (condition_bytes c) \<and>
    rx (socket ch') = rest \<and> ready ch' h' \<and>
    pending_list ch' = rev (map (\<lambda>n. Some (received_notification (Some n))) ns) @ pending_list ch"
proof -
  let ?cmd = "message LTTNG_NOTIFICATION_CHANNEL_MESSAGE_TYPE_SUBSCRIBE (condition_bytes c)"
  let ?h = "h\<lparr>live := live h + 1\<rparr>"
  obtain s where s: "lttcomm_send_unix_sock (socket ch) ?cmd = (int (length ?cmd), s)" "tx s = tx (socket ch) @ ?cmd"
    "rx s = rx (socket ch)" "rx_outcomes s = rx_outcomes (socket ch)"
    using send_loop_complete[OF assms(2), of ?cmd "length ?cmd"] by (auto simp: lttcomm_send_unix_sock_def)
  have "ready (ch\<lparr>socket := s\<rparr>) ?h" using assms(1) s(4) by (simp add: ready_def)
  from receive_interleaved[OF assms(4) _ this, of st rest] assms(5,6) s(2,3) obtain ch' h' where
    r: "receive_command_reply (ch\<lparr>socket := s\<rparr>) ?h = Some (0, Some (sint st), ch', h')" "ready ch' h'"
    "rx (socket ch') = rest" "tx (socket ch') = tx (socket ch) @ ?cmd"
    "pending_list ch' = rev (map (\<lambda>n. Some (received_notification (Some n))) ns) @ pending_list ch"
    by auto
  have "lttng_notification_channel_subscribe (Some ch) (Some c) h = Some (sint st, Some ch', c_free h')"
    using send_condition_ok[OF assms(3)] assms(1) s(1) r(1)
    by (simp add: lttng_notification_channel_subscribe_def send_command_buffer_def ready_def)
  with r show ?thesis by (auto simp: ready_def c_free_def)
qed

section \<open>Properties\<close>

text \<open>
  C14: a notification that the session daemon sends is the one the client gets. Whatever way the
  stream is cut and interrupted, the next message is received completely, it is parsed to the
  notification its sender serialized (with the threshold as the wire carries it), and the stream
  is left at the message after it.
\<close>

theorem channel_next_notification:
  assumes "ready ch h" "pending_list ch = []" "sendable_notification (Some n)"
    and "rx (socket ch) = notification_message n @ rest"
  shows "\<exists>ch' h'. lttng_notification_channel_get_next_notification (Some ch) True h =
      Some (STATUS_OK, Some (received_notification (Some n)), Some ch', h') \<and> rx (socket ch') = rest \<and> ready ch' h'"
proof -
  have small: "length (notification_bytes (Some n)) \<le> 65536" using notification.enc_bounded[OF assms(3)] by simp
  obtain ch' h' where r: "receive_message ch h = Some (0, ch', h')"
    "received_message ch (notification_message n) rest ch'" "ready ch' h'"
    using receive_message_ok[OF assms(1,4) small] by blast
  have "pending_count ch = 0" using assms(1,2) by (simp add: ready_def)
  moreover have "rx (socket ch') = rest" using r(2) by (auto simp: received_message_def)
  ultimately show ?thesis
    using r(1,3) current_type[OF r(2,3) small] create_current_notification[OF r(2,3) assms(3)]
    by (simp add: lttng_notification_channel_get_next_notification_def ready_def)
qed

definition sample_channel :: "byte list \<Rightarrow> outcome list \<Rightarrow> lttng_notification_channel" where
  "sample_channel stream parts = \<lparr>socket = \<lparr>rx = stream, rx_outcomes = parts, tx = [], tx_outcomes = []\<rparr>,
     pending_count = 0, pending_list = [], reception_buffer = \<lparr>bdata = Null, bsize = 0, bcapacity = 0\<rparr>,
     version_set = True, version_major = 1, version_minor = 0\<rparr>"

lemma sample_channel_ready: "harmless parts \<Longrightarrow> ready (sample_channel stream parts) \<lparr>outcomes = [], live = 0\<rparr>"
  by (simp add: ready_def sample_channel_def buf_ok_def)

theorem channel_next_notification_witness:
  "\<exists>ch' h'. lttng_notification_channel_get_next_notification
      (Some (sample_channel (notification_message sample_notification @ [7]) [Part 1, Interrupted, Part 0])) True
      \<lparr>outcomes = [], live = 0\<rparr> =
    Some (0, Some (received_notification (Some sample_notification)), Some ch', h') \<and> rx (socket ch') = [7]"
  using channel_next_notification[OF sample_channel_ready _ sample_notification_sendable,
      of "[Part 1, Interrupted, Part 0]" "notification_message sample_notification @ [7]" "[7]"]
  by (auto simp: harmless_def sample_channel_def)

text \<open>
  A command that cannot be allocated is reported as successful. When the first allocation of a
  subscription to a condition that can be sent fails, the client gets the status \<open>OK\<close> although nothing
  was sent and no reply was read.
\<close>

theorem channel_subscribe_lost:
  assumes "sendable_condition c" "outcomes h = False # os"
  shows "lttng_notification_channel_subscribe (Some ch) (Some c) h = Some (STATUS_OK, Some ch, h\<lparr>outcomes := os\<rparr>)"
proof -
  have n: "length (condition_bytes c) < 4294967295" using condition.enc_bounded[of "Some c"] assms(1) by simp
  with command_buffer(1,2)[OF assms(1)] assms(2) show ?thesis
    by (simp add: lttng_notification_channel_subscribe_def send_condition_command_def zmalloc_def)
qed

theorem channel_subscribe_lost_witness:
  "lttng_notification_channel_subscribe (Some (sample_channel [] [])) (Some sample_condition) \<lparr>outcomes = [False], live = 0\<rparr> =
    Some (0, Some (sample_channel [] []), \<lparr>outcomes = [], live = 0\<rparr>)"
  using channel_subscribe_lost[OF sample_sendable(1), of "\<lparr>outcomes = [False], live = 0\<rparr>" "[]"] by simp

end
