(* ===== verification/Hash_Utils.thy ===== *)
theory Hash_Utils
  imports LTT_Prelude
begin

text \<open>
  The hash functions of src/common/hashtable/utils.c (little-endian, 64-bit \<open>long\<close>). A key is the list
  of the bytes that start at its address; \<open>hashlittle\<close> reads it by words of 4, 2 or 1 bytes depending on
  the alignment of the address, and the 4-byte reads may go past the length of the key.
\<close>

unbundle bit_operations_syntax

section \<open>Mixing\<close>

type_synonym hash_state = "u32 \<times> u32 \<times> u32"

definition rot :: "u32 \<Rightarrow> nat \<Rightarrow> u32" where
  "rot x k = push_bit k x OR drop_bit (32 - k) x"

definition mix :: "hash_state \<Rightarrow> hash_state" where
  "mix = (\<lambda>(a, b, c).
     let a = a - c; a = a XOR rot c 4; c = c + b;
         b = b - a; b = b XOR rot a 6; a = a + c;
         c = c - b; c = c XOR rot b 8; b = b + a;
         a = a - c; a = a XOR rot c 16; c = c + b;
         b = b - a; b = b XOR rot a 19; a = a + c;
         c = c - b; c = c XOR rot b 4; b = b + a
     in (a, b, c))"

definition final :: "hash_state \<Rightarrow> hash_state" where
  "final = (\<lambda>(a, b, c).
     let c = c XOR b; c = c - rot b 14;
         a = a XOR c; a = a - rot c 11;
         b = b XOR a; b = b - rot a 25;
         c = c XOR b; c = c - rot b 16;
         a = a XOR c; a = a - rot c 4;
         b = b XOR a; b = b - rot a 14;
         c = c XOR b; c = c - rot b 24
     in (a, b, c))"

section \<open>Arrays of words\<close>

fun hashword_loop :: "hash_state \<Rightarrow> u32 list \<Rightarrow> hash_state" where
  "hashword_loop (a, b, c) (k0 # k1 # k2 # k3 # k) = hashword_loop (mix (a + k0, b + k1, c + k2)) (k3 # k)"
| "hashword_loop (a, b, c) [k0, k1, k2] = final (a + k0, b + k1, c + k2)"
| "hashword_loop (a, b, c) [k0, k1] = final (a + k0, b + k1, c)"
| "hashword_loop (a, b, c) [k0] = final (a + k0, b, c)"
| "hashword_loop (a, b, c) [] = (a, b, c)"

definition hashword :: "u32 list \<Rightarrow> u32 \<Rightarrow> u32" where
  "hashword k initval =
     (let s = 0xdeadbeef + push_bit 2 (of_nat (length k)) + initval;
          (a, b, c) = hashword_loop (s, s, s) k
      in c)"

text \<open>The new values of \<open>*pc\<close> and \<open>*pb\<close>.\<close>

definition hashword2 :: "u32 list \<Rightarrow> u32 \<Rightarrow> u32 \<Rightarrow> u32 \<times> u32" where
  "hashword2 k pc pb =
     (let s = 0xdeadbeef + push_bit 2 (of_nat (length k)) + pc;
          (a, b, c) = hashword_loop (s, s, s + pb) k
      in (c, b))"

section \<open>Arrays of bytes\<close>

definition rd32 :: "byte list \<Rightarrow> nat \<Rightarrow> u32" where
  "rd32 k i = of_nat (le_val (take 4 (drop (4 * i) k)))"

definition rd16 :: "byte list \<Rightarrow> nat \<Rightarrow> u32" where
  "rd16 k i = of_nat (le_val (take 2 (drop (2 * i) k)))"

definition rd8 :: "byte list \<Rightarrow> nat \<Rightarrow> u32" where
  "rd8 k i = of_nat (le_val (take 1 (drop i k)))"

text \<open>
  The three ways to read. The loop stops with at most 12 bytes left; the rest of the key is added by
  the switch, which returns at once when nothing is left (\<open>None\<close>).
\<close>

fun block32 :: "hash_state \<Rightarrow> byte list \<Rightarrow> hash_state" where
  "block32 (a, b, c) k = (a + rd32 k 0, b + rd32 k 1, c + rd32 k 2)"

fun rest32 :: "hash_state \<Rightarrow> byte list \<Rightarrow> nat \<Rightarrow> hash_state option" where
  "rest32 (a, b, c) k n =
     (if n = 12 then Some (a + rd32 k 0, b + rd32 k 1, c + rd32 k 2)
      else if n = 11 then Some (a + rd32 k 0, b + rd32 k 1, c + (rd32 k 2 AND 0xffffff))
      else if n = 10 then Some (a + rd32 k 0, b + rd32 k 1, c + (rd32 k 2 AND 0xffff))
      else if n = 9 then Some (a + rd32 k 0, b + rd32 k 1, c + (rd32 k 2 AND 0xff))
      else if n = 8 then Some (a + rd32 k 0, b + rd32 k 1, c)
      else if n = 7 then Some (a + rd32 k 0, b + (rd32 k 1 AND 0xffffff), c)
      else if n = 6 then Some (a + rd32 k 0, b + (rd32 k 1 AND 0xffff), c)
      else if n = 5 then Some (a + rd32 k 0, b + (rd32 k 1 AND 0xff), c)
      else if n = 4 then Some (a + rd32 k 0, b, c)
      else if n = 3 then Some (a + (rd32 k 0 AND 0xffffff), b, c)
      else if n = 2 then Some (a + (rd32 k 0 AND 0xffff), b, c)
      else if n = 1 then Some (a + (rd32 k 0 AND 0xff), b, c)
      else None)"

fun block16 :: "hash_state \<Rightarrow> byte list \<Rightarrow> hash_state" where
  "block16 (a, b, c) k =
     (a + (rd16 k 0 + push_bit 16 (rd16 k 1)),
      b + (rd16 k 2 + push_bit 16 (rd16 k 3)),
      c + (rd16 k 4 + push_bit 16 (rd16 k 5)))"

fun rest16 :: "hash_state \<Rightarrow> byte list \<Rightarrow> nat \<Rightarrow> hash_state option" where
  "rest16 (a, b, c) k n =
     (let a4 = a + (rd16 k 0 + push_bit 16 (rd16 k 1)); b4 = b + (rd16 k 2 + push_bit 16 (rd16 k 3)) in
      if n = 12 then Some (a4, b4, c + (rd16 k 4 + push_bit 16 (rd16 k 5)))
      else if n = 11 then Some (a4, b4, c + push_bit 16 (rd8 k 10) + rd16 k 4)
      else if n = 10 then Some (a4, b4, c + rd16 k 4)
      else if n = 9 then Some (a4, b4, c + rd8 k 8)
      else if n = 8 then Some (a4, b4, c)
      else if n = 7 then Some (a4, b + push_bit 16 (rd8 k 6) + rd16 k 2, c)
      else if n = 6 then Some (a4, b + rd16 k 2, c)
      else if n = 5 then Some (a4, b + rd8 k 4, c)
      else if n = 4 then Some (a4, b, c)
      else if n = 3 then Some (a + push_bit 16 (rd8 k 2) + rd16 k 0, b, c)
      else if n = 2 then Some (a + rd16 k 0, b, c)
      else if n = 1 then Some (a + rd8 k 0, b, c)
      else None)"

fun block8 :: "hash_state \<Rightarrow> byte list \<Rightarrow> hash_state" where
  "block8 (a, b, c) k =
     (a + rd8 k 0 + push_bit 8 (rd8 k 1) + push_bit 16 (rd8 k 2) + push_bit 24 (rd8 k 3),
      b + rd8 k 4 + push_bit 8 (rd8 k 5) + push_bit 16 (rd8 k 6) + push_bit 24 (rd8 k 7),
      c + rd8 k 8 + push_bit 8 (rd8 k 9) + push_bit 16 (rd8 k 10) + push_bit 24 (rd8 k 11))"

text \<open>The cases fall through.\<close>

fun rest8 :: "hash_state \<Rightarrow> byte list \<Rightarrow> nat \<Rightarrow> hash_state option" where
  "rest8 (a, b, c) k n =
     (if n = 0 then None
      else let c = (if n \<ge> 12 then c + push_bit 24 (rd8 k 11) else c);
               c = (if n \<ge> 11 then c + push_bit 16 (rd8 k 10) else c);
               c = (if n \<ge> 10 then c + push_bit 8 (rd8 k 9) else c);
               c = (if n \<ge> 9 then c + rd8 k 8 else c);
               b = (if n \<ge> 8 then b + push_bit 24 (rd8 k 7) else b);
               b = (if n \<ge> 7 then b + push_bit 16 (rd8 k 6) else b);
               b = (if n \<ge> 6 then b + push_bit 8 (rd8 k 5) else b);
               b = (if n \<ge> 5 then b + rd8 k 4 else b);
               a = (if n \<ge> 4 then a + push_bit 24 (rd8 k 3) else a);
               a = (if n \<ge> 3 then a + push_bit 16 (rd8 k 2) else a);
               a = (if n \<ge> 2 then a + push_bit 8 (rd8 k 1) else a);
               a = a + rd8 k 0
           in Some (a, b, c))"

function hashlittle_loop ::
  "(hash_state \<Rightarrow> byte list \<Rightarrow> hash_state) \<Rightarrow> (hash_state \<Rightarrow> byte list \<Rightarrow> nat \<Rightarrow> hash_state option) \<Rightarrow>
     hash_state \<Rightarrow> byte list \<Rightarrow> nat \<Rightarrow> u32"
where
  "hashlittle_loop block rest s k n =
     (if n > 12 then hashlittle_loop block rest (mix (block s k)) (drop 12 k) (n - 12)
      else case rest s k n of
        None \<Rightarrow> snd (snd s)
      | Some s \<Rightarrow> snd (snd (final s)))"
  by pat_completeness auto
termination
  by (relation "measure (\<lambda>(_, _, _, _, n). n)") auto

declare hashlittle_loop.simps [simp del]

text \<open>\<open>align\<close> is the address of the key modulo 4.\<close>

definition hashlittle :: "nat \<Rightarrow> byte list \<Rightarrow> nat \<Rightarrow> u32 \<Rightarrow> u32" where
  "hashlittle align k len initval =
     (let s = 0xdeadbeef + of_nat len + initval in
      if align mod 4 = 0 then hashlittle_loop block32 rest32 (s, s, s) k len
      else if align mod 2 = 0 then hashlittle_loop block16 rest16 (s, s, s) k len
      else hashlittle_loop block8 rest8 (s, s, s) k len)"

section \<open>Keys\<close>

definition hash_key_u64 :: "u64 \<Rightarrow> u64 \<Rightarrow> u64" where
  "hash_key_u64 key seed =
     (let (c, b) = hashword2 [ucast key, ucast (drop_bit 32 key)] (ucast seed) (ucast (drop_bit 32 seed))
      in ucast c OR push_bit 32 (ucast b))"

definition hash_key_ulong :: "u64 \<Rightarrow> u64 \<Rightarrow> u64" where
  "hash_key_ulong key seed = hash_key_u64 key seed"

definition hash_key_str :: "nat \<Rightarrow> byte list \<Rightarrow> byte list \<Rightarrow> u64 \<Rightarrow> u64" where
  "hash_key_str align key beyond seed = ucast (hashlittle align (key @ 0 # beyond) (length key) (ucast seed))"

definition hash_key_two_u64 :: "u64 \<times> u64 \<Rightarrow> u64 \<Rightarrow> u64" where
  "hash_key_two_u64 key seed = hash_key_u64 (fst key) seed XOR hash_key_u64 (snd key) seed"

definition hash_match_key_ulong :: "u64 \<Rightarrow> u64 \<Rightarrow> int" where
  "hash_match_key_ulong key1 key2 = (if key1 = key2 then 1 else 0)"

definition hash_match_key_u64 :: "u64 \<Rightarrow> u64 \<Rightarrow> int" where
  "hash_match_key_u64 key1 key2 = (if key1 = key2 then 1 else 0)"

definition hash_match_key_str :: "byte list \<Rightarrow> byte list \<Rightarrow> int" where
  "hash_match_key_str key1 key2 = (if key1 = key2 then 1 else 0)"

definition hash_match_key_two_u64 :: "u64 \<times> u64 \<Rightarrow> u64 \<times> u64 \<Rightarrow> int" where
  "hash_match_key_two_u64 k1 k2 =
     (if hash_match_key_u64 (fst k1) (fst k2) \<noteq> 0 \<and> hash_match_key_u64 (snd k1) (snd k2) \<noteq> 0 then 1 else 0)"

section \<open>The ways to read agree\<close>

lemma le_val_take_add: "le_val (take (m + n) k) = le_val (take m k) + 256 ^ m * le_val (take n (drop m k))"
proof (induction m arbitrary: k)
  case (Suc m)
  then show ?case by (cases k) (simp_all add: algebra_simps)
qed simp

lemma le_val_take_mod: "le_val (take n k) = le_val (take (n + j) k) mod 256 ^ n"
proof -
  have "le_val (take n k) < 256 ^ length (take n k)" by (rule le_val_bound)
  also have "\<dots> \<le> (256 :: nat) ^ n" by (rule power_increasing) auto
  finally show ?thesis by (simp add: le_val_take_add)
qed

text \<open>The bytes of a key as words.\<close>

definition word_at :: "nat \<Rightarrow> byte list \<Rightarrow> nat \<Rightarrow> u32" where
  "word_at n k i = of_nat (le_val (take n (drop i k)))"

lemma word_at_add: "word_at (m + n) k i = word_at m k i + push_bit (8 * m) (word_at n k (i + m))"
  by (simp add: word_at_def le_val_take_add push_bit_eq_mult power_mult add.commute)

lemma word_at_mask: "n \<le> 4 \<Longrightarrow> word_at 4 k i AND mask (8 * n) = word_at n k i"
  using le_val_take_mod[of n "drop i k" "4 - n"]
  by (simp add: word_at_def power_mult take_bit_of_nat take_bit_nat_def flip: take_bit_eq_mask)

lemma reads: "rd32 k i = word_at 4 k (4 * i)" "rd16 k i = word_at 2 k (2 * i)" "rd8 k i = word_at 1 k i"
  by (simp_all add: rd32_def rd16_def rd8_def word_at_def)

lemma masks: "word_at 4 k i AND 0xffffff = word_at 3 k i" "word_at 4 k i AND 0xffff = word_at 2 k i"
  "word_at 4 k i AND 0xff = word_at 1 k i"
  using word_at_mask[of 3 k i] word_at_mask[of 2 k i] word_at_mask[of 1 k i] by (simp_all add: mask_eq_exp_minus_1)

lemma word_at_bytes:
  "word_at 2 k i = word_at 1 k i + push_bit 8 (word_at 1 k (i + 1))"
  "word_at 3 k i = word_at 1 k i + push_bit 8 (word_at 1 k (i + 1)) + push_bit 16 (word_at 1 k (i + 2))"
  "word_at 4 k i = word_at 1 k i + push_bit 8 (word_at 1 k (i + 1)) + push_bit 16 (word_at 1 k (i + 2)) +
     push_bit 24 (word_at 1 k (i + 3))"
  using word_at_add[of 1 1 k i] word_at_add[of 2 1 k i] word_at_add[of 3 1 k i] by (simp_all add: numeral_eq_Suc)

lemma block_agree: "block32 = block8" "block16 = block8"
  by (intro ext; simp add: split_paired_all reads word_at_bytes push_bit_add push_bit_push_bit add.assoc del: add_2_eq_Suc')+

lemma upto_12: "(n :: nat) \<le> 12 \<Longrightarrow> n \<in> {0, 1, 2, 3, 4, 5, 6, 7, 8, 9, 10, 11, 12}"
  unfolding insert_iff empty_iff by presburger

lemma rest_agree:
  assumes "n \<le> 12"
  shows "rest32 s k n = rest8 s k n" "rest16 s k n = rest8 s k n"
proof -
  obtain a b c where s: "s = (a, b, c)" by (cases s)
  note sums = word_at_bytes push_bit_add push_bit_push_bit add.assoc add.commute add.left_commute
  show "rest32 s k n = rest8 s k n"
    using upto_12[OF assms] unfolding s
    by (elim insertE emptyE; simp only: rest32.simps reads masks)
      (simp_all add: reads sums del: add_2_eq_Suc')
  show "rest16 s k n = rest8 s k n"
    using upto_12[OF assms] unfolding s
    by (elim insertE emptyE) (simp_all add: reads sums Let_def del: add_2_eq_Suc')
qed

lemma loop_rest:
  assumes "\<And>s k n. n \<le> 12 \<Longrightarrow> r s k n = rest8 s k n"
  shows "hashlittle_loop block8 r s k n = hashlittle_loop block8 rest8 s k n"
proof (induction n arbitrary: s k rule: less_induct)
  case (less n)
  show ?case
  proof (cases "12 < n")
    case True
    with less[of "n - 12"] show ?thesis by (simp add: hashlittle_loop.simps[of _ _ s k n] del: block8.simps)
  next
    case False
    then show ?thesis using assms[of n s k] by (simp add: hashlittle_loop.simps[of _ _ s k n] del: rest8.simps)
  qed
qed

lemmas loop_agree = loop_rest[of rest32, OF rest_agree(1)] loop_rest[of rest16, OF rest_agree(2)]

text \<open>Only the bytes of the key are used.\<close>

lemma rd8_append: "i < length k \<Longrightarrow> rd8 (k @ pad) i = rd8 k i"
  by (simp add: rd8_def)

lemma loop_append: "hashlittle_loop block8 rest8 s (k @ pad) (length k) = hashlittle_loop block8 rest8 s k (length k)"
proof (induction "length k" arbitrary: s k rule: less_induct)
  case less
  obtain a b c where s: "s = (a, b, c)" by (cases s)
  show ?case
  proof (cases "12 < length k")
    case True
    then have "rd8 (k @ pad) i = rd8 k i" if "i < 12" for i using that by (simp add: rd8_append)
    then have "block8 s (k @ pad) = block8 s k" unfolding s by simp
    with True less[of "drop 12 k"] show ?thesis
      by (simp add: hashlittle_loop.simps[of _ _ s _ "length k"] del: block8.simps)
  next
    case False
    have "rest8 s (k @ pad) (length k) = rest8 s k (length k)"
      unfolding s by (auto simp: rd8_append Let_def)
    with False show ?thesis by (simp add: hashlittle_loop.simps[of _ _ s _ "length k"] del: rest8.simps)
  qed
qed

lemma hashlittle_bytes: "hashlittle align (key @ pad) (length key) initval = hashlittle 1 key (length key) initval"
  by (simp add: hashlittle_def Let_def block_agree loop_agree loop_append)

section \<open>Properties\<close>

text \<open>
  C34: the hash of a string depends on its characters only. The three ways to read a key, chosen by the
  alignment of its address, give the same value, and the bytes past the end of the key that the
  4-byte reads fetch have no influence; so equal names hash alike wherever they are stored.
\<close>

theorem hash_key_str_placement:
  "hash_key_str align key beyond seed = hash_key_str align' key beyond' seed"
  by (simp add: hash_key_str_def hashlittle_bytes)

end
