(* ===== verification/Condition_Evaluation.thy ===== *)
theory Condition_Evaluation
  imports Notification Hash_Utils
begin

text \<open>
  The functions of \<open>src/bin/lttng-sessiond/notification-thread-events.c\<close> that look at conditions,
  channels and samples only: hashes, matching of triggers and channels, and the evaluation of
  conditions on the samples of a channel.
\<close>

section \<open>Channels and samples\<close>

record channel_key =
  chan_key :: u64
  chan_domain :: lttng_domain_type

record channel_info =
  info_key :: channel_key
  info_session_name :: "byte list option"
  info_uid :: u32
  info_gid :: u32
  info_channel_name :: "byte list option"
  info_capacity :: u64

record channel_state_sample =
  sample_key :: channel_key
  highest_usage :: u64
  lowest_usage :: u64

section \<open>Hashes\<close>

text \<open>
  The hash of a string does not depend on its placement in memory; it is computed here for an aligned
  string with nothing behind it.
\<close>

definition lttng_condition_buffer_usage_hash :: "u64 \<Rightarrow> cond \<Rightarrow> u64 run" where
  "lttng_condition_buffer_usage_hash seed condition = do {
     let hash = 0;
     let hash = (case session_name condition of None \<Rightarrow> hash | Some s \<Rightarrow> hash XOR hash_key_str 0 s [] seed);
     let hash = (case channel_name condition of None \<Rightarrow> hash | Some s \<Rightarrow> hash XOR hash_key_str 0 s [] seed);
     let hash = (if domain_set condition
                 then hash XOR hash_key_ulong (word_of_int (domain_type_val (domain_type condition))) seed else hash);
     if threshold_ratio_set condition then do {
       val \<leftarrow> double_to_u64 (d_mul (threshold_ratio_value condition) (double_of_nat UINT32_MAX));
       Some (hash XOR hash_key_u64 val seed)
     }
     else if threshold_ratio_set condition
     then Some (hash XOR hash_key_u64 (threshold_bytes_value condition) seed)
     else Some hash
   }"

definition lttng_condition_hash :: "u64 \<Rightarrow> cond \<Rightarrow> u64 run" where
  "lttng_condition_hash seed condition =
     (if ctype (parent condition) = LTTNG_CONDITION_TYPE_BUFFER_USAGE_LOW \<or>
         ctype (parent condition) = LTTNG_CONDITION_TYPE_BUFFER_USAGE_HIGH
      then lttng_condition_buffer_usage_hash seed condition
      else crash)"

definition hash_channel_key :: "u64 \<Rightarrow> channel_key \<Rightarrow> u64" where
  "hash_channel_key seed key =
     hash_key_u64 (chan_key key) seed XOR hash_key_ulong (word_of_int (domain_type_val (chan_domain key))) seed"

section \<open>Triggers and channels\<close>

definition trigger_applies_to_channel :: "lttng_trigger \<Rightarrow> channel_info \<Rightarrow> bool run" where
  "trigger_applies_to_channel trigger info =
     (let condition = lttng_trigger_get_condition (Some trigger) in
      if condition = None then Some False
      else if lttng_condition_get_type condition \<noteq> LTTNG_CONDITION_TYPE_BUFFER_USAGE_LOW \<and>
              lttng_condition_get_type condition \<noteq> LTTNG_CONDITION_TYPE_BUFFER_USAGE_HIGH
      then Some False
      else do {
        let (status, trigger_domain) = lttng_condition_buffer_usage_get_domain_type condition True;
        c_assert (status = LTTNG_CONDITION_STATUS_OK);
        if Some (chan_domain (info_key info)) \<noteq> trigger_domain then Some False
        else do {
          let (status, trigger_session_name) = lttng_condition_buffer_usage_get_session_name condition True;
          c_assert (status = LTTNG_CONDITION_STATUS_OK \<and> trigger_session_name \<noteq> None);
          let (status, trigger_channel_name) = lttng_condition_buffer_usage_get_channel_name condition True;
          c_assert (status = LTTNG_CONDITION_STATUS_OK \<and> trigger_channel_name \<noteq> None);
          s \<leftarrow> info_session_name info;
          if Some s \<noteq> trigger_session_name then Some False
          else do {
            c \<leftarrow> info_channel_name info;
            Some (Some c = trigger_channel_name)
          }
        }
      })"

text \<open>\<open>tracer\<close>: what the kernel tracer answers when it is asked whether it can sample buffer positions.\<close>

definition condition_is_supported :: "int \<Rightarrow> cond \<Rightarrow> int" where
  "condition_is_supported tracer condition =
     (if lttng_condition_get_type (Some condition) = LTTNG_CONDITION_TYPE_BUFFER_USAGE_LOW \<or>
         lttng_condition_get_type (Some condition) = LTTNG_CONDITION_TYPE_BUFFER_USAGE_HIGH
      then let (ret, domain) = lttng_condition_buffer_usage_get_domain_type (Some condition) True in
        if ret \<noteq> LTTNG_CONDITION_STATUS_OK then -1
        else if domain \<noteq> Some LTTNG_DOMAIN_KERNEL then 1
        else tracer
      else 1)"

section \<open>Evaluation\<close>

definition evaluate_buffer_usage_condition :: "cond \<Rightarrow> channel_state_sample option \<Rightarrow> u64 \<Rightarrow> bool run" where
  "evaluate_buffer_usage_condition condition sample capacity =
     (case sample of
        None \<Rightarrow> Some False
      | Some sample \<Rightarrow> do {
          threshold \<leftarrow> (if threshold_bytes_set condition then Some (threshold_bytes_value condition)
                        else double_to_u64 (d_mul (threshold_ratio_value condition) (double_of_nat (unat capacity))));
          if lttng_condition_get_type (Some condition) = LTTNG_CONDITION_TYPE_BUFFER_USAGE_LOW
          then Some (highest_usage sample \<le> threshold)
          else Some (highest_usage sample \<ge> threshold)
        })"

definition evaluate_condition ::
  "cond \<Rightarrow> bool \<Rightarrow> channel_state_sample option \<Rightarrow> channel_state_sample \<Rightarrow> u64 \<Rightarrow> heap \<Rightarrow>
     (int \<times> evaluation option \<times> heap) run"
where
  "evaluate_condition condition out previous_sample latest_sample capacity h = do {
     let condition_type = lttng_condition_get_type (Some condition);
     c_assert (condition_type = LTTNG_CONDITION_TYPE_BUFFER_USAGE_LOW \<or>
       condition_type = LTTNG_CONDITION_TYPE_BUFFER_USAGE_HIGH);
     previous_sample_result \<leftarrow> evaluate_buffer_usage_condition condition previous_sample capacity;
     latest_sample_result \<leftarrow> evaluate_buffer_usage_condition condition (Some latest_sample) capacity;
     if \<not> latest_sample_result \<or> previous_sample_result = latest_sample_result then Some (0, None, h)
     else if out \<and> latest_sample_result
     then let (evaluation, h) =
            lttng_evaluation_buffer_usage_create h condition_type (highest_usage latest_sample) capacity in
          if evaluation = None then Some (-1, None, h) else Some (0, evaluation, h)
     else Some (0, None, h)
   }"

section \<open>What an evaluation computes\<close>

text \<open>The threshold in bytes, and whether a sample is past it.\<close>

definition byte_threshold :: "cond \<Rightarrow> u64 \<Rightarrow> nat" where
  "byte_threshold c capacity =
     (if threshold_bytes_set c then unat (threshold_bytes_value c)
      else case threshold_ratio_value c of Fin r \<Rightarrow> nat \<lfloor>rnd (r * of_nat (unat capacity))\<rfloor> | _ \<Rightarrow> 0)"

definition past :: "cond \<Rightarrow> u64 \<Rightarrow> channel_state_sample \<Rightarrow> bool" where
  "past c capacity s \<longleftrightarrow>
     (if ctype (parent c) = LTTNG_CONDITION_TYPE_BUFFER_USAGE_LOW
      then unat (highest_usage s) \<le> byte_threshold c capacity
      else byte_threshold c capacity \<le> unat (highest_usage s))"

definition crossed :: "cond \<Rightarrow> u64 \<Rightarrow> channel_state_sample option \<Rightarrow> channel_state_sample \<Rightarrow> bool" where
  "crossed c capacity prev latest \<longleftrightarrow>
     past c capacity latest \<and> (case prev of None \<Rightarrow> True | Some s \<Rightarrow> \<not> past c capacity s)"

lemma sendable_ratio:
  assumes "sendable_condition c" "\<not> threshold_bytes_set c"
  obtains r where "threshold_ratio_value c = Fin r" "0 \<le> r" "r \<le> 1"
proof -
  have "threshold_ratio_set c" using assms by (auto elim: sendableE)
  then show thesis
    using assms that by (cases "threshold_ratio_value c") (auto simp: sendable_condition_def condition_inv_def not_less)
qed

lemma ratio_of_capacity:
  assumes "0 \<le> r" "r \<le> 1" "unat (capacity :: u64) < 2 ^ 53"
  shows "\<exists>w. double_to_u64 (d_mul (Fin r) (double_of_nat (unat capacity))) = Some w \<and>
    unat w = nat \<lfloor>rnd (r * of_nat (unat capacity))\<rfloor> \<and> unat w \<le> unat capacity"
proof -
  let ?n = "unat capacity"
  let ?x = "rnd (r * of_nat ?n)"
  have n: "rnd (of_nat ?n) = (of_nat ?n :: rat)"
    using assms(3) rnd_of_nat_small[of ?n] by (cases "?n = 0") (auto simp: rnd_def)
  have "r * of_nat ?n \<le> 1 * of_nat ?n" using assms(2) by (intro mult_right_mono of_nat_0_le_iff)
  moreover have "0 \<le> r * of_nat ?n" using assms(1) by (intro mult_nonneg_nonneg of_nat_0_le_iff)
  ultimately have x: "0 \<le> ?x" "?x \<le> of_nat ?n"
    using assms(3) rnd_le_of_nat[of "r * of_nat ?n" ?n] rnd_nonneg by (simp_all only: mult_1)
  moreover have "of_nat ?n < (of_nat (2 ^ 53) :: rat)" using assms(3) by (simp only: of_nat_less_iff)
  ultimately have lt: "?x < 2 ^ 64" by simp
  define f where "f = \<lfloor>?x\<rfloor>"
  have f: "0 \<le> f" "f < 2 ^ 64" using x(1) lt by (simp_all add: floor_less_iff f_def)
  have "f \<le> int ?n" using x(2) by (simp add: f_def floor_le_iff)
  then have le: "nat f \<le> ?n" by (simp add: nat_le_iff)
  have "unat (word_of_int f :: u64) = nat f"
    using f by (simp add: unat_eq_nat_uint uint_word_of_int)
  moreover have "double_to_u64 (d_mul (Fin r) (double_of_nat ?n)) = Some (word_of_int f)"
    using n x(1) lt by (simp add: double_of_nat_def f_def)
  ultimately show ?thesis using le by (simp add: f_def)
qed

lemma evaluate_usage:
  assumes "sendable_condition c" "unat capacity < 2 ^ 53"
  shows "evaluate_buffer_usage_condition c s capacity = Some (case s of None \<Rightarrow> False | Some s \<Rightarrow> past c capacity s)"
proof (cases "threshold_bytes_set c")
  case True
  then show ?thesis
    by (simp add: evaluate_buffer_usage_condition_def past_def byte_threshold_def lttng_condition_get_type_def
        word_le_nat_alt split: option.splits)
next
  case False
  then obtain r where r: "threshold_ratio_value c = Fin r" "0 \<le> r" "r \<le> 1" by (rule sendable_ratio[OF assms(1)])
  obtain w where "double_to_u64 (d_mul (Fin r) (double_of_nat (unat capacity))) = Some w"
    "unat w = nat \<lfloor>rnd (r * of_nat (unat capacity))\<rfloor>"
    using ratio_of_capacity[OF r(2,3) assms(2)] by blast
  with False r(1) show ?thesis
    by (simp add: evaluate_buffer_usage_condition_def past_def byte_threshold_def lttng_condition_get_type_def
        word_le_nat_alt split: option.splits)
qed

lemma evaluate_crossed:
  assumes "sendable_condition c" "unat capacity < 2 ^ 53" "outcomes h = []"
  shows "evaluate_condition c True prev latest capacity h =
    (if crossed c capacity prev latest
     then Some (0, Some (usage_evaluation (ctype (parent c)) (highest_usage latest) capacity), h\<lparr>live := live h + 1\<rparr>)
     else Some (0, None, h))"
proof -
  have "ctype (parent c) = LTTNG_CONDITION_TYPE_BUFFER_USAGE_LOW \<or> ctype (parent c) = LTTNG_CONDITION_TYPE_BUFFER_USAGE_HIGH"
    using assms(1) by (auto elim!: sendableE simp: usage_parent_def)
  with assms(3) show ?thesis
    by (auto simp: evaluate_condition_def evaluate_usage[OF assms(1,2)] crossed_def lttng_condition_get_type_def
        lttng_evaluation_buffer_usage_create_def usage_evaluation_def bind_c_assert split: option.splits)
qed

section \<open>Properties\<close>

text \<open>
  C29: conditions are evaluated on edges. A sample gives an evaluation exactly when the highest usage is on
  the side of the threshold that the condition asks for and the previous sample, if there is one, was not;
  the evaluation carries the usage and the capacity. A ratio is applied to the capacity in double
  arithmetic, gives at most the capacity, and its conversion is defined.
\<close>

theorem evaluation_edge_triggered:
  assumes "sendable_condition c" "unat capacity < 2 ^ 53" "outcomes h = []"
  shows "evaluate_condition c True prev latest capacity h =
      Some (0, if crossed c capacity prev latest
               then Some (usage_evaluation (ctype (parent c)) (highest_usage latest) capacity) else None,
            if crossed c capacity prev latest then h\<lparr>live := live h + 1\<rparr> else h) \<and>
    (\<not> threshold_bytes_set c \<longrightarrow> byte_threshold c capacity \<le> unat capacity)"
proof (intro conjI impI)
  assume b: "\<not> threshold_bytes_set c"
  then obtain r where r: "threshold_ratio_value c = Fin r" "0 \<le> r" "r \<le> 1" by (rule sendable_ratio[OF assms(1)])
  from ratio_of_capacity[OF r(2,3) assms(2)] b r(1) show "byte_threshold c capacity \<le> unat capacity"
    by (auto simp: byte_threshold_def)
qed (simp add: evaluate_crossed[OF assms])

theorem evaluation_edge_triggered_witness:
  "evaluate_condition sample_condition True
     (Some \<lparr>sample_key = \<lparr>chan_key = 1, chan_domain = LTTNG_DOMAIN_UST\<rparr>, highest_usage = 4095, lowest_usage = 0\<rparr>)
     \<lparr>sample_key = \<lparr>chan_key = 1, chan_domain = LTTNG_DOMAIN_UST\<rparr>, highest_usage = 4096, lowest_usage = 0\<rparr>
     8192 \<lparr>outcomes = [], live = 0\<rparr> =
   Some (0, Some (usage_evaluation LTTNG_CONDITION_TYPE_BUFFER_USAGE_HIGH 4096 8192), \<lparr>outcomes = [], live = 1\<rparr>)"
  using evaluation_edge_triggered[OF sample_sendable(1), of 8192 "\<lparr>outcomes = [], live = 0\<rparr>"
      "Some \<lparr>sample_key = \<lparr>chan_key = 1, chan_domain = LTTNG_DOMAIN_UST\<rparr>, highest_usage = 4095, lowest_usage = 0\<rparr>"
      "\<lparr>sample_key = \<lparr>chan_key = 1, chan_domain = LTTNG_DOMAIN_UST\<rparr>, highest_usage = 4096, lowest_usage = 0\<rparr>"]
  by (simp add: crossed_def past_def byte_threshold_def sample_condition_def fresh_condition_def usage_parent_def)

end
