(* ===== verification/Notification_Thread.thy ===== *)
theory Notification_Thread
  imports Notification_Channel Condition_Evaluation
begin

text \<open>
  The notification thread of the session daemon,
  \<open>src/bin/lttng-sessiond/notification-thread-events.c\<close>: its state and the handling of its clients.
  The objects that the code allocates have addresses; the tables of the state hold addresses, and an
  access through an address that was released crashes. The intrusive lists of the code are lists, with
  new elements in front. The hash tables are those of liburcu, a library outside of the repository: its
  operations are a parameter, and what the properties need of it is the predicate \<open>lfht_laws\<close>.
\<close>

section \<open>Hash tables\<close>

record 't lfht =
  lfht_add :: "'t \<Rightarrow> u64 \<Rightarrow> nat \<Rightarrow> 't"
  lfht_add_unique :: "'t \<Rightarrow> u64 \<Rightarrow> (nat \<Rightarrow> bool) \<Rightarrow> nat \<Rightarrow> nat \<times> 't"
  lfht_lookup :: "'t \<Rightarrow> u64 \<Rightarrow> (nat \<Rightarrow> bool) \<Rightarrow> nat option"
  lfht_del :: "'t \<Rightarrow> nat \<Rightarrow> 't"
  lfht_nodes :: "'t \<Rightarrow> nat list" \<comment> \<open>in the order of an iteration\<close>

text \<open>
  The documented behaviour, for a function \<open>view\<close> that tells which nodes a table holds and under which
  hash: a lookup returns a node of the hash that matches if there is one, an unconditional addition
  adds a node, a unique one only if there is no match, a deletion removes the node, and an iteration
  visits every node once.
\<close>

definition lfht_laws :: "('t, 'e) lfht_scheme \<Rightarrow> ('t \<Rightarrow> nat \<Rightarrow> u64 option) \<Rightarrow> bool" where
  "lfht_laws L view \<longleftrightarrow>
     (\<forall>t h n. view t n = None \<longrightarrow> view (lfht_add L t h n) = (view t)(n \<mapsto> h)) \<and>
     (\<forall>t h p. case lfht_lookup L t h p of
        None \<Rightarrow> \<forall>n. view t n = Some h \<longrightarrow> \<not> p n
      | Some n \<Rightarrow> view t n = Some h \<and> p n) \<and>
     (\<forall>t h p n. view t n = None \<longrightarrow> (case lfht_add_unique L t h p n of (n', t') \<Rightarrow>
        if n' = n then (\<forall>k. view t k = Some h \<longrightarrow> \<not> p k) \<and> view t' = (view t)(n \<mapsto> h)
        else view t n' = Some h \<and> p n' \<and> view t' = view t)) \<and>
     (\<forall>t n. view (lfht_del L t n) = (view t)(n := None)) \<and>
     (\<forall>t. distinct (lfht_nodes L t) \<and> set (lfht_nodes L t) = dom (view t))"

text \<open>The tables, their seed, and the answer of the kernel tracer on the sampling of buffers.\<close>

record 't thread_env = "'t lfht" +
  ht_seed :: u64
  tracer_positions :: int

section \<open>State\<close>

record notification_client =
  client_socket :: int
  client_major :: u8
  client_minor :: u8
  client_uid :: u32
  client_gid :: u32
  validated :: bool
  condition_list :: "(nat \<times> cond) list" \<comment> \<open>the conditions with their addresses\<close>
  in_buffer :: lttng_dynamic_buffer
  bytes_to_receive :: size_t
  msg_type :: lttng_notification_channel_message_type
  expect_creds :: bool
  creds_received :: bool
  creds :: "u32 \<times> u32"
  dropped_notification :: bool
  queued_command_reply :: bool
  out_buffer :: lttng_dynamic_buffer

record notification_client_list =
  list_trigger :: nat
  list_clients :: "(nat \<times> nat) list" \<comment> \<open>the elements: their own address and the one of the client\<close>

record lttng_channel_trigger_list =
  tl_channel_key :: channel_key
  tl_triggers :: "nat list"

text \<open>
  Besides the fields of the code: the stores of the objects, the sockets by file descriptor with the
  credentials of their peers, the results of the next operations on the poll set (0 when there is none
  left), the next fresh address and the ledger. An entry of \<open>events\<close> tells whether output is polled.
\<close>

record 't thread_state =
  client_socket_ht :: 't
  channel_triggers_ht :: 't
  channel_state_ht :: 't
  notification_trigger_clients_ht :: 't
  channels_ht :: 't
  triggers_ht :: 't
  events :: "int \<Rightarrow> bool option"
  clients :: "nat \<Rightarrow> notification_client option"
  client_lists :: "nat \<Rightarrow> notification_client_list option"
  trigger_lists :: "nat \<Rightarrow> lttng_channel_trigger_list option"
  samples :: "nat \<Rightarrow> channel_state_sample option"
  channels :: "nat \<Rightarrow> channel_info option"
  trigger_elements :: "nat \<Rightarrow> nat option"
  triggers :: "nat \<Rightarrow> lttng_trigger option"
  socks :: "int \<Rightarrow> sock option"
  peers :: "int \<Rightarrow> (u32 \<times> u32) option"
  poll_results :: "int list"
  next_address :: nat
  ledger :: heap

definition alloc :: "'t thread_state \<Rightarrow> nat option \<times> 't thread_state" where
  "alloc st =
     (let (ok, h) = zmalloc (ledger st) in
      if ok then (Some (next_address st), st\<lparr>ledger := h, next_address := next_address st + 1\<rparr>)
      else (None, st\<lparr>ledger := h\<rparr>))"

abbreviation release :: "'t thread_state \<Rightarrow> 't thread_state" where
  "release st \<equiv> st\<lparr>ledger := c_free (ledger st)\<rparr>"

definition put_client :: "nat \<Rightarrow> notification_client \<Rightarrow> 't thread_state \<Rightarrow> 't thread_state" where
  "put_client a c st = st\<lparr>clients := (clients st)(a \<mapsto> c)\<rparr>"

text \<open>An operation on the poll set: additions, changes and removals of a file descriptor.\<close>

definition poll_ctl :: "'t thread_state \<Rightarrow> int \<Rightarrow> bool option \<Rightarrow> int \<times> 't thread_state" where
  "poll_ctl st fd interest =
     (let (ret, rs) = (case poll_results st of [] \<Rightarrow> (0, []) | r # rs \<Rightarrow> (r, rs)) in
      (ret, st\<lparr>poll_results := rs, events := (if ret = 0 then (events st)(fd := interest) else events st)\<rparr>))"

section \<open>Matching of nodes\<close>

text \<open>The nodes of a table are never released while they are in it; an address without an object matches nothing.\<close>

definition match_client :: "'t thread_state \<Rightarrow> int \<Rightarrow> nat \<Rightarrow> bool" where
  "match_client st fd node =
     (case clients st node of None \<Rightarrow> False | Some client \<Rightarrow> client_socket client = fd)"

definition match_channel_trigger_list :: "'t thread_state \<Rightarrow> channel_key \<Rightarrow> nat \<Rightarrow> bool" where
  "match_channel_trigger_list st key node =
     (case trigger_lists st node of
        None \<Rightarrow> False
      | Some l \<Rightarrow> chan_key key = chan_key (tl_channel_key l) \<and> chan_domain key = chan_domain (tl_channel_key l))"

definition match_channel_state_sample :: "'t thread_state \<Rightarrow> channel_key \<Rightarrow> nat \<Rightarrow> bool" where
  "match_channel_state_sample st key node =
     (case samples st node of
        None \<Rightarrow> False
      | Some s \<Rightarrow> chan_key key = chan_key (sample_key s) \<and> chan_domain key = chan_domain (sample_key s))"

definition match_channel_info :: "'t thread_state \<Rightarrow> channel_key \<Rightarrow> nat \<Rightarrow> bool" where
  "match_channel_info st key node =
     (case channels st node of
        None \<Rightarrow> False
      | Some i \<Rightarrow> chan_key key = chan_key (info_key i) \<and> chan_domain key = chan_domain (info_key i))"

definition trigger_condition :: "'t thread_state \<Rightarrow> nat \<Rightarrow> cond option" where
  "trigger_condition st a = lttng_trigger_get_condition (triggers st a)"

definition match_condition :: "'t thread_state \<Rightarrow> cond \<Rightarrow> nat \<Rightarrow> bool" where
  "match_condition st key node =
     (case trigger_elements st node of
        None \<Rightarrow> False
      | Some trigger \<Rightarrow> lttng_condition_is_equal (Some key) (trigger_condition st trigger))"

definition match_client_list :: "'t thread_state \<Rightarrow> nat \<Rightarrow> nat \<Rightarrow> bool" where
  "match_client_list st trigger_key node =
     (case client_lists st node of
        None \<Rightarrow> False
      | Some l \<Rightarrow> lttng_condition_is_equal (trigger_condition st trigger_key) (trigger_condition st (list_trigger l)))"

definition match_client_list_condition :: "'t thread_state \<Rightarrow> cond \<Rightarrow> nat \<Rightarrow> bool" where
  "match_client_list_condition st key node =
     (case client_lists st node of
        None \<Rightarrow> False
      | Some l \<Rightarrow> lttng_condition_is_equal (Some key) (trigger_condition st (list_trigger l)))"

definition hash_client_socket :: "u64 \<Rightarrow> int \<Rightarrow> u64" where
  "hash_client_socket seed fd = hash_key_ulong (word_of_int fd) seed"

definition get_client_from_socket :: "'t thread_env \<Rightarrow> int \<Rightarrow> 't thread_state \<Rightarrow> nat option" where
  "get_client_from_socket E fd st =
     lfht_lookup E (client_socket_ht st) (hash_client_socket (ht_seed E) fd) (match_client st fd)"

section \<open>Subscriptions\<close>

text \<open>
  The result is the return value, the status (\<open>None\<close> when it is not stored) and the state. A condition
  comes with its address.
\<close>

definition notification_thread_client_subscribe ::
  "'t thread_env \<Rightarrow> nat \<Rightarrow> nat \<times> cond \<Rightarrow> 't thread_state \<Rightarrow> (int \<times> int option \<times> 't thread_state) run"
where
  "notification_thread_client_subscribe E client condition st = do {
     c \<leftarrow> clients st client;
     if list_ex (\<lambda>e. lttng_condition_is_equal (Some (snd e)) (Some (snd condition))) (condition_list c)
     then Some (0, Some STATUS_ALREADY_SUBSCRIBED, st)
     else case alloc st of
       (None, st) \<Rightarrow> Some (-1, None, st)
     | (Some condition_list_element, st) \<Rightarrow>
         (case alloc st of
            (None, st) \<Rightarrow> Some (-1, None, release st)
          | (Some client_list_element, st) \<Rightarrow> do {
              let st = put_client client (c\<lparr>condition_list := condition # condition_list c\<rparr>) st;
              hash \<leftarrow> lttng_condition_hash (ht_seed E) (snd condition);
              (case lfht_lookup E (notification_trigger_clients_ht st) hash (match_client_list_condition st (snd condition)) of
                 None \<Rightarrow> Some (0, Some STATUS_OK, release st)
               | Some node \<Rightarrow> do {
                   client_list \<leftarrow> client_lists st node;
                   let client_list = client_list\<lparr>list_clients := (client_list_element, client) # list_clients client_list\<rparr>;
                   Some (0, Some STATUS_OK, st\<lparr>client_lists := (client_lists st)(node \<mapsto> client_list)\<rparr>)
                 })
            })
   }"

text \<open>The elements without the first one whose client has the socket, and whether there was one.\<close>

fun remove_client_element ::
  "(nat \<Rightarrow> notification_client option) \<Rightarrow> int \<Rightarrow> (nat \<times> nat) list \<Rightarrow> ((nat \<times> nat) list \<times> bool) run"
where
  "remove_client_element cs fd [] = Some ([], False)"
| "remove_client_element cs fd ((element, client) # elements) = do {
     c \<leftarrow> cs client;
     if client_socket c \<noteq> fd then do {
       (elements, found) \<leftarrow> remove_client_element cs fd elements;
       Some ((element, client) # elements, found)
     }
     else Some (elements, True)
   }"

definition notification_thread_client_unsubscribe ::
  "'t thread_env \<Rightarrow> nat \<Rightarrow> nat \<times> cond \<Rightarrow> 't thread_state \<Rightarrow> (int \<times> int \<times> 't thread_state) run"
where
  "notification_thread_client_unsubscribe E client condition st = do {
     c \<leftarrow> clients st client;
     (status, st) \<leftarrow>
       (case List.extract (\<lambda>e. lttng_condition_is_equal (Some (snd e)) (Some (snd condition))) (condition_list c) of
          None \<Rightarrow> Some (STATUS_UNKNOWN_CONDITION, st)
        | Some (before, e, after) \<Rightarrow> do {
            let st = put_client client (c\<lparr>condition_list := before @ after\<rparr>) st;
            h \<leftarrow> (if fst condition \<noteq> fst e then lttng_condition_destroy (Some (snd e)) (ledger st) else Some (ledger st));
            let st = st\<lparr>ledger := c_free h\<rparr>;
            hash \<leftarrow> lttng_condition_hash (ht_seed E) (snd condition);
            (case lfht_lookup E (notification_trigger_clients_ht st) hash (match_client_list_condition st (snd condition)) of
               None \<Rightarrow> Some (STATUS_OK, st)
             | Some node \<Rightarrow> do {
                 client_list \<leftarrow> client_lists st node;
                 (elements, found) \<leftarrow> remove_client_element (clients st) (client_socket c) (list_clients client_list);
                 let st = st\<lparr>client_lists := (client_lists st)(node \<mapsto> client_list\<lparr>list_clients := elements\<rparr>)\<rparr>;
                 Some (STATUS_OK, if found then release st else st)
               })
          });
     h \<leftarrow> lttng_condition_destroy (Some (snd condition)) (ledger st);
     Some (0, status, st\<lparr>ledger := h\<rparr>)
   }"

section \<open>Release of a client\<close>

text \<open>The iteration reads its element again: it crashes when an earlier step has released it.\<close>

fun release_conditions ::
  "'t thread_env \<Rightarrow> nat \<Rightarrow> (nat \<times> cond) list \<Rightarrow> 't thread_state \<Rightarrow> 't thread_state run"
where
  "release_conditions E client [] st = Some st"
| "release_conditions E client (e # es) st = do {
     c \<leftarrow> clients st client;
     c_assert (e \<in> set (condition_list c));
     (ret, status, st) \<leftarrow> notification_thread_client_unsubscribe E client e st;
     release_conditions E client es st
   }"

definition notification_client_destroy ::
  "'t thread_env \<Rightarrow> nat option \<Rightarrow> 't thread_state \<Rightarrow> 't thread_state run"
where
  "notification_client_destroy E client st =
     (case client of
        None \<Rightarrow> Some st
      | Some client \<Rightarrow> do {
          c \<leftarrow> clients st client;
          st \<leftarrow> release_conditions E client (condition_list c) st;
          c \<leftarrow> clients st client;
          let st = (if client_socket c \<ge> 0
                    then st\<lparr>socks := (socks st)(client_socket c := None)\<rparr> else st);
          (_, h) \<leftarrow> lttng_dynamic_buffer_reset (ledger st) (Some (in_buffer c));
          (_, h) \<leftarrow> lttng_dynamic_buffer_reset h (Some (out_buffer c));
          Some (st\<lparr>ledger := c_free h, clients := (clients st)(client := None)\<rparr>)
        })"

definition handle_notification_thread_client_disconnect ::
  "'t thread_env \<Rightarrow> int \<Rightarrow> 't thread_state \<Rightarrow> (int \<times> 't thread_state) run"
where
  "handle_notification_thread_client_disconnect E client_fd st =
     (case get_client_from_socket E client_fd st of
        None \<Rightarrow> Some (-1, st)
      | Some client \<Rightarrow> do {
          let (ret, st) = poll_ctl st client_fd None;
          let st = st\<lparr>client_socket_ht := lfht_del E (client_socket_ht st) client\<rparr>;
          st \<leftarrow> notification_client_destroy E (Some client) st;
          Some (ret, st)
        })"

text \<open>The iteration deletes only the node it is at; its successor was read before.\<close>

fun disconnect_clients ::
  "'t thread_env \<Rightarrow> nat list \<Rightarrow> bool \<Rightarrow> 't thread_state \<Rightarrow> (bool \<times> 't thread_state) run"
where
  "disconnect_clients E [] error_encountered st = Some (error_encountered, st)"
| "disconnect_clients E (client # nodes) error_encountered st = do {
     c \<leftarrow> clients st client;
     (ret, st) \<leftarrow> handle_notification_thread_client_disconnect E (client_socket c) st;
     disconnect_clients E nodes (error_encountered \<or> ret \<noteq> 0) st
   }"

definition handle_notification_thread_client_disconnect_all ::
  "'t thread_env \<Rightarrow> 't thread_state \<Rightarrow> (int \<times> 't thread_state) run"
where
  "handle_notification_thread_client_disconnect_all E st = do {
     (error_encountered, st) \<leftarrow> disconnect_clients E (lfht_nodes E (client_socket_ht st)) False st;
     Some (if error_encountered then 1 else 0, st)
   }"

section \<open>Connection of a client\<close>

text \<open>Setting a buffer to a size that is not larger cannot fail.\<close>

definition client_reset_inbound_state ::
  "notification_client \<Rightarrow> heap \<Rightarrow> (int \<times> notification_client \<times> heap) run"
where
  "client_reset_inbound_state client h = do {
     (ret, b, h) \<leftarrow> lttng_dynamic_buffer_set_size h (Some (in_buffer client)) 0;
     c_assert (ret = 0);
     b \<leftarrow> b;
     (ret, b, h) \<leftarrow> lttng_dynamic_buffer_set_size h (Some b) 5;
     b \<leftarrow> b;
     Some (ret, client\<lparr>in_buffer := b, bytes_to_receive := 5,
       msg_type := LTTNG_NOTIFICATION_CHANNEL_MESSAGE_TYPE_UNKNOWN, creds := (-1, -1)\<rparr>, h)
   }"

definition zeroed_client :: notification_client where
  "zeroed_client = \<lparr>client_socket = 0, client_major = 0, client_minor = 0, client_uid = 0, client_gid = 0,
     validated = False, condition_list = [], in_buffer = lttng_dynamic_buffer_init, bytes_to_receive = 0,
     msg_type = LTTNG_NOTIFICATION_CHANNEL_MESSAGE_TYPE_HANDSHAKE, expect_creds = True, creds_received = False,
     creds = (0, 0), dropped_notification = False, queued_command_reply = False,
     out_buffer = lttng_dynamic_buffer_init\<rparr>"

text \<open>
  What the system calls give for the next connection: the new file descriptor or -1, its stream and the
  credentials of the peer, and the results of changing the mode and the options of the socket.
\<close>

record connection =
  accepted :: int
  stream :: sock
  peer :: "(u32 \<times> u32) option"
  set_non_blocking :: int
  set_creds_option :: int

definition handle_notification_thread_client_connect ::
  "'t thread_env \<Rightarrow> connection \<Rightarrow> 't thread_state \<Rightarrow> (int \<times> 't thread_state) run"
where
  "handle_notification_thread_client_connect E con st =
     (case alloc st of
        (None, st) \<Rightarrow> do { st \<leftarrow> notification_client_destroy E None st; Some (-1, st) }
      | (Some client, st) \<Rightarrow> do {
          (ret, c, h) \<leftarrow> client_reset_inbound_state zeroed_client (ledger st);
          let st = put_client client c (st\<lparr>ledger := h\<rparr>);
          if ret \<noteq> 0 then do { st \<leftarrow> notification_client_destroy E (Some client) st; Some (0, st) }
          else if accepted con < 0 then do { st \<leftarrow> notification_client_destroy E (Some client) st; Some (0, st) }
          else do {
            let c = c\<lparr>client_socket := accepted con\<rparr>;
            let st = put_client client c (st\<lparr>socks := (socks st)(accepted con \<mapsto> stream con),
                       peers := (peers st)(accepted con := peer con)\<rparr>);
            if set_non_blocking con \<noteq> 0
            then do { st \<leftarrow> notification_client_destroy E (Some client) st; Some (set_non_blocking con, st) }
            else if set_creds_option con < 0
            then do { st \<leftarrow> notification_client_destroy E (Some client) st; Some (0, st) }
            else do {
              let (ret, st) = poll_ctl st (accepted con) (Some False);
              if ret < 0 then do { st \<leftarrow> notification_client_destroy E (Some client) st; Some (0, st) }
              else Some (ret, st\<lparr>client_socket_ht :=
                lfht_add E (client_socket_ht st) (hash_client_socket (ht_seed E) (accepted con)) client\<rparr>)
            }
          }
        })"

section \<open>Outgoing messages\<close>

text \<open>Sending on a descriptor that is not open fails.\<close>

definition send_to :: "'t thread_state \<Rightarrow> int \<Rightarrow> byte list \<Rightarrow> (bool + nat) \<times> 't thread_state" where
  "send_to st fd bs =
     (case socks st fd of
        None \<Rightarrow> (Inl False, st)
      | Some s \<Rightarrow> let (r, s) = lttcomm_send_unix_sock_non_block s bs in (r, st\<lparr>socks := (socks st)(fd \<mapsto> s)\<rparr>))"

text \<open>
  The bytes of a buffer that are left after a part of them was sent are moved to the front; when nothing
  was sent they are copied onto themselves, which changes nothing.
\<close>

definition keep_rest :: "lttng_dynamic_buffer \<Rightarrow> nat \<Rightarrow> heap \<Rightarrow> (int \<times> lttng_dynamic_buffer \<times> heap) run" where
  "keep_rest b sent h = do {
     m \<leftarrow> block_cells (bdata b);
     let rest = unat (bsize b) - sent;
     c_assert (sent = 0 \<or> rest \<le> sent); \<comment> \<open>otherwise the two objects of \<open>memcpy\<close> overlap\<close>
     b \<leftarrow> store b 0 (take rest (drop sent m));
     (ret, b, h) \<leftarrow> lttng_dynamic_buffer_set_size h (Some b) (of_nat rest);
     b \<leftarrow> b;
     Some (ret, b, h)
   }"

definition client_flush_outgoing_queue ::
  "'t thread_env \<Rightarrow> nat \<Rightarrow> 't thread_state \<Rightarrow> (int \<times> 't thread_state) run"
where
  "client_flush_outgoing_queue E client st = do {
     c \<leftarrow> clients st client;
     c_assert (bsize (out_buffer c) \<noteq> 0);
     let to_send_count = unat (bsize (out_buffer c));
     bytes \<leftarrow> those (contents (out_buffer c));
     let (ret, st) = send_to st (client_socket c) bytes;
     if (case ret of Inl again \<Rightarrow> again | Inr n \<Rightarrow> 0 < n \<and> n < to_send_count) then do {
       let sent = (case ret of Inl _ \<Rightarrow> 0 | Inr n \<Rightarrow> n);
       (ret, b, h) \<leftarrow> keep_rest (out_buffer c) sent (ledger st);
       let st = put_client client (c\<lparr>out_buffer := b\<rparr>) (st\<lparr>ledger := h\<rparr>);
       if ret \<noteq> 0 then Some (-1, st)
       else let (ret, st) = poll_ctl st (client_socket c) (Some True) in
         Some (if ret \<noteq> 0 then -1 else 0, st)
     }
     else if ret = Inl False then do {
       (ret, st) \<leftarrow> handle_notification_thread_client_disconnect E (client_socket c) st;
       Some (if ret \<noteq> 0 then -1 else 0, st)
     }
     else do {
       (ret, b, h) \<leftarrow> lttng_dynamic_buffer_set_size (ledger st) (Some (out_buffer c)) 0;
       b \<leftarrow> b;
       let c = c\<lparr>out_buffer := b\<rparr>;
       let st = put_client client c (st\<lparr>ledger := h\<rparr>);
       if ret \<noteq> 0 then Some (-1, st)
       else let (ret, st) = poll_ctl st (client_socket c) (Some False) in
         if ret \<noteq> 0 then Some (-1, st)
         else Some (0, put_client client (c\<lparr>queued_command_reply := False, dropped_notification := False\<rparr>) st)
     }
   }"

definition append_out ::
  "nat \<Rightarrow> byte list \<Rightarrow> 't thread_state \<Rightarrow> (int \<times> 't thread_state) run"
where
  "append_out client bs st = do {
     c \<leftarrow> clients st client;
     (ret, b, h) \<leftarrow> lttng_dynamic_buffer_append (ledger st) (Some (out_buffer c)) (Some (map Some bs)) (of_nat (length bs));
     b \<leftarrow> b;
     Some (ret, put_client client (c\<lparr>out_buffer := b\<rparr>) (st\<lparr>ledger := h\<rparr>))
   }"

definition client_send_command_reply ::
  "'t thread_env \<Rightarrow> nat \<Rightarrow> 't thread_state \<Rightarrow> int \<Rightarrow> (int \<times> 't thread_state) run"
where
  "client_send_command_reply E client st status = do {
     c \<leftarrow> clients st client;
     if queued_command_reply c then Some (-1, st)
     else do {
       let buffer = message_header LTTNG_NOTIFICATION_CHANNEL_MESSAGE_TYPE_COMMAND_REPLY 1 @ [word_of_int status];
       (ret, st) \<leftarrow> append_out client buffer st;
       if ret \<noteq> 0 then Some (-1, st)
       else do {
         (ret, st) \<leftarrow> client_flush_outgoing_queue E client st;
         if ret \<noteq> 0 then Some (-1, st)
         else do {
           c \<leftarrow> clients st client;
           Some (0, if bsize (out_buffer c) \<noteq> 0 then put_client client (c\<lparr>queued_command_reply := True\<rparr>) st else st)
         }
       }
     }
   }"

section \<open>Incoming messages\<close>

text \<open>The header of a message was received: the rest of it is expected next.\<close>

definition dispatch_header :: "nat \<Rightarrow> 't thread_state \<Rightarrow> (int \<times> 't thread_state) run" where
  "dispatch_header client st = do {
     c \<leftarrow> clients st client;
     c_assert (bsize (in_buffer c) = 5);
     m \<leftarrow> block_cells (bdata (in_buffer c));
     raw \<leftarrow> rd_bytes m 0 5;
     let psize = header_payload_size raw;
     let type = message_type_of_byte (raw ! 0);
     if psize = 0 \<or> psize > DEFAULT_MAX_NOTIFICATION_CLIENT_MESSAGE_PAYLOAD_SIZE then Some (-1, st)
     else case type of
       None \<Rightarrow> Some (-1, st)
     | Some type \<Rightarrow>
         if type \<noteq> LTTNG_NOTIFICATION_CHANNEL_MESSAGE_TYPE_SUBSCRIBE \<and>
            type \<noteq> LTTNG_NOTIFICATION_CHANNEL_MESSAGE_TYPE_UNSUBSCRIBE \<and>
            type \<noteq> LTTNG_NOTIFICATION_CHANNEL_MESSAGE_TYPE_HANDSHAKE
         then Some (-1, st)
         else do {
           let c = c\<lparr>bytes_to_receive := ucast psize, msg_type := type\<rparr>;
           (ret, b, h) \<leftarrow> lttng_dynamic_buffer_set_size (ledger st) (Some (in_buffer c)) (ucast psize);
           b \<leftarrow> b;
           Some (ret, put_client client (c\<lparr>in_buffer := b\<rparr>) (st\<lparr>ledger := h\<rparr>))
         }
   }"

definition reset_inbound :: "nat \<Rightarrow> 't thread_state \<Rightarrow> (int \<times> 't thread_state) run" where
  "reset_inbound client st = do {
     c \<leftarrow> clients st client;
     (ret, c, h) \<leftarrow> client_reset_inbound_state c (ledger st);
     Some (ret, put_client client c (st\<lparr>ledger := h\<rparr>))
   }"

definition dispatch_handshake ::
  "'t thread_env \<Rightarrow> nat \<Rightarrow> 't thread_state \<Rightarrow> (int \<times> 't thread_state) run"
where
  "dispatch_handshake E client st = do {
     c \<leftarrow> clients st client;
     let send_buffer = message_header LTTNG_NOTIFICATION_CHANNEL_MESSAGE_TYPE_HANDSHAKE 2 @
           [LTTNG_NOTIFICATION_CHANNEL_VERSION_MAJOR, LTTNG_NOTIFICATION_CHANNEL_VERSION_MINOR];
     m \<leftarrow> block_cells (bdata (in_buffer c));
     major \<leftarrow> rd m 0;
     minor \<leftarrow> rd m 1;
     let c = c\<lparr>client_major := major, client_minor := minor\<rparr>;
     let st = put_client client c st;
     if \<not> creds_received c then Some (-1, st)
     else do {
       let st = put_client client (c\<lparr>client_uid := fst (creds c), client_gid := snd (creds c)\<rparr>) st;
       let status = (if major \<noteq> LTTNG_NOTIFICATION_CHANNEL_VERSION_MAJOR then STATUS_UNSUPPORTED_VERSION else STATUS_OK);
       (ret, st) \<leftarrow> append_out client send_buffer st;
       if ret \<noteq> 0 then Some (ret, st)
       else do {
         (ret, st) \<leftarrow> client_flush_outgoing_queue E client st;
         if ret \<noteq> 0 then Some (ret, st)
         else do {
           (ret, st) \<leftarrow> client_send_command_reply E client st status;
           if ret \<noteq> 0 then Some (ret, st)
           else do {
             (ret, st) \<leftarrow> reset_inbound client st;
             if ret \<noteq> 0 then Some (ret, st)
             else do {
               c \<leftarrow> clients st client;
               Some (0, put_client client (c\<lparr>validated := True\<rparr>) st)
             }
           }
         }
       }
     }
   }"

text \<open>The parsed condition gets the next fresh address; its blocks are counted by the parser.\<close>

definition dispatch_condition ::
  "'t thread_env \<Rightarrow> nat \<Rightarrow> 't thread_state \<Rightarrow> (int \<times> 't thread_state) run"
where
  "dispatch_condition E client st = do {
     c \<leftarrow> clients st client;
     condition_view \<leftarrow> lttng_buffer_view_from_dynamic_buffer (Some (in_buffer c)) 0 (-1);
     let expected_condition_size = bsize (in_buffer c);
     m \<leftarrow> block_cells (bdata (in_buffer c));
     (ret, condition, h) \<leftarrow> lttng_condition_create_from_buffer (ledger st) m (Some condition_view) True;
     let st = st\<lparr>ledger := h\<rparr>;
     if of_int ret \<noteq> expected_condition_size then Some (ret, st)
     else do {
       condition \<leftarrow> condition;
       let a = next_address st;
       let st = st\<lparr>next_address := a + 1\<rparr>;
       (ret, status, st) \<leftarrow>
         (if msg_type c = LTTNG_NOTIFICATION_CHANNEL_MESSAGE_TYPE_SUBSCRIBE
          then notification_thread_client_subscribe E client (a, condition) st
          else do {
            (ret, status, st) \<leftarrow> notification_thread_client_unsubscribe E client (a, condition) st;
            Some (ret, Some status, st)
          });
       if ret \<noteq> 0 then Some (ret, st)
       else do {
         (ret, st) \<leftarrow> client_send_command_reply E client st (case status of None \<Rightarrow> STATUS_OK | Some s \<Rightarrow> s);
         if ret \<noteq> 0 then Some (ret, st) else reset_inbound client st
       }
     }
   }"

definition client_dispatch_message ::
  "'t thread_env \<Rightarrow> nat \<Rightarrow> 't thread_state \<Rightarrow> (int \<times> 't thread_state) run"
where
  "client_dispatch_message E client st = do {
     c \<leftarrow> clients st client;
     if msg_type c \<noteq> LTTNG_NOTIFICATION_CHANNEL_MESSAGE_TYPE_HANDSHAKE \<and>
        msg_type c \<noteq> LTTNG_NOTIFICATION_CHANNEL_MESSAGE_TYPE_UNKNOWN \<and> \<not> validated c
     then Some (-1, st)
     else if msg_type c = LTTNG_NOTIFICATION_CHANNEL_MESSAGE_TYPE_UNKNOWN then dispatch_header client st
     else if msg_type c = LTTNG_NOTIFICATION_CHANNEL_MESSAGE_TYPE_HANDSHAKE then dispatch_handshake E client st
     else if msg_type c = LTTNG_NOTIFICATION_CHANNEL_MESSAGE_TYPE_SUBSCRIBE \<or>
             msg_type c = LTTNG_NOTIFICATION_CHANNEL_MESSAGE_TYPE_UNSUBSCRIBE
     then dispatch_condition E client st
     else crash
   }"

text \<open>
  Reception into the buffer of the client, with the credentials while they are expected. The result is
  the return value of the socket wrapper, the client and the stream.
\<close>

definition client_receive ::
  "notification_client \<Rightarrow> sock \<Rightarrow> (u32 \<times> u32) option \<Rightarrow> (int \<times> notification_client \<times> sock) run"
where
  "client_receive c s anc = do {
     let off = unat (bsize (in_buffer c) - bytes_to_receive c);
     m \<leftarrow> block_cells (bdata (in_buffer c));
     if expect_creds c then do {
       (ret, m, cr, s) \<leftarrow> lttcomm_recv_creds_unix_sock s m off (unat (bytes_to_receive c)) anc;
       let c = c\<lparr>in_buffer := (in_buffer c)\<lparr>bdata := Live m\<rparr>, creds := (case cr of None \<Rightarrow> creds c | Some cr \<Rightarrow> cr)\<rparr>;
       Some (ret, if ret > 0 then c\<lparr>expect_creds := False, creds_received := True\<rparr> else c, s)
     }
     else do {
       (ret, m, s) \<leftarrow> lttcomm_recv_unix_sock_non_block s m off (unat (bytes_to_receive c));
       Some (ret, c\<lparr>in_buffer := (in_buffer c)\<lparr>bdata := Live m\<rparr>\<rparr>, s)
     }
   }"

definition handle_notification_thread_client_in ::
  "'t thread_env \<Rightarrow> int \<Rightarrow> 't thread_state \<Rightarrow> (int \<times> 't thread_state) run"
where
  "handle_notification_thread_client_in E fd st =
     (case get_client_from_socket E fd st of
        None \<Rightarrow> Some (-1, st)
      | Some client \<Rightarrow> do {
          c \<leftarrow> clients st client;
          (case socks st fd of
             None \<Rightarrow> handle_notification_thread_client_disconnect E fd st
           | Some s \<Rightarrow> do {
               (recv_ret, c, s) \<leftarrow> client_receive c s (peers st fd);
               let st = put_client client c (st\<lparr>socks := (socks st)(fd \<mapsto> s)\<rparr>);
               if recv_ret < 0 then handle_notification_thread_client_disconnect E fd st
               else do {
                 let c = c\<lparr>bytes_to_receive := bytes_to_receive c - of_int recv_ret\<rparr>;
                 let st = put_client client c st;
                 if bytes_to_receive c = 0 then do {
                   (ret, st) \<leftarrow> client_dispatch_message E client st;
                   if ret \<noteq> 0 then handle_notification_thread_client_disconnect E fd st else Some (0, st)
                 }
                 else Some (0, st)
               }
             })
        })"

definition handle_notification_thread_client_out ::
  "'t thread_env \<Rightarrow> int \<Rightarrow> 't thread_state \<Rightarrow> (int \<times> 't thread_state) run"
where
  "handle_notification_thread_client_out E fd st =
     (case get_client_from_socket E fd st of
        None \<Rightarrow> Some (-1, st)
      | Some client \<Rightarrow> client_flush_outgoing_queue E client st)"

end
