(* ===== verification/Read_Write.thy ===== *)
theory Read_Write
  imports Unix_Socket
begin

text \<open>
  \<open>src/common/readwrite.c\<close>: reads and writes of a given length on a file descriptor, over the
  environment of the socket wrappers. A \<open>continue\<close> inside \<open>do ... while (count - i > 0 \<and> ret > 0)\<close> goes to
  the test of the condition, with the negative result of the interrupted call.
\<close>

section \<open>Functions\<close>

abbreviation (input) SSIZE_MAX :: nat where "SSIZE_MAX \<equiv> 2 ^ 63 - 1"
abbreviation (input) EINVAL :: int where "EINVAL \<equiv> 22"

function read_loop :: "sock \<Rightarrow> mem \<Rightarrow> nat \<Rightarrow> nat \<Rightarrow> nat \<Rightarrow> (int \<times> mem \<times> sock) run" where
  "read_loop s m off i count =
     (case recvmsg s (count - i) of
        (EINTR, s') \<Rightarrow> Some (int i, m, s')
      | (EAGAIN, s') \<Rightarrow> Some (if i = 0 then -1 else int i, m, s')
      | (Error, s') \<Rightarrow> Some (if i = 0 then -1 else int i, m, s')
      | (Done bs, s') \<Rightarrow>
          (case wr_bytes m (off + i) bs of
             None \<Rightarrow> crash
           | Some m' \<Rightarrow>
               if count - (i + length bs) > 0 \<and> bs \<noteq> [] then read_loop s' m' off (i + length bs) count
               else Some (int (i + length bs), m', s')))"
  by pat_completeness auto
termination
  by (relation "measure (\<lambda>(s, m, off, i, count). count - i)") (auto intro: diff_less_mono2)

definition lttng_read :: "sock \<Rightarrow> mem \<Rightarrow> nat \<Rightarrow> nat \<Rightarrow> (int \<times> mem \<times> sock) run" where
  "lttng_read s m off count = (if count > SSIZE_MAX then Some (- EINVAL, m, s) else read_loop s m off 0 count)"

function write_loop :: "sock \<Rightarrow> byte list \<Rightarrow> nat \<Rightarrow> int \<times> sock" where
  "write_loop s bs i =
     (case sendmsg s (drop i bs) of
        (EINTR, s') \<Rightarrow> (int i, s')
      | (EAGAIN, s') \<Rightarrow> (if i = 0 then -1 else int i, s')
      | (Error, s') \<Rightarrow> (if i = 0 then -1 else int i, s')
      | (Done n, s') \<Rightarrow>
          if length bs - (i + n) > 0 \<and> n > 0 then write_loop s' bs (i + n) else (int (i + n), s'))"
  by pat_completeness auto
termination
  by (relation "measure (\<lambda>(s, bs, i). length bs - i)") auto

definition lttng_write :: "sock \<Rightarrow> byte list \<Rightarrow> int \<times> sock" where
  "lttng_write s bs = (if length bs > SSIZE_MAX then (- EINVAL, s) else write_loop s bs 0)"

declare read_loop.simps [simp del] write_loop.simps [simp del]

section \<open>Transfers\<close>

lemma read_loop_complete:
  assumes "list_all (\<lambda>x. \<exists>n. x = Part n) (rx_outcomes s)" "i \<le> count" "count - i \<le> length (rx s)" "off + count \<le> length m"
  shows "\<exists>s'. read_loop s m off i count =
      Some (int count, take (off + i) m @ map Some (take (count - i) (rx s)) @ drop (off + count) m, s') \<and>
    rx s' = drop (count - i) (rx s) \<and> tx s' = tx s"
  using assms
proof (induction s m off i count rule: read_loop.induct)
  case (1 s m off i count)
  obtain bs s1 where r: "recvmsg s (count - i) = (Done bs, s1)" "list_all (\<lambda>x. \<exists>n. x = Part n) (rx_outcomes s1)"
    using 1(2) by (cases "rx_outcomes s") (auto simp: recvmsg_def)
  have d: "length bs \<le> count - i" "rx s = bs @ rx s1" "bs = [] \<longrightarrow> count - i = 0" "tx s1 = tx s"
    using recvmsg_Done[OF r(1)] 1(4) by auto
  let ?m = "take (off + i) m @ map Some bs @ drop (off + i + length bs) m"
  have w: "wr_bytes m (off + i) bs = Some ?m" using d(1) 1(3,5) by (simp add: wr_bytes_split)
  show ?case
  proof (cases "count - (i + length bs) > 0 \<and> bs \<noteq> []")
    case True
    have len: "length ?m = length m" using d(1) 1(3,5) by simp
    have "i + length bs \<le> count" "count - (i + length bs) \<le> length (rx s1)" "off + count \<le> length ?m"
      using True d 1(4,5) len by auto
    from 1(1)[OF r(1)[symmetric] refl w True r(2) this] obtain s' where
      s': "read_loop s1 ?m off (i + length bs) count = Some (int count,
        take (off + (i + length bs)) ?m @ map Some (take (count - (i + length bs)) (rx s1)) @ drop (off + count) ?m, s')"
      "rx s' = drop (count - (i + length bs)) (rx s1)" "tx s' = tx s1" by blast
    have "drop (off + count) ?m = drop (off + count) m"
      using d(1) 1(3,5) by (auto simp: min_def add.commute)
    moreover have "take (off + (i + length bs)) ?m = take (off + i) m @ map Some bs"
      using d(1) 1(3,5) True by (simp add: min_def)
    ultimately show ?thesis using s' r(1) w True d by (simp add: read_loop.simps[of s])
  next
    case False
    then have "length bs = count - i" using d by auto
    then show ?thesis using r(1) w False d 1(3) by (auto simp: read_loop.simps[of s])
  qed
qed

lemma write_loop_complete:
  assumes "list_all (\<lambda>x. \<exists>n. x = Part n) (tx_outcomes s)" "i \<le> length bs"
  shows "\<exists>s'. write_loop s bs i = (int (length bs), s') \<and> tx s' = tx s @ drop i bs \<and> rx s' = rx s"
  using assms
proof (induction s bs i rule: write_loop.induct)
  case (1 s bs i)
  obtain n s1 where r: "sendmsg s (drop i bs) = (Done n, s1)" "list_all (\<lambda>x. \<exists>n. x = Part n) (tx_outcomes s1)"
    using 1(2) by (cases "tx_outcomes s") (auto simp: sendmsg_def)
  have d: "n \<le> length bs - i" "tx s1 = tx s @ take n (drop i bs)" "n = 0 \<longrightarrow> length bs - i = 0" "rx s1 = rx s"
    using sendmsg_Done[OF r(1)] by auto
  show ?case
  proof (cases "length bs - (i + n) > 0 \<and> n > 0")
    case True
    then have "i + n \<le> length bs" by simp
    from 1(1)[OF r(1)[symmetric] refl True r(2) this] obtain s' where
      "write_loop s1 bs (i + n) = (int (length bs), s')" "tx s' = tx s1 @ drop (i + n) bs" "rx s' = rx s1" by blast
    moreover have "drop i bs = take n (drop i bs) @ drop (i + n) bs"
      using append_take_drop_id[of n "drop i bs"] by (simp add: add.commute)
    ultimately show ?thesis using r(1) True d by (simp add: write_loop.simps[of s])
  next
    case False
    then have "n = length bs - i" using d by auto
    then show ?thesis using r(1) False d 1(3) by (auto simp: write_loop.simps[of s])
  qed
qed

section \<open>Properties\<close>

text \<open>
  C32: without signals the functions transfer all the bytes, whatever parts the kernel takes and gives:
  reading stores the next \<open>count\<close> bytes of the stream and leaves the rest of the object alone, writing
  puts all bytes on the stream, and both return the length.
\<close>

theorem lttng_read_write_complete:
  assumes "list_all (\<lambda>x. \<exists>n. x = Part n) (rx_outcomes s)" "list_all (\<lambda>x. \<exists>n. x = Part n) (tx_outcomes s)"
    and "count \<le> length (rx s)" "off + count \<le> length m" "count \<le> SSIZE_MAX" "length bs \<le> SSIZE_MAX"
  shows "(\<exists>s'. lttng_read s m off count =
        Some (int count, take off m @ map Some (take count (rx s)) @ drop (off + count) m, s') \<and> rx s' = drop count (rx s)) \<and>
    (\<exists>s'. lttng_write s bs = (int (length bs), s') \<and> tx s' = tx s @ bs)"
  using read_loop_complete[OF assms(1) _ _ assms(4), of 0] write_loop_complete[OF assms(2), of 0 bs] assms(3,5,6)
  by (auto simp: lttng_read_def lttng_write_def)

theorem lttng_read_write_complete_witness:
  "\<exists>s'. lttng_read \<lparr>rx = [1, 2, 3], rx_outcomes = [Part 0], tx = [], tx_outcomes = []\<rparr> [None, None] 0 2 =
      Some (2, [Some 1, Some 2], s') \<and> rx s' = [3]"
  using lttng_read_write_complete[of "\<lparr>rx = [1, 2, 3], rx_outcomes = [Part 0], tx = [], tx_outcomes = []\<rparr>" 2 0 "[None, None]" "[]"]
  by auto

text \<open>
  A signal ends a transfer early although the comment promises to take care of it: the interrupted call
  is not repeated, and the caller gets the number of bytes that were transferred before it.
\<close>

theorem lttng_read_interrupted:
  assumes "rx_outcomes s = Interrupted # os" "tx_outcomes s = Interrupted # os'" "count \<le> SSIZE_MAX" "length bs \<le> SSIZE_MAX"
  shows "lttng_read s m off count = Some (0, m, s\<lparr>rx_outcomes := os\<rparr>) \<and> lttng_write s bs = (0, s\<lparr>tx_outcomes := os'\<rparr>)"
  using assms
  by (simp add: lttng_read_def lttng_write_def read_loop.simps[of s] write_loop.simps[of s] recvmsg_def sendmsg_def)

end
