(* ===== verification/Notification_Triggers.thy ===== *)
theory Notification_Triggers
  imports Notification_Thread Read_Write
begin

text \<open>
  The second half of \<open>notification-thread-events.c\<close>: the commands of the rest of the session daemon
  (channels and triggers that come and go), the queue they come through, and the samples of the
  consumers, whose evaluations are sent to the clients.
\<close>

section \<open>Channels\<close>

definition channel_info_destroy :: "channel_info option \<Rightarrow> heap \<Rightarrow> heap" where
  "channel_info_destroy info h =
     (case info of
        None \<Rightarrow> h
      | Some i \<Rightarrow> c_free (c_free_opt (info_channel_name i) (c_free_opt (info_session_name i) h)))"

definition channel_info_copy ::
  "channel_info \<Rightarrow> 't thread_state \<Rightarrow> ((nat \<times> channel_info) option \<times> 't thread_state) run"
where
  "channel_info_copy info st = do {
     let (copy, st) = alloc st;
     c_assert (info_session_name info \<noteq> None);
     c_assert (info_channel_name info \<noteq> None);
     (case copy of
        None \<Rightarrow> Some (None, st)
      | Some a \<Rightarrow>
          let copy = info\<lparr>info_session_name := None, info_channel_name := None\<rparr>;
              (ok, h) = zmalloc (ledger st) in
          if \<not> ok then Some (None, st\<lparr>ledger := channel_info_destroy (Some copy) h\<rparr>)
          else let copy = copy\<lparr>info_session_name := info_session_name info\<rparr>; (ok, h) = zmalloc h in
            if \<not> ok then Some (None, st\<lparr>ledger := channel_info_destroy (Some copy) h\<rparr>)
            else Some (Some (a, copy\<lparr>info_channel_name := info_channel_name info\<rparr>), st\<lparr>ledger := h\<rparr>))
   }"

text \<open>
  The triggers that apply to a channel, the last one of the iteration first; \<open>False\<close> when an element of
  the list cannot be allocated.
\<close>

fun applying_triggers ::
  "nat list \<Rightarrow> channel_info \<Rightarrow> nat list \<Rightarrow> 't thread_state \<Rightarrow> (bool \<times> nat list \<times> 't thread_state) run"
where
  "applying_triggers [] info acc st = Some (True, acc, st)"
| "applying_triggers (node # nodes) info acc st = do {
     trigger \<leftarrow> trigger_elements st node;
     t \<leftarrow> triggers st trigger;
     applies \<leftarrow> trigger_applies_to_channel t info;
     if \<not> applies then applying_triggers nodes info acc st
     else case alloc st of
       (None, st) \<Rightarrow> Some (False, acc, st)
     | (Some _, st) \<Rightarrow> applying_triggers nodes info (trigger # acc) st
   }"

datatype lttng_error_code =
    LTTNG_OK
  | LTTNG_ERR_NOT_SUPPORTED
  | LTTNG_ERR_TRIGGER_EXISTS
  | LTTNG_ERR_TRIGGER_NOT_FOUND

text \<open>The result of a command is the return value and the reply code, if it is stored.\<close>

definition handle_notification_thread_command_add_channel ::
  "'t thread_env \<Rightarrow> channel_info \<Rightarrow> 't thread_state \<Rightarrow> (int \<times> lttng_error_code option \<times> 't thread_state) run"
where
  "handle_notification_thread_command_add_channel E info st = do {
     (new_info, st) \<leftarrow> channel_info_copy info st;
     (case new_info of
        None \<Rightarrow> Some (1, None, st)
      | Some (a, new_info) \<Rightarrow> do {
          (ok, trigger_list, st) \<leftarrow> applying_triggers (lfht_nodes E (triggers_ht st)) info [] st;
          if \<not> ok then Some (1, None, st\<lparr>ledger := channel_info_destroy (Some new_info) (ledger st)\<rparr>)
          else case alloc st of
            (None, st) \<Rightarrow> Some (1, None, st\<lparr>ledger := channel_info_destroy (Some new_info) (ledger st)\<rparr>)
          | (Some l, st) \<Rightarrow>
              let hash = hash_channel_key (ht_seed E) (info_key new_info) in
              Some (0, Some LTTNG_OK, st\<lparr>
                channels := (channels st)(a \<mapsto> new_info),
                trigger_lists := (trigger_lists st)(l \<mapsto> \<lparr>tl_channel_key = info_key new_info, tl_triggers = trigger_list\<rparr>),
                channels_ht := lfht_add E (channels_ht st) hash a,
                channel_triggers_ht := lfht_add E (channel_triggers_ht st) hash l\<rparr>)
        })
   }"

definition lookup_trigger_list :: "'t thread_env \<Rightarrow> channel_key \<Rightarrow> 't thread_state \<Rightarrow> nat option" where
  "lookup_trigger_list E key st =
     lfht_lookup E (channel_triggers_ht st) (hash_channel_key (ht_seed E) key) (match_channel_trigger_list st key)"

definition lookup_sample :: "'t thread_env \<Rightarrow> channel_key \<Rightarrow> 't thread_state \<Rightarrow> nat option" where
  "lookup_sample E key st =
     lfht_lookup E (channel_state_ht st) (hash_channel_key (ht_seed E) key) (match_channel_state_sample st key)"

definition lookup_channel :: "'t thread_env \<Rightarrow> channel_key \<Rightarrow> 't thread_state \<Rightarrow> nat option" where
  "lookup_channel E key st =
     lfht_lookup E (channels_ht st) (hash_channel_key (ht_seed E) key) (match_channel_info st key)"

definition handle_notification_thread_command_remove_channel ::
  "'t thread_env \<Rightarrow> channel_key \<Rightarrow> 't thread_state \<Rightarrow> (int \<times> lttng_error_code option \<times> 't thread_state) run"
where
  "handle_notification_thread_command_remove_channel E key st =
     (case lookup_trigger_list E key st of
        None \<Rightarrow> Some (0, Some LTTNG_OK, st)
      | Some l \<Rightarrow> do {
          trigger_list \<leftarrow> trigger_lists st l;
          let h = (c_free ^^ length (tl_triggers trigger_list)) (ledger st);
          let st = st\<lparr>ledger := c_free h, trigger_lists := (trigger_lists st)(l := None),
                      channel_triggers_ht := lfht_del E (channel_triggers_ht st) l\<rparr>;
          let st = (case lookup_sample E key st of
                      None \<Rightarrow> st
                    | Some s \<Rightarrow> st\<lparr>channel_state_ht := lfht_del E (channel_state_ht st) s,
                                   samples := (samples st)(s := None), ledger := c_free (ledger st)\<rparr>);
          a \<leftarrow> lookup_channel E key st; \<comment> \<open>asserted\<close>
          info \<leftarrow> channels st a;
          Some (0, Some LTTNG_OK, st\<lparr>channels_ht := lfht_del E (channels_ht st) a,
            channels := (channels st)(a := None), ledger := channel_info_destroy (Some info) (ledger st)\<rparr>)
        })"

section \<open>Triggers\<close>

definition trigger_applies_to_client :: "cond option \<Rightarrow> notification_client \<Rightarrow> bool" where
  "trigger_applies_to_client condition client =
     list_ex (\<lambda>e. lttng_condition_is_equal (Some (snd e)) condition) (condition_list client)"

fun applying_clients ::
  "nat list \<Rightarrow> cond option \<Rightarrow> (nat \<times> nat) list \<Rightarrow> 't thread_state \<Rightarrow> (bool \<times> (nat \<times> nat) list \<times> 't thread_state) run"
where
  "applying_clients [] condition acc st = Some (True, acc, st)"
| "applying_clients (client # nodes) condition acc st = do {
     c \<leftarrow> clients st client;
     if \<not> trigger_applies_to_client condition c then applying_clients nodes condition acc st
     else case alloc st of
       (None, st) \<Rightarrow> Some (False, acc, st)
     | (Some element, st) \<Rightarrow> applying_clients nodes condition ((element, client) # acc) st
   }"

text \<open>The trigger is added to the list of the first channel it applies to.\<close>

fun bind_to_channel ::
  "'t thread_env \<Rightarrow> nat list \<Rightarrow> nat \<Rightarrow> 't thread_state \<Rightarrow> (int \<times> 't thread_state) run"
where
  "bind_to_channel E [] trigger st = Some (0, st)"
| "bind_to_channel E (channel # nodes) trigger st = do {
     info \<leftarrow> channels st channel;
     t \<leftarrow> triggers st trigger;
     applies \<leftarrow> trigger_applies_to_channel t info;
     if \<not> applies then bind_to_channel E nodes trigger st
     else do {
       l \<leftarrow> lookup_trigger_list E (info_key info) st; \<comment> \<open>asserted\<close>
       trigger_list \<leftarrow> trigger_lists st l;
       (case alloc st of
          (None, st) \<Rightarrow> Some (-1, st)
        | (Some _, st) \<Rightarrow> Some (0, st\<lparr>trigger_lists := (trigger_lists st)(l \<mapsto>
            trigger_list\<lparr>tl_triggers := trigger # tl_triggers trigger_list\<rparr>)\<rparr>))
     }
   }"

definition destroy_trigger :: "nat \<Rightarrow> 't thread_state \<Rightarrow> 't thread_state run" where
  "destroy_trigger trigger st = do {
     t \<leftarrow> triggers st trigger;
     h \<leftarrow> lttng_condition_destroy (tcondition t) (ledger st);
     h \<leftarrow> lttng_action_destroy (taction t) h;
     Some (st\<lparr>ledger := lttng_trigger_destroy (Some t) h, triggers := (triggers st)(trigger := None)\<rparr>)
   }"

text \<open>A trigger that is new: its list of clients, and the channel it applies to.\<close>

definition bind_trigger ::
  "'t thread_env \<Rightarrow> nat \<Rightarrow> cond \<Rightarrow> u64 \<Rightarrow> 't thread_state \<Rightarrow> (int \<times> lttng_error_code option \<times> 't thread_state) run"
where
  "bind_trigger E trigger condition hash st =
     (case alloc st of
        (None, st) \<Rightarrow> Some (-1, None, st)
      | (Some client_list, st) \<Rightarrow> do {
          (ok, elements, st) \<leftarrow> applying_clients (lfht_nodes E (client_socket_ht st)) (Some condition) [] st;
          if \<not> ok then Some (-1, None, st\<lparr>ledger := c_free ((c_free ^^ length elements) (ledger st))\<rparr>)
          else do {
            let st = st\<lparr>client_lists := (client_lists st)(client_list \<mapsto> \<lparr>list_trigger = trigger, list_clients = elements\<rparr>),
                        notification_trigger_clients_ht := lfht_add E (notification_trigger_clients_ht st) hash client_list\<rparr>;
            (ret, st) \<leftarrow> bind_to_channel E (lfht_nodes E (channels_ht st)) trigger st;
            Some (ret, if ret = 0 then Some LTTNG_OK else None, st)
          }
        })"

definition handle_notification_thread_command_register_trigger ::
  "'t thread_env \<Rightarrow> nat \<Rightarrow> 't thread_state \<Rightarrow> (int \<times> lttng_error_code option \<times> 't thread_state) run"
where
  "handle_notification_thread_command_register_trigger E trigger st = do {
     condition \<leftarrow> trigger_condition st trigger;
     let ret = condition_is_supported (tracer_positions E) condition;
     if ret < 0 then do { st \<leftarrow> destroy_trigger trigger st; Some (ret, None, st) }
     else if ret = 0 then do { st \<leftarrow> destroy_trigger trigger st; Some (0, Some LTTNG_ERR_NOT_SUPPORTED, st) }
     else case alloc st of
       (None, st) \<Rightarrow> do { st \<leftarrow> destroy_trigger trigger st; Some (-1, None, st) }
     | (Some element, st) \<Rightarrow> do {
         let st = st\<lparr>trigger_elements := (trigger_elements st)(element \<mapsto> trigger)\<rparr>;
         hash \<leftarrow> lttng_condition_hash (ht_seed E) condition;
         let (node, ht) = lfht_add_unique E (triggers_ht st) hash (match_condition st condition) element;
         let st = st\<lparr>triggers_ht := ht\<rparr>;
         if node \<noteq> element then do {
           let st = st\<lparr>trigger_elements := (trigger_elements st)(element := None), ledger := c_free (ledger st)\<rparr>;
           st \<leftarrow> destroy_trigger trigger st;
           Some (0, Some LTTNG_ERR_TRIGGER_EXISTS, st)
         }
         else bind_trigger E trigger condition hash st
       }
   }"

text \<open>The elements that leave a list are not released.\<close>

fun unbind_triggers :: "cond \<Rightarrow> nat list \<Rightarrow> 't thread_state \<Rightarrow> nat list run" where
  "unbind_triggers condition [] st = Some []"
| "unbind_triggers condition (trigger # rest) st = do {
     current \<leftarrow> trigger_condition st trigger; \<comment> \<open>asserted\<close>
     rest \<leftarrow> unbind_triggers condition rest st;
     Some (if lttng_condition_is_equal (Some condition) (Some current) then rest else trigger # rest)
   }"

fun unbind_channels :: "cond \<Rightarrow> nat list \<Rightarrow> 't thread_state \<Rightarrow> 't thread_state run" where
  "unbind_channels condition [] st = Some st"
| "unbind_channels condition (l # nodes) st = do {
     trigger_list \<leftarrow> trigger_lists st l;
     rest \<leftarrow> unbind_triggers condition (tl_triggers trigger_list) st;
     unbind_channels condition nodes (st\<lparr>trigger_lists := (trigger_lists st)(l \<mapsto> trigger_list\<lparr>tl_triggers := rest\<rparr>)\<rparr>)
   }"

definition handle_notification_thread_command_unregister_trigger ::
  "'t thread_env \<Rightarrow> nat \<Rightarrow> 't thread_state \<Rightarrow> (int \<times> lttng_error_code option \<times> 't thread_state) run"
where
  "handle_notification_thread_command_unregister_trigger E trigger st = do {
     condition \<leftarrow> trigger_condition st trigger;
     hash \<leftarrow> lttng_condition_hash (ht_seed E) condition;
     (case lfht_lookup E (triggers_ht st) hash (match_condition st condition) of
        None \<Rightarrow> Some (0, Some LTTNG_ERR_TRIGGER_NOT_FOUND, st)
      | Some node \<Rightarrow> do {
          st \<leftarrow> unbind_channels condition (lfht_nodes E (channel_triggers_ht st)) st;
          l \<leftarrow> lfht_lookup E (notification_trigger_clients_ht st) hash (match_client_list st trigger); \<comment> \<open>asserted\<close>
          client_list \<leftarrow> client_lists st l;
          let h = (c_free ^^ length (list_clients client_list)) (ledger st);
          let st = st\<lparr>ledger := c_free h, client_lists := (client_lists st)(l := None),
                      notification_trigger_clients_ht := lfht_del E (notification_trigger_clients_ht st) l,
                      triggers_ht := lfht_del E (triggers_ht st) node\<rparr>;
          registered \<leftarrow> trigger_elements st node;
          st \<leftarrow> destroy_trigger registered st;
          Some (0, Some LTTNG_OK, st\<lparr>trigger_elements := (trigger_elements st)(node := None), ledger := c_free (ledger st)\<rparr>)
        })
   }"

fun unregister_triggers ::
  "'t thread_env \<Rightarrow> nat list \<Rightarrow> bool \<Rightarrow> 't thread_state \<Rightarrow> (bool \<times> 't thread_state) run"
where
  "unregister_triggers E [] error_occurred st = Some (error_occurred, st)"
| "unregister_triggers E (node # nodes) error_occurred st = do {
     trigger \<leftarrow> trigger_elements st node;
     (ret, reply, st) \<leftarrow> handle_notification_thread_command_unregister_trigger E trigger st;
     unregister_triggers E nodes (error_occurred \<or> ret \<noteq> 0) st
   }"

definition handle_notification_thread_trigger_unregister_all ::
  "'t thread_env \<Rightarrow> 't thread_state \<Rightarrow> (int \<times> 't thread_state) run"
where
  "handle_notification_thread_trigger_unregister_all E st = do {
     (error_occurred, st) \<leftarrow> unregister_triggers E (lfht_nodes E (triggers_ht st)) False st;
     Some (if error_occurred then -1 else 0, st)
   }"

section \<open>The command queue\<close>

datatype notification_thread_command =
    NOTIFICATION_COMMAND_TYPE_REGISTER_TRIGGER nat
  | NOTIFICATION_COMMAND_TYPE_UNREGISTER_TRIGGER nat
  | NOTIFICATION_COMMAND_TYPE_ADD_CHANNEL channel_info
  | NOTIFICATION_COMMAND_TYPE_REMOVE_CHANNEL channel_key
  | NOTIFICATION_COMMAND_TYPE_QUIT

text \<open>
  The result is the return value, the queue, what the issuer of the command finds as its reply code
  when it is woken up (if it is, and if one was stored), and the state. \<open>event\<close> tells whether the read of
  the event descriptor succeeds. The code of a fatal error is stored after the wake-up.
\<close>

definition handle_notification_thread_command ::
  "'t thread_env \<Rightarrow> bool \<Rightarrow> notification_thread_command list \<Rightarrow> 't thread_state \<Rightarrow>
     (int \<times> notification_thread_command list \<times> lttng_error_code option option \<times> 't thread_state) run"
where
  "handle_notification_thread_command E event cmd_queue st =
     (if \<not> event then Some (-1, cmd_queue, None, st)
      else case cmd_queue of
        [] \<Rightarrow> crash
      | cmd # rest \<Rightarrow>
          if cmd = NOTIFICATION_COMMAND_TYPE_QUIT then Some (1, rest, Some (Some LTTNG_OK), st)
          else do {
            (ret, reply, st) \<leftarrow>
              (case cmd of
                 NOTIFICATION_COMMAND_TYPE_REGISTER_TRIGGER trigger \<Rightarrow>
                   handle_notification_thread_command_register_trigger E trigger st
               | NOTIFICATION_COMMAND_TYPE_UNREGISTER_TRIGGER trigger \<Rightarrow>
                   handle_notification_thread_command_unregister_trigger E trigger st
               | NOTIFICATION_COMMAND_TYPE_ADD_CHANNEL info \<Rightarrow>
                   handle_notification_thread_command_add_channel E info st
               | NOTIFICATION_COMMAND_TYPE_REMOVE_CHANNEL key \<Rightarrow>
                   handle_notification_thread_command_remove_channel E key st
               | NOTIFICATION_COMMAND_TYPE_QUIT \<Rightarrow> crash);
            Some (if ret \<noteq> 0 then (-1, cmd_queue, Some reply, st) else (0, rest, Some reply, st))
          })"

section \<open>Notifications\<close>

definition client_enqueue_dropped_notification :: "nat \<Rightarrow> 't thread_state \<Rightarrow> (int \<times> 't thread_state) run" where
  "client_enqueue_dropped_notification client st =
     append_out client (message_header LTTNG_NOTIFICATION_CHANNEL_MESSAGE_TYPE_NOTIFICATION_DROPPED 0) st"

text \<open>
  The iteration has read the address of the next element before it handles one: it crashes when that
  element is released in between.
\<close>

fun send_to_clients ::
  "'t thread_env \<Rightarrow> nat \<Rightarrow> (nat \<times> nat) list \<Rightarrow> lttng_dynamic_buffer \<Rightarrow> u32 \<Rightarrow> u32 \<Rightarrow> 't thread_state \<Rightarrow>
     (int \<times> 't thread_state) run"
where
  "send_to_clients E l [] msg_buffer uid gid st = Some (0, st)"
| "send_to_clients E l ((element, client) # elements) msg_buffer uid gid st = do {
     client_list \<leftarrow> client_lists st l;
     c_assert ((element, client) \<in> set (list_clients client_list));
     c \<leftarrow> clients st client;
     if client_uid c \<noteq> uid \<and> client_gid c \<noteq> gid \<and> client_uid c \<noteq> 0
     then send_to_clients E l elements msg_buffer uid gid st
     else if bsize (out_buffer c) \<noteq> 0 then
       (if dropped_notification c then send_to_clients E l elements msg_buffer uid gid st
        else do {
          (ret, st) \<leftarrow> client_enqueue_dropped_notification client
             (put_client client (c\<lparr>dropped_notification := True\<rparr>) st);
          if ret \<noteq> 0 then Some (ret, st) else send_to_clients E l elements msg_buffer uid gid st
        })
     else do {
       (ret, b, h) \<leftarrow> lttng_dynamic_buffer_append_buffer (ledger st) (Some (out_buffer c)) (Some msg_buffer);
       b \<leftarrow> b;
       let st = put_client client (c\<lparr>out_buffer := b\<rparr>) (st\<lparr>ledger := h\<rparr>);
       if ret \<noteq> 0 then Some (ret, st)
       else do {
         (ret, st) \<leftarrow> client_flush_outgoing_queue E client st;
         if ret \<noteq> 0 then Some (ret, st) else send_to_clients E l elements msg_buffer uid gid st
       }
     }
   }"

text \<open>The message: its header and the serialized notification.\<close>

definition build_message ::
  "lttng_notification option \<Rightarrow> heap \<Rightarrow> (int \<times> lttng_dynamic_buffer \<times> heap) run"
where
  "build_message notification h = do {
     let b = lttng_dynamic_buffer_init;
     (expected, _) \<leftarrow> lttng_notification_serialize notification None [];
     if expected < 0 then Some (-1, b, h)
     else do {
       let msg = map Some (message_header LTTNG_NOTIFICATION_CHANNEL_MESSAGE_TYPE_NOTIFICATION (of_int expected));
       (ret, b, h) \<leftarrow> lttng_dynamic_buffer_append h (Some b) (Some msg) 5;
       b \<leftarrow> b;
       if ret \<noteq> 0 then Some (ret, b, h)
       else do {
         (ret, b, h) \<leftarrow> lttng_dynamic_buffer_set_size h (Some b) (bsize b + of_int expected);
         b \<leftarrow> b;
         if ret \<noteq> 0 then Some (ret, b, h)
         else do {
           m \<leftarrow> block_cells (bdata b);
           (n, m) \<leftarrow> lttng_notification_serialize notification (Some header_size) m;
           Some (if n \<noteq> expected then -1 else 0, b\<lparr>bdata := Live m\<rparr>, h)
         }
       }
     }
   }"

definition send_evaluation_to_clients ::
  "'t thread_env \<Rightarrow> nat \<Rightarrow> evaluation \<Rightarrow> nat \<Rightarrow> u32 \<Rightarrow> u32 \<Rightarrow> 't thread_state \<Rightarrow> (int \<times> 't thread_state) run"
where
  "send_evaluation_to_clients E trigger evaluation l uid gid st = do {
     condition \<leftarrow> trigger_condition st trigger;
     let (notification, h) = lttng_notification_create (ledger st) (Some condition) (Some evaluation);
     let st = st\<lparr>ledger := h\<rparr>;
     if notification = None then Some (-1, st)
     else do {
       (ret, msg_buffer, h) \<leftarrow> build_message notification (ledger st);
       let st = st\<lparr>ledger := h\<rparr>;
       (ret, st) \<leftarrow>
         (if ret \<noteq> 0 then Some (ret, st)
          else do {
            client_list \<leftarrow> client_lists st l;
            send_to_clients E l (list_clients client_list) msg_buffer uid gid st
          });
       h \<leftarrow> lttng_notification_destroy notification (ledger st);
       (_, h) \<leftarrow> lttng_dynamic_buffer_reset h (Some msg_buffer);
       Some (ret, st\<lparr>ledger := h\<rparr>)
     }
   }"

section \<open>Samples\<close>

fun evaluate_triggers ::
  "'t thread_env \<Rightarrow> nat list \<Rightarrow> channel_info \<Rightarrow> channel_state_sample option \<Rightarrow> channel_state_sample \<Rightarrow>
     't thread_state \<Rightarrow> (int \<times> 't thread_state) run"
where
  "evaluate_triggers E [] info previous latest st = Some (0, st)"
| "evaluate_triggers E (trigger # rest) info previous latest st = do {
     t \<leftarrow> triggers st trigger;
     condition \<leftarrow> tcondition t;
     c_assert (lttng_action_get_type (taction t) = LTTNG_ACTION_TYPE_NOTIFY);
     hash \<leftarrow> lttng_condition_hash (ht_seed E) condition;
     l \<leftarrow> lfht_lookup E (notification_trigger_clients_ht st) hash (match_client_list st trigger); \<comment> \<open>asserted\<close>
     client_list \<leftarrow> client_lists st l;
     if list_clients client_list = [] then evaluate_triggers E rest info previous latest st
     else do {
       (ret, evaluation, h) \<leftarrow> evaluate_condition condition True previous latest (info_capacity info) (ledger st);
       let st = st\<lparr>ledger := h\<rparr>;
       if ret \<noteq> 0 then Some (ret, st)
       else case evaluation of
         None \<Rightarrow> evaluate_triggers E rest info previous latest st
       | Some evaluation \<Rightarrow> do {
           (ret, st) \<leftarrow> send_evaluation_to_clients E trigger evaluation l (info_uid info) (info_gid info) st;
           if ret \<noteq> 0 then Some (ret, st) else evaluate_triggers E rest info previous latest st
         }
     }
   }"

text \<open>The sample that is stored for a channel is replaced or added; the previous one is returned.\<close>

definition store_sample ::
  "'t thread_env \<Rightarrow> channel_state_sample \<Rightarrow> 't thread_state \<Rightarrow> (int \<times> channel_state_sample option \<times> 't thread_state) run"
where
  "store_sample E latest st =
     (case lookup_sample E (sample_key latest) st of
        Some a \<Rightarrow> do {
          stored \<leftarrow> samples st a;
          Some (0, Some stored, st\<lparr>samples := (samples st)(a \<mapsto>
            stored\<lparr>highest_usage := highest_usage latest, lowest_usage := lowest_usage latest\<rparr>)\<rparr>)
        }
      | None \<Rightarrow>
          (case alloc st of
             (None, st) \<Rightarrow> Some (-1, None, st)
           | (Some a, st) \<Rightarrow> Some (0, None, st\<lparr>samples := (samples st)(a \<mapsto> latest),
               channel_state_ht := lfht_add E (channel_state_ht st) (hash_channel_key (ht_seed E) (sample_key latest)) a\<rparr>)))"

definition monitor_msg_sample :: "byte list \<Rightarrow> lttng_domain_type \<Rightarrow> channel_state_sample" where
  "monitor_msg_sample raw domain =
     \<lparr>sample_key = \<lparr>chan_key = of_nat (le_val (take 8 raw)), chan_domain = domain\<rparr>,
      highest_usage = of_nat (le_val (take 8 (drop 16 raw))),
      lowest_usage = of_nat (le_val (take 8 (drop 8 raw)))\<rparr>"

definition handle_notification_thread_channel_sample ::
  "'t thread_env \<Rightarrow> int \<Rightarrow> lttng_domain_type \<Rightarrow> 't thread_state \<Rightarrow> (int \<times> 't thread_state) run"
where
  "handle_notification_thread_channel_sample E pipe domain st =
     (case socks st pipe of
        None \<Rightarrow> Some (-1, st)
      | Some s \<Rightarrow> do {
          (ret, sample_msg, s) \<leftarrow> lttng_read s (replicate 24 None) 0 24;
          let st = st\<lparr>socks := (socks st)(pipe \<mapsto> s)\<rparr>;
          if ret \<noteq> 24 then Some (-1, st)
          else do {
            raw \<leftarrow> those sample_msg;
            let latest_sample = monitor_msg_sample raw domain;
            (case lookup_channel E (sample_key latest_sample) st of
               None \<Rightarrow> Some (0, st)
             | Some a \<Rightarrow> do {
                 channel_info \<leftarrow> channels st a;
                 (ret, previous_sample, st) \<leftarrow> store_sample E latest_sample st;
                 if ret \<noteq> 0 then Some (ret, st)
                 else case lookup_trigger_list E (sample_key latest_sample) st of
                   None \<Rightarrow> Some (0, st)
                 | Some l \<Rightarrow> do {
                     trigger_list \<leftarrow> trigger_lists st l;
                     evaluate_triggers E (tl_triggers trigger_list) channel_info previous_sample latest_sample st
                   }
               })
          }
        })"

section \<open>The thread\<close>

text \<open>
  The activity that one round of \<open>lttng_poll_wait\<close> reports on a descriptor. \<open>poll_err\<close> stands for
  \<open>LPOLLERR\<close>, \<open>LPOLLHUP\<close> and \<open>LPOLLRDHUP\<close>.
\<close>

record poll_event =
  poll_fd :: int
  poll_in :: bool
  poll_out :: bool
  poll_err :: bool

record notification_thread_handle =
  event_fd :: int
  ust32_consumer :: int
  ust64_consumer :: int
  kernel_consumer :: int

definition handle_channel_monitoring_pipe ::
  "'t thread_env \<Rightarrow> notification_thread_handle \<Rightarrow> poll_event \<Rightarrow> 't thread_state \<Rightarrow> (int \<times> 't thread_state) run"
where
  "handle_channel_monitoring_pipe E handle ev st = do {
     domain \<leftarrow> (if poll_fd ev = ust32_consumer handle \<or> poll_fd ev = ust64_consumer handle then Some LTTNG_DOMAIN_UST
                else if poll_fd ev = kernel_consumer handle then Some LTTNG_DOMAIN_KERNEL
                else crash);
     if poll_err ev then Some (poll_ctl st (poll_fd ev) None)
     else do {
       (ret, st) \<leftarrow> handle_notification_thread_channel_sample E (poll_fd ev) domain st;
       Some (if ret \<noteq> 0 then -1 else 0, st)
     }
   }"

text \<open>Activity on the socket of a client: 0 when the thread goes on.\<close>

definition handle_client_activity :: "'t thread_env \<Rightarrow> poll_event \<Rightarrow> 't thread_state \<Rightarrow> (int \<times> 't thread_state) run" where
  "handle_client_activity E ev st =
     (if poll_err ev then handle_notification_thread_client_disconnect E (poll_fd ev) st
      else do {
        (ret, st) \<leftarrow> (if poll_in ev then handle_notification_thread_client_in E (poll_fd ev) st else Some (0, st));
        if ret \<noteq> 0 then Some (ret, st)
        else if poll_out ev then handle_notification_thread_client_out E (poll_fd ev) st
        else Some (0, st)
      })"

text \<open>
  One descriptor of a round: 0 when the thread goes on, 1 when it is asked to quit, -1 after an error.
  \<open>con\<close> is what the system gives for a new connection, \<open>event\<close> whether the event descriptor can be read.
\<close>

definition handle_poll_event ::
  "'t thread_env \<Rightarrow> notification_thread_handle \<Rightarrow> int \<Rightarrow> connection \<Rightarrow> bool \<Rightarrow> poll_event \<Rightarrow>
     notification_thread_command list \<Rightarrow> 't thread_state \<Rightarrow>
     (int \<times> notification_thread_command list \<times> 't thread_state) run"
where
  "handle_poll_event E handle notification_channel_socket con event ev cmd_queue st =
     (if \<not> (poll_in ev \<or> poll_out ev \<or> poll_err ev) then Some (0, cmd_queue, st)
      else if poll_fd ev = notification_channel_socket then
        (if poll_in ev then do {
           (ret, st) \<leftarrow> handle_notification_thread_client_connect E con st;
           Some (if ret < 0 then -1 else 0, cmd_queue, st)
         }
         else Some (-1, cmd_queue, st))
      else if poll_fd ev = event_fd handle then do {
        (ret, cmd_queue, _, st) \<leftarrow> handle_notification_thread_command E event cmd_queue st;
        Some (if ret < 0 then -1 else if ret > 0 then 1 else 0, cmd_queue, st)
      }
      else if poll_fd ev = ust32_consumer handle \<or> poll_fd ev = ust64_consumer handle \<or>
              poll_fd ev = kernel_consumer handle then do {
        (ret, st) \<leftarrow> handle_channel_monitoring_pipe E handle ev st;
        Some (if ret \<noteq> 0 then -1 else 0, cmd_queue, st)
      }
      else do {
        (ret, st) \<leftarrow> handle_client_activity E ev st;
        Some (if ret \<noteq> 0 then -1 else 0, cmd_queue, st)
      })"

text \<open>The destruction of a table succeeds when it is empty; the code asserts it.\<close>

definition fini_thread_state :: "'t thread_env \<Rightarrow> 't thread_state \<Rightarrow> 't thread_state run" where
  "fini_thread_state E st = do {
     (ret, st) \<leftarrow> handle_notification_thread_client_disconnect_all E st;
     c_assert (ret = 0);
     c_assert (lfht_nodes E (client_socket_ht st) = []);
     (ret, st) \<leftarrow> handle_notification_thread_trigger_unregister_all E st;
     c_assert (ret = 0);
     c_assert (lfht_nodes E (triggers_ht st) = []);
     c_assert (lfht_nodes E (channel_triggers_ht st) = []);
     c_assert (lfht_nodes E (channel_state_ht st) = []);
     c_assert (lfht_nodes E (notification_trigger_clients_ht st) = []);
     c_assert (lfht_nodes E (channels_ht st) = []);
     Some st
   }"

text \<open>
  The thread: what the successive rounds of \<open>lttng_poll_wait\<close> report, in order, with what the system
  gives to each handler; \<open>None\<close> stands for a wait that fails for another reason than a signal. The first
  component of the result tells whether the thread has ended, which it does after it has released its state.
\<close>

fun serve ::
  "'t thread_env \<Rightarrow> notification_thread_handle \<Rightarrow> int \<Rightarrow> (connection \<times> bool \<times> poll_event) option list \<Rightarrow>
     notification_thread_command list \<Rightarrow> 't thread_state \<Rightarrow> (int \<times> notification_thread_command list \<times> 't thread_state) run"
where
  "serve E handle sock [] cmd_queue st = Some (0, cmd_queue, st)"
| "serve E handle sock (None # activity) cmd_queue st = Some (-1, cmd_queue, st)"
| "serve E handle sock (Some (con, event, ev) # activity) cmd_queue st = do {
     (ret, cmd_queue, st) \<leftarrow> handle_poll_event E handle sock con event ev cmd_queue st;
     if ret \<noteq> 0 then Some (ret, cmd_queue, st) else serve E handle sock activity cmd_queue st
   }"

definition thread_notification ::
  "'t thread_env \<Rightarrow> notification_thread_handle \<Rightarrow> int \<Rightarrow> (connection \<times> bool \<times> poll_event) option list \<Rightarrow>
     notification_thread_command list \<Rightarrow> 't thread_state \<Rightarrow> (bool \<times> notification_thread_command list \<times> 't thread_state) run"
where
  "thread_notification E handle sock activity cmd_queue st = do {
     (ret, cmd_queue, st) \<leftarrow> serve E handle sock activity cmd_queue st;
     if ret = 0 then Some (False, cmd_queue, st)
     else do {
       st \<leftarrow> fini_thread_state E st;
       Some (True, cmd_queue, st)
     }
   }"

end
