(* ===== verification/Notification_Protocol.thy ===== *)
theory Notification_Protocol
  imports Notification_Triggers
begin

text \<open>
  Properties of the notification thread towards its clients: how a message of a client is received and
  answered, and how the two sides of the protocol fit together.
\<close>

section \<open>States\<close>

lemma put_client_simps [simp]:
  "clients (put_client a c st) = (clients st)(a \<mapsto> c)" "socks (put_client a c st) = socks st"
  "peers (put_client a c st) = peers st" "ledger (put_client a c st) = ledger st"
  "events (put_client a c st) = events st" "poll_results (put_client a c st) = poll_results st"
  "client_lists (put_client a c st) = client_lists st" "triggers (put_client a c st) = triggers st"
  "next_address (put_client a c st) = next_address st" "client_socket_ht (put_client a c st) = client_socket_ht st"
  "notification_trigger_clients_ht (put_client a c st) = notification_trigger_clients_ht st"
  by (simp_all add: put_client_def)

lemma put_put_client [simp]: "put_client a c' (put_client a c st) = put_client a c' st"
  by (simp add: put_client_def)

text \<open>The matching of sockets and of lists reads only a part of the state.\<close>

lemma same_matches:
  "clients st' = clients st \<Longrightarrow> match_client st' = match_client st"
  "client_lists st' = client_lists st \<Longrightarrow> triggers st' = triggers st \<Longrightarrow>
     match_client_list_condition st' = match_client_list_condition st"
  "client_lists st' = client_lists st \<Longrightarrow> triggers st' = triggers st \<Longrightarrow> match_client_list st' = match_client_list st"
  unfolding match_client_def[abs_def] match_client_list_condition_def[abs_def] match_client_list_def[abs_def]
    trigger_condition_def by (simp_all cong: option.case_cong)

lemma match_put_client:
  "clients st a = Some c \<Longrightarrow> client_socket c' = client_socket c \<Longrightarrow> match_client (put_client a c' st) = match_client st"
  by (auto simp: fun_eq_iff match_client_def split: option.splits)

section \<open>Outgoing messages\<close>

lemma set_size_zero: "buf_ok b \<Longrightarrow> lttng_dynamic_buffer_set_size h (Some b) 0 = Some (0, Some (b\<lparr>bsize := 0\<rparr>), h)"
  by (cases b) (simp add: lttng_dynamic_buffer_set_size_def)

lemma buf_ok_empty: "buf_ok b \<Longrightarrow> buf_ok (b\<lparr>bsize := 0\<rparr>)"
  by (auto simp: buf_ok_def split: block.splits)

lemma append_all:
  assumes "buf_ok b" "outcomes h = []" "unat (bsize b) + length bs \<le> 2 ^ 63"
  shows "\<exists>b' h'. lttng_dynamic_buffer_append h (Some b) (Some (map Some bs)) (of_nat (length bs)) = Some (0, Some b', h') \<and>
    buf_ok b' \<and> contents b' = contents b @ map Some bs \<and> outcomes h' = []"
proof -
  have n: "unat (of_nat (length bs) :: size_t) = length bs" using assms(3) by (simp add: unat_of_nat)
  have len: "unat (of_nat (length bs) :: size_t) = length (map Some bs)" using n by simp
  have small: "unat (bsize b) + unat (of_nat (length bs) :: size_t) \<le> 2 ^ 63" using n assms(3) by simp
  from assms(1) len small show ?thesis
  proof (cases rule: append_ok[where h = h])
    case (fails h')
    then show ?thesis using assms(2) by simp
  next
    case (appends b' h')
    with buffer_outcomes(3)[OF appends(1) assms(2)] show ?thesis by blast
  qed
qed

lemma set_size_all:
  assumes "buf_ok b" "outcomes h = []" "unat n \<le> 2 ^ 63"
  obtains b' h' where "lttng_dynamic_buffer_set_size h (Some b) n = Some (0, Some b', h')" "buf_ok b'" "bsize b' = n"
    "outcomes h' = []"
  using set_size_ok[OF assms(1,3), of h] zmalloc_ok[OF assms(2)] buffer_outcomes(2)[OF _ assms(2)] by metis

text \<open>A client whose socket takes everything, and the effect of sending bytes to it.\<close>

definition open_client :: "'t thread_state \<Rightarrow> nat \<Rightarrow> notification_client \<Rightarrow> sock \<Rightarrow> bool" where
  "open_client st a c s \<longleftrightarrow> clients st a = Some c \<and> buf_ok (out_buffer c) \<and> bsize (out_buffer c) = 0 \<and>
     socks st (client_socket c) = Some s \<and> tx_outcomes s = [] \<and> poll_results st = [] \<and> outcomes (ledger st) = []"

definition sent :: "nat \<Rightarrow> notification_client \<Rightarrow> sock \<Rightarrow> byte list \<Rightarrow> 't thread_state \<Rightarrow> 't thread_state \<Rightarrow> bool" where
  "sent a c s bs st st' \<longleftrightarrow>
     (\<exists>b h. st' = put_client a (c\<lparr>out_buffer := b, queued_command_reply := False, dropped_notification := False\<rparr>)
        (st\<lparr>socks := (socks st)(client_socket c \<mapsto> s\<lparr>tx := tx s @ bs\<rparr>),
            events := (events st)(client_socket c \<mapsto> False), ledger := h\<rparr>) \<and>
        buf_ok b \<and> bsize b = 0 \<and> outcomes h = [])"

lemma send_non_block_all:
  "tx_outcomes s = [] \<Longrightarrow> lttcomm_send_unix_sock_non_block s bs = (Inr (length bs), s\<lparr>tx := tx s @ bs\<rparr>)"
  by (simp add: lttcomm_send_unix_sock_non_block.simps[of s] sendmsg_def)

lemma flush_all:
  assumes "clients st a = Some c" "buf_ok (out_buffer c)" "contents (out_buffer c) = map Some bs" "bs \<noteq> []"
    and "socks st (client_socket c) = Some s" "tx_outcomes s = []" "poll_results st = []" "outcomes (ledger st) = []"
  shows "\<exists>st'. client_flush_outgoing_queue E a st = Some (0, st') \<and> sent a c s bs st st'"
proof -
  have n: "unat (bsize (out_buffer c)) = length bs" using length_contents[OF assms(2)] assms(3) by simp
  then have "bsize (out_buffer c) \<noteq> 0" using assms(4) by auto
  moreover have "send_to st (client_socket c) bs =
      (Inr (length bs), st\<lparr>socks := (socks st)(client_socket c \<mapsto> s\<lparr>tx := tx s @ bs\<rparr>)\<rparr>)"
    using assms(5,6) by (simp add: send_to_def send_non_block_all)
  ultimately have "client_flush_outgoing_queue E a st = Some (0,
      put_client a (c\<lparr>out_buffer := (out_buffer c)\<lparr>bsize := 0\<rparr>, queued_command_reply := False, dropped_notification := False\<rparr>)
        (st\<lparr>socks := (socks st)(client_socket c \<mapsto> s\<lparr>tx := tx s @ bs\<rparr>),
            events := (events st)(client_socket c \<mapsto> False), ledger := ledger st\<rparr>))"
    using assms n by (simp add: client_flush_outgoing_queue_def set_size_zero poll_ctl_def put_client_def Let_def)
  then show ?thesis using assms(2,8) by (auto simp: sent_def intro!: exI[of _ "(out_buffer c)\<lparr>bsize := 0\<rparr>"]
        exI[of _ "ledger st"] buf_ok_empty)
qed

lemma sent_open: "sent a c s bs st st' \<Longrightarrow> poll_results st = [] \<Longrightarrow> tx_outcomes s = [] \<Longrightarrow>
  open_client st' a (the (clients st' a)) (s\<lparr>tx := tx s @ bs\<rparr>)"
  by (auto simp: sent_def open_client_def)

lemma append_flush:
  assumes "open_client st a c s" "bs \<noteq> []" "length bs \<le> 2 ^ 63"
  shows "\<exists>st1 st'. append_out a bs st = Some (0, st1) \<and> client_flush_outgoing_queue E a st1 = Some (0, st') \<and> sent a c s bs st st'"
proof -
  note o = assms(1)[unfolded open_client_def]
  obtain b h where b: "lttng_dynamic_buffer_append (ledger st) (Some (out_buffer c)) (Some (map Some bs)) (of_nat (length bs)) =
      Some (0, Some b, h)" "buf_ok b" "contents b = contents (out_buffer c) @ map Some bs" "outcomes h = []"
    using append_all[of "out_buffer c" "ledger st" bs] o assms(3) by auto
  have e: "contents (out_buffer c) = []" using length_contents[of "out_buffer c"] o by simp
  let ?st1 = "put_client a (c\<lparr>out_buffer := b\<rparr>) (st\<lparr>ledger := h\<rparr>)"
  have 1: "append_out a bs st = Some (0, ?st1)" using o b(1) by (simp add: append_out_def)
  obtain st' where st': "client_flush_outgoing_queue E a ?st1 = Some (0, st')" "sent a (c\<lparr>out_buffer := b\<rparr>) s bs ?st1 st'"
    using flush_all[of ?st1 a "c\<lparr>out_buffer := b\<rparr>" bs s E] o b e assms(2) by auto
  moreover have "sent a c s bs st st'" using st'(2) by (auto simp: sent_def put_client_def)
  ultimately show ?thesis using 1 by blast
qed

lemma send_reply:
  assumes "open_client st a c s" "\<not> queued_command_reply c"
  shows "\<exists>st'. client_send_command_reply E a st status = Some (0, st') \<and>
    sent a c s (message LTTNG_NOTIFICATION_CHANNEL_MESSAGE_TYPE_COMMAND_REPLY [word_of_int status]) st st'"
proof -
  let ?m = "message LTTNG_NOTIFICATION_CHANNEL_MESSAGE_TYPE_COMMAND_REPLY [word_of_int status]"
  have m: "?m = message_header LTTNG_NOTIFICATION_CHANNEL_MESSAGE_TYPE_COMMAND_REPLY 1 @ [word_of_int status]"
    by (simp add: message_def)
  obtain st1 st' where s: "append_out a ?m st = Some (0, st1)" "client_flush_outgoing_queue E a st1 = Some (0, st')"
    "sent a c s ?m st st'"
    using append_flush[OF assms(1), of ?m E] by (auto simp: message_def)
  moreover have "\<exists>c'. clients st' a = Some c' \<and> bsize (out_buffer c') = 0" using s(3) by (auto simp: sent_def)
  moreover have "clients st a = Some c" using assms(1) by (simp add: open_client_def)
  ultimately show ?thesis using assms(2) by (auto simp: client_send_command_reply_def m)
qed

section \<open>Incoming messages\<close>

text \<open>The client after it has received all the bytes it waited for.\<close>

definition filled :: "notification_client \<Rightarrow> (u32 \<times> u32) option \<Rightarrow> lttng_dynamic_buffer \<Rightarrow> notification_client" where
  "filled c anc b = c\<lparr>in_buffer := b, bytes_to_receive := 0, expect_creds := False,
     creds := (if expect_creds c then the anc else creds c), creds_received := (creds_received c \<or> expect_creds c)\<rparr>"

lemma filled_simps [simp]:
  "(filled c anc b)\<lparr>bytes_to_receive := 0\<rparr> = filled c anc b" "in_buffer (filled c anc b) = b"
  "msg_type (filled c anc b) = msg_type c" "validated (filled c anc b) = validated c"
  "client_socket (filled c anc b) = client_socket c" "out_buffer (filled c anc b) = out_buffer c"
  "bytes_to_receive (filled c anc b) = 0"
  by (simp_all add: filled_def)

lemma client_receive_all:
  assumes "buf_ok (in_buffer c)" "bytes_to_receive c = bsize (in_buffer c)" "bs \<noteq> []"
    and "unat (bsize (in_buffer c)) = length bs" "rx s = bs @ r" "rx_outcomes s = []" "expect_creds c \<longrightarrow> anc \<noteq> None"
  shows "\<exists>b. client_receive c s anc = Some (int (length bs), (filled c anc b)\<lparr>bytes_to_receive := bytes_to_receive c\<rparr>, s\<lparr>rx := r\<rparr>) \<and>
    buf_ok b \<and> bsize b = bsize (in_buffer c) \<and> contents b = map Some bs"
proof -
  let ?b = "in_buffer c"
  from assms(1) obtain m where m: "bdata ?b = Live m" "length m = unat (bcapacity ?b)"
    using assms(3,4) by (cases rule: buf_ok_cases) auto
  have fits: "length bs \<le> length m" using buf_ok_size_le[OF assms(1)] m(2) assms(4) by simp
  let ?m = "map Some bs @ drop (length bs) m"
  let ?b' = "?b\<lparr>bdata := Live ?m\<rparr>"
  have w: "wr_bytes m 0 bs = Some ?m" using fits by (simp add: wr_bytes_split)
  have rv: "recvmsg s (length bs) = (Done bs, s\<lparr>rx := r\<rparr>)" using assms(5,6) by (simp add: recvmsg_def)
  have "client_receive c s anc =
      Some (int (length bs), (filled c anc ?b')\<lparr>bytes_to_receive := bytes_to_receive c\<rparr>, s\<lparr>rx := r\<rparr>)"
  proof (cases "expect_creds c")
    case True
    with assms(7) obtain cr where cr: "anc = Some cr" by auto
    have "recv_loop s m 0 (length bs) (length bs) = Some (int (length bs), ?m, s\<lparr>rx := r\<rparr>)"
      using rv w assms(3) by (simp add: recv_loop.simps[of s m 0 "length bs" "length bs"])
    with True cr assms(2-4) m(1) show ?thesis
      by (simp add: client_receive_def lttcomm_recv_creds_unix_sock_def block_cells_def filled_def)
  next
    case False
    have "lttcomm_recv_unix_sock_non_block s m 0 (length bs) = Some (int (length bs), ?m, s\<lparr>rx := r\<rparr>)"
      using rv w by (simp add: lttcomm_recv_unix_sock_non_block.simps[of s m 0 "length bs"])
    with False assms(2-4) m(1) show ?thesis by (simp add: client_receive_def block_cells_def filled_def)
  qed
  moreover have "buf_ok ?b'" using assms(1) m fits by (simp add: buf_ok_def)
  moreover have "contents ?b' = map Some bs" using assms(4) by (simp add: contents_def)
  ultimately show ?thesis by (intro exI[of _ ?b']) simp
qed

lemma handle_in_filled:
  assumes "get_client_from_socket E fd st = Some a" "clients st a = Some c" "socks st fd = Some s"
    and "buf_ok (in_buffer c)" "bytes_to_receive c = bsize (in_buffer c)" "bs \<noteq> []"
    and "unat (bsize (in_buffer c)) = length bs" "rx s = bs @ r" "rx_outcomes s = []" "expect_creds c \<longrightarrow> peers st fd \<noteq> None"
  shows "\<exists>b. buf_ok b \<and> bsize b = bsize (in_buffer c) \<and> contents b = map Some bs \<and>
    handle_notification_thread_client_in E fd st = do {
      (ret, st) \<leftarrow> client_dispatch_message E a
        (put_client a (filled c (peers st fd) b) (st\<lparr>socks := (socks st)(fd \<mapsto> s\<lparr>rx := r\<rparr>)\<rparr>));
      if ret \<noteq> 0 then handle_notification_thread_client_disconnect E fd st else Some (0, st)
    }"
proof -
  obtain b where b: "client_receive c s (peers st fd) =
      Some (int (length bs), (filled c (peers st fd) b)\<lparr>bytes_to_receive := bytes_to_receive c\<rparr>, s\<lparr>rx := r\<rparr>)"
    "buf_ok b" "bsize b = bsize (in_buffer c)" "contents b = map Some bs"
    using client_receive_all[OF assms(4-10)] by blast
  have "bytes_to_receive c = of_nat (length bs)" unfolding assms(5) assms(7)[symmetric] by simp
  then have "handle_notification_thread_client_in E fd st = do {
      (ret, st) \<leftarrow> client_dispatch_message E a
        (put_client a (filled c (peers st fd) b) (st\<lparr>socks := (socks st)(fd \<mapsto> s\<lparr>rx := r\<rparr>)\<rparr>));
      if ret \<noteq> 0 then handle_notification_thread_client_disconnect E fd st else Some (0, st)
    }"
    using assms(1-3) b(1) by (simp add: handle_notification_thread_client_in_def)
  with b(2-4) show ?thesis by blast
qed

text \<open>A client between two messages; then the header of the next one arrives.\<close>

definition expecting :: "notification_client \<Rightarrow> bool" where
  "expecting c \<longleftrightarrow> buf_ok (in_buffer c) \<and> bsize (in_buffer c) = 5 \<and> bytes_to_receive c = 5 \<and>
     msg_type c = LTTNG_NOTIFICATION_CHANNEL_MESSAGE_TYPE_UNKNOWN"

definition accepts :: "lttng_notification_channel_message_type \<Rightarrow> bool" where
  "accepts t \<longleftrightarrow> t = LTTNG_NOTIFICATION_CHANNEL_MESSAGE_TYPE_SUBSCRIBE \<or>
     t = LTTNG_NOTIFICATION_CHANNEL_MESSAGE_TYPE_UNSUBSCRIBE \<or> t = LTTNG_NOTIFICATION_CHANNEL_MESSAGE_TYPE_HANDSHAKE"

definition header_received ::
  "notification_client \<Rightarrow> (u32 \<times> u32) option \<Rightarrow> lttng_notification_channel_message_type \<Rightarrow> u32 \<Rightarrow> lttng_dynamic_buffer \<Rightarrow>
     notification_client"
where
  "header_received c anc t n b = (filled c anc b)\<lparr>bytes_to_receive := ucast n, msg_type := t\<rparr>"

lemma contents_read:
  assumes "buf_ok b" "contents b = map Some bs" "bs \<noteq> []"
  obtains m where "bdata b = Live m" "rd_bytes m 0 (length bs) = Some bs" "\<And>i. i < length bs \<Longrightarrow> rd m (int i) = Some (bs ! i)"
proof -
  have n: "unat (bsize b) = length bs" using length_contents[OF assms(1)] assms(2) by simp
  from assms(1) obtain m where m: "bdata b = Live m" "contents b = take (unat (bsize b)) m" "length m = unat (bcapacity b)"
    using assms(3) n by (cases rule: buf_ok_cases) auto
  have "m = map Some bs @ drop (length bs) m"
    using assms(2) m(2) n append_take_drop_id[of "length bs" m] by simp
  then obtain q where q: "m = map Some bs @ q" by blast
  show thesis
    by (rule that[OF m(1)]) (simp_all add: q rd_bytes_def rd_def nth_append)
qed

lemma dispatch_header_ok:
  assumes "clients st a = Some c" "buf_ok (in_buffer c)" "bsize (in_buffer c) = 5"
    and "contents (in_buffer c) = map Some (message_header t n)" "accepts t" "0 < n" "n \<le> 65536" "outcomes (ledger st) = []"
  shows "\<exists>b h. dispatch_header a st =
      Some (0, put_client a (c\<lparr>bytes_to_receive := ucast n, msg_type := t, in_buffer := b\<rparr>) (st\<lparr>ledger := h\<rparr>)) \<and>
    buf_ok b \<and> bsize b = ucast n \<and> outcomes h = []"
proof -
  obtain m where m: "bdata (in_buffer c) = Live m" "rd_bytes m 0 5 = Some (message_header t n)"
    using contents_read[OF assms(2,4)] by (auto simp: message_header_def)
  have small: "unat (ucast n :: size_t) \<le> 2 ^ 63" using unat_bounds(3)[of n] by simp
  obtain b h where b: "lttng_dynamic_buffer_set_size (ledger st) (Some (in_buffer c)) (ucast n) = Some (0, Some b, h)"
    "buf_ok b" "bsize b = ucast n" "outcomes h = []" by (rule set_size_all[OF assms(2,8) small])
  have "header_payload_size (message_header t n) = n" using header_payload_size[of t n "[]"] by simp
  moreover have "message_type_of_byte (message_header t n ! 0) = Some t" by (simp add: message_header_def)
  moreover have "n \<noteq> 0" "\<not> n > 65536" using assms(6,7) by auto
  ultimately have "dispatch_header a st =
      Some (0, put_client a (c\<lparr>bytes_to_receive := ucast n, msg_type := t, in_buffer := b\<rparr>) (st\<lparr>ledger := h\<rparr>))"
    using assms(1,3,5) m b(1) by (auto simp: dispatch_header_def block_cells_def accepts_def)
  with b(2-4) show ?thesis by blast
qed

lemma in_header:
  assumes "get_client_from_socket E fd st = Some a" "clients st a = Some c" "socks st fd = Some s" "expecting c"
    and "rx s = message_header t n @ r" "rx_outcomes s = []" "expect_creds c \<longrightarrow> peers st fd \<noteq> None"
    and "accepts t" "0 < n" "n \<le> 65536" "outcomes (ledger st) = []"
  shows "\<exists>b h. handle_notification_thread_client_in E fd st =
      Some (0, put_client a (header_received c (peers st fd) t n b) (st\<lparr>socks := (socks st)(fd \<mapsto> s\<lparr>rx := r\<rparr>), ledger := h\<rparr>)) \<and>
    buf_ok b \<and> bsize b = ucast n \<and> outcomes h = []"
proof -
  note e = assms(4)[unfolded expecting_def]
  obtain b where b: "buf_ok b" "bsize b = 5" "contents b = map Some (message_header t n)"
    "handle_notification_thread_client_in E fd st = do {
      (ret, st) \<leftarrow> client_dispatch_message E a
        (put_client a (filled c (peers st fd) b) (st\<lparr>socks := (socks st)(fd \<mapsto> s\<lparr>rx := r\<rparr>)\<rparr>));
      if ret \<noteq> 0 then handle_notification_thread_client_disconnect E fd st else Some (0, st)
    }"
    using handle_in_filled[OF assms(1-3), of "message_header t n" r] e assms(5-7) by (auto simp: message_header_def)
  let ?c = "filled c (peers st fd) b"
  let ?st = "put_client a ?c (st\<lparr>socks := (socks st)(fd \<mapsto> s\<lparr>rx := r\<rparr>)\<rparr>)"
  obtain b' h where d: "dispatch_header a ?st =
      Some (0, put_client a (?c\<lparr>bytes_to_receive := ucast n, msg_type := t, in_buffer := b'\<rparr>) (?st\<lparr>ledger := h\<rparr>))"
    "buf_ok b'" "bsize b' = ucast n" "outcomes h = []"
    using dispatch_header_ok[of ?st a ?c t n] b assms(8-11) by (auto simp: filled_def)
  moreover have "client_dispatch_message E a ?st = dispatch_header a ?st"
    using e by (simp add: client_dispatch_message_def filled_def)
  moreover have "?c\<lparr>bytes_to_receive := ucast n, msg_type := t, in_buffer := b'\<rparr> = header_received c (peers st fd) t n b'"
    by (simp add: header_received_def filled_def)
  moreover have "put_client a x (?st\<lparr>ledger := h\<rparr>) = put_client a x (st\<lparr>socks := (socks st)(fd \<mapsto> s\<lparr>rx := r\<rparr>), ledger := h\<rparr>)" for x
    by (simp add: put_client_def)
  ultimately show ?thesis using b(4) by (intro exI[of _ b'] exI[of _ h]) simp
qed

section \<open>Answers\<close>

text \<open>Everything but the clients, the sockets, the poll set and the ledger stays.\<close>

definition only_io :: "'t thread_state \<Rightarrow> 't thread_state \<Rightarrow> bool" where
  "only_io st st' \<longleftrightarrow> st' = st\<lparr>clients := clients st', socks := socks st', events := events st', ledger := ledger st'\<rparr>"

lemma only_io_simps:
  assumes "only_io st st'"
  shows "client_socket_ht st' = client_socket_ht st" "client_lists st' = client_lists st" "triggers st' = triggers st"
    "notification_trigger_clients_ht st' = notification_trigger_clients_ht st" "peers st' = peers st"
    "poll_results st' = poll_results st" "trigger_lists st' = trigger_lists st" "samples st' = samples st"
    "channels st' = channels st" "trigger_elements st' = trigger_elements st" "next_address st' = next_address st"
    "channel_triggers_ht st' = channel_triggers_ht st" "channel_state_ht st' = channel_state_ht st"
    "channels_ht st' = channels_ht st" "triggers_ht st' = triggers_ht st"
  using assms by (cases st; cases st'; simp add: only_io_def)+

lemma only_io_trans: "only_io st st' \<Longrightarrow> only_io st' st'' \<Longrightarrow> only_io st st''"
  by (cases st; cases st'; cases st''; simp add: only_io_def)

lemma only_io_put [simp]:
  "only_io st (put_client a c st)" "only_io st (put_client a c (st\<lparr>ledger := h\<rparr>))"
  "only_io st (put_client a c (st\<lparr>socks := ss, ledger := h\<rparr>))" "only_io st (put_client a c (st\<lparr>socks := ss\<rparr>))"
  by (simp_all add: only_io_def put_client_def)

lemma sentE:
  assumes "sent a c s bs st st'" "open_client st a c s"
  obtains b where "clients st' = (clients st)(a \<mapsto> c\<lparr>out_buffer := b, queued_command_reply := False, dropped_notification := False\<rparr>)"
    "open_client st' a (c\<lparr>out_buffer := b, queued_command_reply := False, dropped_notification := False\<rparr>) (s\<lparr>tx := tx s @ bs\<rparr>)"
    "socks st' = (socks st)(client_socket c \<mapsto> s\<lparr>tx := tx s @ bs\<rparr>)" "only_io st st'"
  using assms by (auto simp: sent_def open_client_def only_io_def put_client_def)

lemma reset_inbound_ok:
  assumes "clients st a = Some c" "buf_ok (in_buffer c)" "outcomes (ledger st) = []"
  shows "\<exists>b h. reset_inbound a st = Some (0, put_client a (c\<lparr>in_buffer := b, bytes_to_receive := 5,
      msg_type := LTTNG_NOTIFICATION_CHANNEL_MESSAGE_TYPE_UNKNOWN, creds := (-1, -1)\<rparr>) (st\<lparr>ledger := h\<rparr>)) \<and>
    buf_ok b \<and> bsize b = 5 \<and> outcomes h = []"
proof -
  let ?b = "(in_buffer c)\<lparr>bsize := 0\<rparr>"
  obtain b h where "lttng_dynamic_buffer_set_size (ledger st) (Some ?b) 5 = Some (0, Some b, h)" "buf_ok b" "bsize b = 5"
    "outcomes h = []" by (rule set_size_all[OF buf_ok_empty[OF assms(2)] assms(3), of 5]) simp_all
  then show ?thesis
    using assms(1)
    by (intro exI[of _ b] exI[of _ h]) (simp add: reset_inbound_def client_reset_inbound_state_def set_size_zero[OF assms(2)])
qed

text \<open>What is left of a client when its message was answered.\<close>

definition answered :: "notification_client \<Rightarrow> notification_client \<Rightarrow> bool" where
  "answered c c' \<longleftrightarrow> expecting c' \<and> buf_ok (out_buffer c') \<and> bsize (out_buffer c') = 0 \<and>
     client_socket c' = client_socket c \<and> condition_list c' = condition_list c \<and> \<not> queued_command_reply c' \<and>
     \<not> dropped_notification c' \<and> expect_creds c' = expect_creds c \<and> validated c' = validated c \<and>
     client_uid c' = client_uid c \<and> client_gid c' = client_gid c \<and>
     client_major c' = client_major c \<and> client_minor c' = client_minor c"

text \<open>The end of every command: the reply, and the next header.\<close>

lemma reply_and_reset:
  assumes "open_client st a c s" "\<not> queued_command_reply c" "buf_ok (in_buffer c)"
  shows "\<exists>st1 st2 c'. client_send_command_reply E a st status = Some (0, st1) \<and> reset_inbound a st1 = Some (0, st2) \<and>
    clients st2 = (clients st)(a \<mapsto> c') \<and> answered c c' \<and> only_io st st2 \<and> outcomes (ledger st2) = [] \<and>
    socks st2 = (socks st)(client_socket c \<mapsto>
      s\<lparr>tx := tx s @ message LTTNG_NOTIFICATION_CHANNEL_MESSAGE_TYPE_COMMAND_REPLY [word_of_int status]\<rparr>)"
proof -
  let ?m = "message LTTNG_NOTIFICATION_CHANNEL_MESSAGE_TYPE_COMMAND_REPLY [word_of_int status]"
  obtain st1 where r: "client_send_command_reply E a st status = Some (0, st1)" "sent a c s ?m st st1"
    using send_reply[OF assms(1,2)] by blast
  obtain b where b: "clients st1 = (clients st)(a \<mapsto> c\<lparr>out_buffer := b, queued_command_reply := False, dropped_notification := False\<rparr>)"
    "open_client st1 a (c\<lparr>out_buffer := b, queued_command_reply := False, dropped_notification := False\<rparr>) (s\<lparr>tx := tx s @ ?m\<rparr>)"
    "socks st1 = (socks st)(client_socket c \<mapsto> s\<lparr>tx := tx s @ ?m\<rparr>)" "only_io st st1"
    by (rule sentE[OF r(2) assms(1)])
  let ?c1 = "c\<lparr>out_buffer := b, queued_command_reply := False, dropped_notification := False\<rparr>"
  obtain b' h where i: "reset_inbound a st1 = Some (0, put_client a (?c1\<lparr>in_buffer := b', bytes_to_receive := 5,
      msg_type := LTTNG_NOTIFICATION_CHANNEL_MESSAGE_TYPE_UNKNOWN, creds := (-1, -1)\<rparr>) (st1\<lparr>ledger := h\<rparr>))"
    "buf_ok b'" "bsize b' = 5" "outcomes h = []"
    using reset_inbound_ok[of st1 a ?c1] b(1,2) assms(3) by (auto simp: open_client_def)
  let ?c' = "?c1\<lparr>in_buffer := b', bytes_to_receive := 5, msg_type := LTTNG_NOTIFICATION_CHANNEL_MESSAGE_TYPE_UNKNOWN, creds := (-1, -1)\<rparr>"
  have "answered c ?c'" using i(2,3) b(2) by (simp add: answered_def expecting_def open_client_def)
  moreover have "only_io st (put_client a ?c' (st1\<lparr>ledger := h\<rparr>))"
    by (rule only_io_trans[OF b(4)]) simp
  ultimately show ?thesis
    using r(1) i(1,4) b(1,3) by (intro exI[of _ st1] exI[of _ "put_client a ?c' (st1\<lparr>ledger := h\<rparr>)"] exI[of _ ?c']) simp
qed

section \<open>The handshake\<close>

abbreviation handshake_message :: "byte list" where
  "handshake_message \<equiv> message LTTNG_NOTIFICATION_CHANNEL_MESSAGE_TYPE_HANDSHAKE [1, 0]"

abbreviation reply_message :: "int \<Rightarrow> byte list" where
  "reply_message status \<equiv> message LTTNG_NOTIFICATION_CHANNEL_MESSAGE_TYPE_COMMAND_REPLY [word_of_int status]"

lemma dispatch_handshake_ok:
  assumes "open_client st a c s" "\<not> queued_command_reply c" "buf_ok (in_buffer c)" "contents (in_buffer c) = map Some [major, minor]"
    and "creds_received c"
  shows "\<exists>st' c'. dispatch_handshake E a st = Some (0, st') \<and> clients st' = (clients st)(a \<mapsto> c') \<and> only_io st st' \<and>
    answered (c\<lparr>client_major := major, client_minor := minor, client_uid := fst (creds c), client_gid := snd (creds c),
      validated := True\<rparr>) c' \<and> outcomes (ledger st') = [] \<and>
    socks st' = (socks st)(client_socket c \<mapsto> s\<lparr>tx := tx s @ handshake_message @ reply_message (if major \<noteq> 1 then -6 else 0)\<rparr>)"
proof -
  let ?c = "c\<lparr>client_major := major, client_minor := minor, client_uid := fst (creds c), client_gid := snd (creds c)\<rparr>"
  let ?st = "put_client a ?c st" and ?status = "if major \<noteq> 1 then -6 else 0 :: int"
  obtain m where m': "bdata (in_buffer c) = Live m" "\<And>i. i < length [major, minor] \<Longrightarrow> rd m (int i) = Some ([major, minor] ! i)"
    by (rule contents_read[OF assms(3,4)]) auto
  have m: "bdata (in_buffer c) = Live m" "rd m 0 = Some major" "rd m 1 = Some minor"
    using m'(1) m'(2)[of 0] m'(2)[of 1] by simp_all
  have o: "open_client ?st a ?c s" using assms(1) by (simp add: open_client_def)
  obtain st1 st2 where f: "append_out a handshake_message ?st = Some (0, st1)" "client_flush_outgoing_queue E a st1 = Some (0, st2)"
    "sent a ?c s handshake_message ?st st2"
    using append_flush[OF o, of handshake_message E] by (auto simp: message_def)
  obtain b where b: "clients st2 = (clients ?st)(a \<mapsto> ?c\<lparr>out_buffer := b, queued_command_reply := False, dropped_notification := False\<rparr>)"
    "open_client st2 a (?c\<lparr>out_buffer := b, queued_command_reply := False, dropped_notification := False\<rparr>)
       (s\<lparr>tx := tx s @ handshake_message\<rparr>)"
    "socks st2 = (socks ?st)(client_socket ?c \<mapsto> s\<lparr>tx := tx s @ handshake_message\<rparr>)" "only_io ?st st2"
    by (rule sentE[OF f(3) o])
  obtain st3 st4 c4 where r: "client_send_command_reply E a st2 ?status = Some (0, st3)" "reset_inbound a st3 = Some (0, st4)"
    "clients st4 = (clients st2)(a \<mapsto> c4)" "only_io st2 st4" "outcomes (ledger st4) = []"
    "answered (?c\<lparr>out_buffer := b, queued_command_reply := False, dropped_notification := False\<rparr>) c4"
    "socks st4 = (socks st2)(client_socket c \<mapsto> s\<lparr>tx := (tx s @ handshake_message) @ reply_message ?status\<rparr>)"
    using reply_and_reset[OF b(2), of E ?status] assms(3) by auto
  have "dispatch_handshake E a st = Some (0, put_client a (c4\<lparr>validated := True\<rparr>) st4)"
    using assms(1,5) m f(1,2) r(1-3)
    by (simp add: dispatch_handshake_def open_client_def block_cells_def message_def put_client_def split del: if_split)
  moreover have "only_io st (put_client a (c4\<lparr>validated := True\<rparr>) st4)"
    by (meson only_io_trans[OF only_io_trans[OF only_io_trans[OF only_io_put(1) b(4)] r(4)]] only_io_put(1))
  moreover have "answered (?c\<lparr>validated := True\<rparr>) (c4\<lparr>validated := True\<rparr>)"
    using r(6) by (simp add: answered_def expecting_def)
  ultimately show ?thesis
    using b(1,3) r(3,5,7)
    by (intro exI[of _ "put_client a (c4\<lparr>validated := True\<rparr>) st4"] exI[of _ "c4\<lparr>validated := True\<rparr>"]) simp
qed

lemma get_client_put:
  assumes "get_client_from_socket E fd st = Some a" "clients st a = Some c" "client_socket c' = client_socket c" "only_io st st'"
    "clients st' = (clients st)(a \<mapsto> c')"
  shows "get_client_from_socket E fd st' = Some a"
proof -
  have "match_client st' = match_client (put_client a c' st)" by (rule same_matches(1)) (simp add: assms(5))
  also have "\<dots> = match_client st" by (rule match_put_client[OF assms(2,3)])
  finally show ?thesis using assms(1) only_io_simps(1)[OF assms(4)] by (simp add: get_client_from_socket_def)
qed

lemma header_received_simps [simp]:
  "client_socket (header_received c anc t n b) = client_socket c" "in_buffer (header_received c anc t n b) = b"
  "out_buffer (header_received c anc t n b) = out_buffer c" "bytes_to_receive (header_received c anc t n b) = ucast n"
  "msg_type (header_received c anc t n b) = t" "validated (header_received c anc t n b) = validated c"
  "expect_creds (header_received c anc t n b) = False" "condition_list (header_received c anc t n b) = condition_list c"
  "queued_command_reply (header_received c anc t n b) = queued_command_reply c"
  "creds (header_received c anc t n b) = (if expect_creds c then the anc else creds c)"
  "creds_received (header_received c anc t n b) = (creds_received c \<or> expect_creds c)"
  by (simp_all add: header_received_def filled_def)

text \<open>Two rounds of the poll loop bring a whole message of a client to its handler.\<close>

lemma two_rounds:
  assumes "get_client_from_socket E fd st = Some a" "open_client st a c s" "client_socket c = fd" "expecting c"
    and "rx s = message t payload @ r" "rx_outcomes s = []" "expect_creds c \<longrightarrow> peers st fd \<noteq> None"
    and "accepts t" "payload \<noteq> []" "length payload \<le> 65536"
  obtains st1 st1' c1 where "handle_notification_thread_client_in E fd st = Some (0, st1)"
    "handle_notification_thread_client_in E fd st1 = do {
       (ret, st) \<leftarrow> client_dispatch_message E a st1';
       if ret \<noteq> 0 then handle_notification_thread_client_disconnect E fd st else Some (0, st)
     }"
    "open_client st1' a c1 (s\<lparr>rx := r\<rparr>)" "clients st1' = (clients st)(a \<mapsto> c1)" "only_io st st1'"
    "socks st1' = (socks st)(fd \<mapsto> s\<lparr>rx := r\<rparr>)" "buf_ok (in_buffer c1)" "contents (in_buffer c1) = map Some payload"
    "msg_type c1 = t" "c1 = c\<lparr>in_buffer := in_buffer c1, bytes_to_receive := 0, msg_type := t, expect_creds := False,
       creds := (if expect_creds c then the (peers st fd) else creds c), creds_received := (creds_received c \<or> expect_creds c)\<rparr>"
proof -
  let ?n = "of_nat (length payload) :: u32"
  have n: "unat ?n = length payload" using assms(10) by (simp add: unat_of_nat)
  have small: "0 < ?n" "?n \<le> 65536" using n assms(9,10) by (simp_all add: word_less_nat_alt word_le_nat_alt)
  note o = assms(2)[unfolded open_client_def assms(3)]
  obtain b h where b: "handle_notification_thread_client_in E fd st = Some (0, put_client a
      (header_received c (peers st fd) t ?n b) (st\<lparr>socks := (socks st)(fd \<mapsto> s\<lparr>rx := payload @ r\<rparr>), ledger := h\<rparr>))"
    "buf_ok b" "bsize b = ucast ?n" "outcomes h = []"
    using in_header[OF assms(1) _ _ assms(4) _ assms(6,7,8) small, of "payload @ r"] o assms(5) by (auto simp: message_def)
  let ?c1 = "header_received c (peers st fd) t ?n b" and ?s1 = "s\<lparr>rx := payload @ r\<rparr>"
  let ?st1 = "put_client a ?c1 (st\<lparr>socks := (socks st)(fd \<mapsto> ?s1), ledger := h\<rparr>)"
  have g: "get_client_from_socket E fd ?st1 = Some a"
    by (rule get_client_put[OF assms(1), of c ?c1]) (use o in simp_all)
  obtain b' where b': "buf_ok b'" "contents b' = map Some payload"
    "handle_notification_thread_client_in E fd ?st1 = do {
      (ret, st) \<leftarrow> client_dispatch_message E a
        (put_client a (filled ?c1 (peers ?st1 fd) b') (?st1\<lparr>socks := (socks ?st1)(fd \<mapsto> ?s1\<lparr>rx := r\<rparr>)\<rparr>));
      if ret \<noteq> 0 then handle_notification_thread_client_disconnect E fd st else Some (0, st)
    }"
    using handle_in_filled[OF g, of ?c1 ?s1 payload r] b assms(6,9) n by auto
  let ?c2 = "filled ?c1 (peers ?st1 fd) b'"
  let ?st2 = "put_client a ?c2 (?st1\<lparr>socks := (socks ?st1)(fd \<mapsto> ?s1\<lparr>rx := r\<rparr>)\<rparr>)"
  show thesis
  proof (rule that[OF b(1) b'(3)])
    show "open_client ?st2 a ?c2 (s\<lparr>rx := r\<rparr>)" using o b(4) assms(3) by (simp add: open_client_def)
    show "only_io st ?st2" by (simp add: only_io_def put_client_def)
    show "?c2 = c\<lparr>in_buffer := in_buffer ?c2, bytes_to_receive := 0, msg_type := t, expect_creds := False,
       creds := (if expect_creds c then the (peers st fd) else creds c), creds_received := (creds_received c \<or> expect_creds c)\<rparr>"
      by (simp add: filled_def header_received_def)
  qed (use b' in simp_all)
qed

lemma server_handshake:
  assumes "get_client_from_socket E fd st = Some a" "open_client st a c s" "client_socket c = fd" "expecting c"
    and "rx s = message LTTNG_NOTIFICATION_CHANNEL_MESSAGE_TYPE_HANDSHAKE [major, minor] @ r" "rx_outcomes s = []"
    and "expect_creds c" "peers st fd = Some cr" "\<not> queued_command_reply c"
  shows "\<exists>st1 st2 c2. handle_notification_thread_client_in E fd st = Some (0, st1) \<and>
    handle_notification_thread_client_in E fd st1 = Some (0, st2) \<and> clients st2 = (clients st)(a \<mapsto> c2) \<and> only_io st st2 \<and>
    answered (c\<lparr>client_major := major, client_minor := minor, client_uid := fst cr, client_gid := snd cr,
      validated := True, expect_creds := False\<rparr>) c2 \<and>
    socks st2 = (socks st)(fd \<mapsto> s\<lparr>rx := r, tx := tx s @ handshake_message @ reply_message (if major \<noteq> 1 then -6 else 0)\<rparr>)"
proof -
  obtain st1 st1' c1 where t: "handle_notification_thread_client_in E fd st = Some (0, st1)"
    "handle_notification_thread_client_in E fd st1 = do {
       (ret, st) \<leftarrow> client_dispatch_message E a st1';
       if ret \<noteq> 0 then handle_notification_thread_client_disconnect E fd st else Some (0, st)
     }"
    "open_client st1' a c1 (s\<lparr>rx := r\<rparr>)" "clients st1' = (clients st)(a \<mapsto> c1)" "only_io st st1'"
    "socks st1' = (socks st)(fd \<mapsto> s\<lparr>rx := r\<rparr>)" "buf_ok (in_buffer c1)" "contents (in_buffer c1) = map Some [major, minor]"
    "msg_type c1 = LTTNG_NOTIFICATION_CHANNEL_MESSAGE_TYPE_HANDSHAKE"
    and c1: "c1 = c\<lparr>in_buffer := in_buffer c1, bytes_to_receive := 0, msg_type := LTTNG_NOTIFICATION_CHANNEL_MESSAGE_TYPE_HANDSHAKE,
       expect_creds := False, creds := (if expect_creds c then the (peers st fd) else creds c),
       creds_received := (creds_received c \<or> expect_creds c)\<rparr>"
    by (rule two_rounds[OF assms(1-6)]) (use assms(8) in \<open>simp_all add: accepts_def\<close>)
  have f: "creds c1 = cr" "creds_received c1" "queued_command_reply c1 = queued_command_reply c" "client_socket c1 = fd"
    using assms(3,7,8) by (subst c1; simp)+
  obtain st2 c2 where d: "dispatch_handshake E a st1' = Some (0, st2)" "clients st2 = (clients st1')(a \<mapsto> c2)" "only_io st1' st2"
    "answered (c1\<lparr>client_major := major, client_minor := minor, client_uid := fst (creds c1), client_gid := snd (creds c1),
      validated := True\<rparr>) c2"
    "socks st2 = (socks st1')(client_socket c1 \<mapsto> s\<lparr>rx := r, tx := tx s @ handshake_message @ reply_message (if major \<noteq> 1 then -6 else 0)\<rparr>)"
    using dispatch_handshake_ok[OF t(3) _ t(7,8) f(2), of E] f(3) assms(9) by auto
  have "client_dispatch_message E a st1' = dispatch_handshake E a st1'"
    using t(4,9) by (simp add: client_dispatch_message_def)
  moreover have "answered (c\<lparr>client_major := major, client_minor := minor, client_uid := fst cr, client_gid := snd cr,
      validated := True, expect_creds := False\<rparr>) c2"
    using d(4) unfolding f(1) by (subst (asm) c1) (simp add: answered_def)
  ultimately show ?thesis
    using t d(1,2,5) only_io_trans[OF t(5) d(3)] f(4) by (intro exI[of _ st1] exI[of _ st2] exI[of _ c2]) simp
qed

text \<open>The side of the client.\<close>

lemma client_handshake:
  assumes "ready ch h" "tx_outcomes (socket ch) = []" "rx (socket ch) = handshake_message @ reply_message 0 @ rest"
  shows "\<exists>ch' h'. handshake ch h = Some (0, ch', h') \<and> ready ch' h' \<and> version_set ch' \<and> version_major ch' = 1 \<and>
    version_minor ch' = 0 \<and> tx (socket ch') = tx (socket ch) @ handshake_message \<and> rx (socket ch') = rest"
proof -
  let ?t = LTTNG_NOTIFICATION_CHANNEL_MESSAGE_TYPE_HANDSHAKE
  let ?s = "(socket ch)\<lparr>tx := tx (socket ch) @ handshake_message\<rparr>"
  let ?ch = "ch\<lparr>socket := ?s\<rparr>"
  have s: "lttcomm_send_creds_unix_sock (socket ch) handshake_message = (7, ?s)"
    using assms(2) by (simp add: lttcomm_send_creds_unix_sock.simps[of "socket ch"] sendmsg_def message_def)
  have "ready ?ch h" using assms(1) by (simp add: ready_def)
  with assms(3) obtain ch1 h1 where r: "receive_message ?ch h = Some (0, ch1, h1)"
    "received_message ?ch handshake_message (reply_message 0 @ rest) ch1" "ready ch1 h1"
    using receive_message_ok[of ?ch h ?t "[1, 0]" "reply_message 0 @ rest"] by auto
  obtain m q where m: "bdata (reception_buffer ch1) = Live m" "m = map Some handshake_message @ q"
    by (rule message_block[OF r(2,3)]) simp_all
  let ?ch1 = "ch1\<lparr>version_major := 1, version_minor := 0, version_set := True\<rparr>"
  have "rd m 5 = Some 1" "rd m 6 = Some 0"
    using m(2) by (simp_all add: rd_def message_def message_header_def bytes_u32_expand)
  then have "handle_interleaved (Some ?t) ch1 h1 = Some (0, ?ch1, h1)"
    using m(1) by (simp add: handle_interleaved_def receive_handshake_def block_cells_def)
  then have e: "receive_command_reply ?ch h = receive_command_reply ?ch1 h1"
    using r(1) current_type[OF r(2,3)] by (simp add: receive_command_reply.simps[of ?ch])
  have "ready ?ch1 h1" "rx (socket ?ch1) = reply_message 0 @ rest" "tx (socket ?ch1) = tx (socket ch) @ handshake_message"
    using r(2,3) by (auto simp: ready_def received_message_def)
  moreover from this obtain ch' h' where "receive_command_reply ?ch1 h1 = Some (0, Some 0, ch', h')" "ready ch' h'"
    "rx (socket ch') = rest" "tx (socket ch') = tx (socket ?ch1)" "version_set ch'" "version_major ch' = 1" "version_minor ch' = 0"
    using receive_reply[of ?ch1 h1 "word_of_int 0" rest] by auto
  moreover have "handshake_message = message_header ?t 2 @ [1, 0]" by (simp add: message_def)
  ultimately show ?thesis using s e by (simp add: handshake_def)
qed

section \<open>Subscriptions\<close>

lemma condition_hash_defined:
  assumes "sendable_condition cd"
  obtains k where "lttng_condition_hash seed cd = Some k"
proof -
  obtain t where t: "parent cd = usage_parent t"
    "t = LTTNG_CONDITION_TYPE_BUFFER_USAGE_LOW \<or> t = LTTNG_CONDITION_TYPE_BUFFER_USAGE_HIGH"
    "threshold_ratio_set cd = (\<not> threshold_bytes_set cd)"
    using assms by (auto elim!: sendableE)
  obtain w where "threshold_ratio_set cd \<longrightarrow>
      double_to_u64 (d_mul (threshold_ratio_value cd) (double_of_nat UINT32_MAX)) = Some w"
    using sendable_threshold[OF assms] t(3) by (auto simp: double_to_fixed_def split: if_splits)
  with t(1,2) have "\<exists>k. lttng_condition_hash seed cd = Some k"
    by (cases "threshold_ratio_set cd")
      (auto simp: lttng_condition_hash_def lttng_condition_buffer_usage_hash_def usage_parent_def Let_def)
  with that show thesis by blast
qed

text \<open>The list of the clients of a trigger with the condition, if there is one, gets a new element.\<close>

definition subscribed ::
  "'t thread_env \<Rightarrow> cond \<Rightarrow> nat \<Rightarrow> nat \<Rightarrow> 't thread_state \<Rightarrow> nat \<Rightarrow> notification_client_list option"
where
  "subscribed E cd element a st =
     (case lttng_condition_hash (ht_seed E) cd of
        None \<Rightarrow> client_lists st
      | Some k \<Rightarrow>
          case lfht_lookup E (notification_trigger_clients_ht st) k (match_client_list_condition st cd) of
            None \<Rightarrow> client_lists st
          | Some l \<Rightarrow> (client_lists st)(l := map_option (\<lambda>cl. cl\<lparr>list_clients := (element, a) # list_clients cl\<rparr>) (client_lists st l)))"

lemma subscribed_same:
  assumes "client_lists st' = client_lists st" "triggers st' = triggers st"
    "notification_trigger_clients_ht st' = notification_trigger_clients_ht st"
  shows "subscribed E cd element a st' = subscribed E cd element a st"
  unfolding subscribed_def same_matches(2)[OF assms(1,2)] assms(1,3) by (rule refl)

lemma lookup_matches:
  "lfht_laws E view \<Longrightarrow> lfht_lookup E t k p = Some n \<Longrightarrow> view t n = Some k \<and> p n"
  unfolding lfht_laws_def by (metis (mono_tags, lifting) option.simps(5))

lemma lookup_none:
  assumes "lfht_laws E view" "lfht_lookup E t k p = None" "view t n = Some k"
  shows "\<not> p n"
proof -
  have "case lfht_lookup E t k p of None \<Rightarrow> \<forall>n. view t n = Some k \<longrightarrow> \<not> p n | Some n \<Rightarrow> view t n = Some k \<and> p n"
    using assms(1) unfolding lfht_laws_def by blast
  with assms(2,3) show ?thesis by simp
qed

lemma lookup_unique:
  assumes "lfht_laws E view" "view t n = Some k" "p n" "\<And>n'. view t n' = Some k \<Longrightarrow> p n' \<Longrightarrow> n' = n"
  shows "lfht_lookup E t k p = Some n"
proof (cases "lfht_lookup E t k p")
  case None
  from lookup_none[OF assms(1) this assms(2)] assms(3) show ?thesis by simp
next
  case (Some n')
  from lookup_matches[OF assms(1) this] assms(4) Some show ?thesis by blast
qed

lemma subscribe_ok:
  assumes "lfht_laws E view" "clients st a = Some c" "outcomes (ledger st) = []" "sendable_condition cd"
    and "\<not> list_ex (\<lambda>e. lttng_condition_is_equal (Some (snd e)) (Some cd)) (condition_list c)"
  shows "\<exists>h. outcomes h = [] \<and> notification_thread_client_subscribe E a (x, cd) st = Some (0, Some STATUS_OK,
    st\<lparr>clients := (clients st)(a \<mapsto> c\<lparr>condition_list := (x, cd) # condition_list c\<rparr>), next_address := next_address st + 2,
       client_lists := subscribed E cd (next_address st + 1) a st, ledger := h\<rparr>)"
proof -
  obtain k where k: "lttng_condition_hash (ht_seed E) cd = Some k" by (rule condition_hash_defined[OF assms(4)])
  let ?h = "(ledger st)\<lparr>live := live (ledger st) + 2\<rparr>"
  let ?c = "c\<lparr>condition_list := (x, cd) # condition_list c\<rparr>"
  let ?st = "put_client a ?c (st\<lparr>ledger := ?h, next_address := next_address st + 2\<rparr>)"
  have al: "alloc st = (Some (next_address st), st\<lparr>ledger := (ledger st)\<lparr>live := live (ledger st) + 1\<rparr>, next_address := next_address st + 1\<rparr>)"
    "alloc (st\<lparr>ledger := (ledger st)\<lparr>live := live (ledger st) + 1\<rparr>, next_address := next_address st + 1\<rparr>) =
      (Some (next_address st + 1), st\<lparr>ledger := ?h, next_address := next_address st + 2\<rparr>)"
    using assms(3) by (simp_all add: alloc_def zmalloc_def)
  have m: "match_client_list_condition ?st = match_client_list_condition st" by (rule same_matches(2)) simp_all
  have t: "notification_trigger_clients_ht ?st = notification_trigger_clients_ht st" by simp
  note e = notification_thread_client_subscribe_def[of E a "(x, cd)" st]
  show ?thesis
  proof (cases "lfht_lookup E (notification_trigger_clients_ht st) k (match_client_list_condition st cd)")
    case None
    then show ?thesis using assms(2,3,5) k al m
      by (intro exI[of _ "c_free ?h"]) (simp add: e subscribed_def put_client_def c_free_def)
  next
    case (Some l)
    from lookup_matches[OF assms(1) this] obtain cl where "client_lists st l = Some cl"
      by (auto simp: match_client_list_condition_def split: option.splits)
    with Some show ?thesis using assms(2,3,5) k al m
      by (intro exI[of _ ?h]) (simp add: e subscribed_def put_client_def)
  qed
qed

lemma dispatch_subscribe_ok:
  assumes "lfht_laws E view" "open_client st a c s" "buf_ok (in_buffer c)" "contents (in_buffer c) = map Some (condition_bytes cd)"
    and "sendable_condition cd" "msg_type c = LTTNG_NOTIFICATION_CHANNEL_MESSAGE_TYPE_SUBSCRIBE" "\<not> queued_command_reply c"
    and "\<not> list_ex (\<lambda>e. lttng_condition_is_equal (Some (snd e)) (Some (received_condition cd))) (condition_list c)"
  shows "\<exists>st' c' x. dispatch_condition E a st = Some (0, st') \<and> clients st' = (clients st)(a \<mapsto> c') \<and>
    answered (c\<lparr>condition_list := (x, received_condition cd) # condition_list c\<rparr>) c' \<and>
    client_lists st' = subscribed E (received_condition cd) (x + 2) a st \<and>
    socks st' = (socks st)(client_socket c \<mapsto> s\<lparr>tx := tx s @ reply_message 0\<rparr>)"
proof -
  let ?bs = "condition_bytes cd" and ?b = "in_buffer c" and ?x = "next_address st"
  note o = assms(2)[unfolded open_client_def]
  have small: "length ?bs < 2 ^ 16" "?bs \<noteq> []"
    using condition.enc_bounded[of "Some cd"] assms(5) by (auto simp: condition_bytes_def)
  obtain m where m: "bdata ?b = Live m" "rd_bytes m 0 (length ?bs) = Some ?bs"
    by (rule contents_read[OF assms(3,4) small(2)])
  have n: "unat (bsize ?b) = length ?bs" using length_contents[OF assms(3)] assms(4) by simp
  let ?v = "\<lparr>vdata = Some 0, vsize = bsize ?b\<rparr>"
  have v: "lttng_buffer_view_from_dynamic_buffer (Some ?b) 0 (-1) = Some ?v"
    using m(1) by (simp add: lttng_buffer_view_from_dynamic_buffer_def view_of_def)
  have "view_bytes m ?v = Some (?bs @ [])" using n m(2) by (simp add: view_bytes_def)
  from condition_parse[OF assms(5) _ this] o
  have p: "lttng_condition_create_from_buffer (ledger st) m (Some ?v) True =
      Some (int (length ?bs), Some (received_condition cd), (ledger st)\<lparr>live := live (ledger st) + 3\<rparr>)" by simp
  have e: "of_int (int (length ?bs)) = bsize ?b" by (simp flip: n)
  let ?st1 = "st\<lparr>ledger := (ledger st)\<lparr>live := live (ledger st) + 3\<rparr>, next_address := ?x + 1\<rparr>"
  have lists: "subscribed E (received_condition cd) (?x + 2) a ?st1 = subscribed E (received_condition cd) (?x + 2) a st"
    by (rule subscribed_same) simp_all
  obtain h where h: "outcomes h = []" "notification_thread_client_subscribe E a (?x, received_condition cd) ?st1 = Some (0, Some STATUS_OK,
      ?st1\<lparr>clients := (clients st)(a \<mapsto> c\<lparr>condition_list := (?x, received_condition cd) # condition_list c\<rparr>),
        next_address := ?x + 3, client_lists := subscribed E (received_condition cd) (?x + 2) a st, ledger := h\<rparr>)"
    using subscribe_ok[OF assms(1), of ?st1 a c "received_condition cd" ?x] o assms(8) received_sendable[OF assms(5)] lists by auto
  let ?c2 = "c\<lparr>condition_list := (?x, received_condition cd) # condition_list c\<rparr>"
  let ?st2 = "?st1\<lparr>clients := (clients st)(a \<mapsto> ?c2), next_address := ?x + 3,
    client_lists := subscribed E (received_condition cd) (?x + 2) a st, ledger := h\<rparr>"
  have "open_client ?st2 a ?c2 s" using o h(1) by (simp add: open_client_def)
  then obtain st3 st4 c' where r: "client_send_command_reply E a ?st2 0 = Some (0, st3)" "reset_inbound a st3 = Some (0, st4)"
    "clients st4 = (clients ?st2)(a \<mapsto> c')" "answered ?c2 c'" "only_io ?st2 st4"
    "socks st4 = (socks ?st2)(client_socket ?c2 \<mapsto> s\<lparr>tx := tx s @ reply_message 0\<rparr>)"
    using reply_and_reset[of ?st2 a ?c2 s E 0] assms(3,7) by auto
  have "dispatch_condition E a st = Some (0, st4)"
    using o v m(1) p e h(2) r(1,2) assms(6) by (simp add: dispatch_condition_def block_cells_def Let_def)
  with r only_io_simps(2)[OF r(5)] show ?thesis
    by (intro exI[of _ st4] exI[of _ c'] exI[of _ ?x]) simp
qed

lemma server_subscribe:
  assumes "get_client_from_socket E fd st = Some a" "open_client st a c s" "client_socket c = fd" "expecting c"
    and "rx s = message LTTNG_NOTIFICATION_CHANNEL_MESSAGE_TYPE_SUBSCRIBE (condition_bytes cd) @ r" "rx_outcomes s = []"
    and "lfht_laws E view" "sendable_condition cd" "validated c" "\<not> expect_creds c" "\<not> queued_command_reply c"
    and "\<not> list_ex (\<lambda>e. lttng_condition_is_equal (Some (snd e)) (Some (received_condition cd))) (condition_list c)"
  shows "\<exists>st1 st2 c2 x. handle_notification_thread_client_in E fd st = Some (0, st1) \<and>
    handle_notification_thread_client_in E fd st1 = Some (0, st2) \<and> clients st2 = (clients st)(a \<mapsto> c2) \<and>
    answered (c\<lparr>condition_list := (x, received_condition cd) # condition_list c\<rparr>) c2 \<and>
    client_lists st2 = subscribed E (received_condition cd) (x + 2) a st \<and>
    socks st2 = (socks st)(fd \<mapsto> s\<lparr>rx := r, tx := tx s @ reply_message 0\<rparr>)"
proof -
  let ?t = LTTNG_NOTIFICATION_CHANNEL_MESSAGE_TYPE_SUBSCRIBE
  have small: "length (condition_bytes cd) \<le> 65536" "condition_bytes cd \<noteq> []"
    using condition.enc_bounded[of "Some cd"] assms(8) by (auto simp: condition_bytes_def)
  obtain st1 st1' c1 where t: "handle_notification_thread_client_in E fd st = Some (0, st1)"
    "handle_notification_thread_client_in E fd st1 = do {
       (ret, st) \<leftarrow> client_dispatch_message E a st1';
       if ret \<noteq> 0 then handle_notification_thread_client_disconnect E fd st else Some (0, st)
     }"
    "open_client st1' a c1 (s\<lparr>rx := r\<rparr>)" "clients st1' = (clients st)(a \<mapsto> c1)" "only_io st st1'"
    "socks st1' = (socks st)(fd \<mapsto> s\<lparr>rx := r\<rparr>)" "buf_ok (in_buffer c1)" "contents (in_buffer c1) = map Some (condition_bytes cd)"
    "msg_type c1 = ?t"
    and c1: "c1 = c\<lparr>in_buffer := in_buffer c1, bytes_to_receive := 0, msg_type := ?t,
       expect_creds := False, creds := (if expect_creds c then the (peers st fd) else creds c),
       creds_received := (creds_received c \<or> expect_creds c)\<rparr>"
    by (rule two_rounds[OF assms(1-6)]) (use assms(10) small in \<open>simp_all add: accepts_def\<close>)
  have f: "condition_list c1 = condition_list c" "validated c1 = validated c" "queued_command_reply c1 = queued_command_reply c"
    "client_socket c1 = fd" using assms(3) by (subst c1; simp)+
  obtain st2 c2 x where d: "dispatch_condition E a st1' = Some (0, st2)" "clients st2 = (clients st1')(a \<mapsto> c2)"
    "answered (c1\<lparr>condition_list := (x, received_condition cd) # condition_list c1\<rparr>) c2"
    "client_lists st2 = subscribed E (received_condition cd) (x + 2) a st1'"
    "socks st2 = (socks st1')(client_socket c1 \<mapsto> s\<lparr>rx := r, tx := tx s @ reply_message 0\<rparr>)"
    using dispatch_subscribe_ok[OF assms(7) t(3,7,8) assms(8) t(9)] f(1,3) assms(11,12) by auto
  have "client_dispatch_message E a st1' = dispatch_condition E a st1'"
    using t(4,9) f(2) assms(9) by (simp add: client_dispatch_message_def)
  moreover have "answered (c\<lparr>condition_list := (x, received_condition cd) # condition_list c\<rparr>) c2"
    using d(3) unfolding f(1) by (subst (asm) c1) (use assms(10) in \<open>simp add: answered_def\<close>)
  moreover have "subscribed E (received_condition cd) (x + 2) a st1' = subscribed E (received_condition cd) (x + 2) a st"
    using only_io_simps[OF t(5)] by (intro subscribed_same)
  ultimately show ?thesis
    using t d(1,2,4,5) f(4) by (intro exI[of _ st1] exI[of _ st2] exI[of _ c2] exI[of _ x]) simp
qed

section \<open>A concrete thread\<close>

text \<open>Tables that are lists of nodes with their hashes.\<close>

definition list_env :: "(nat \<times> u64) list thread_env" where
  "list_env = \<lparr>
     lfht_add = (\<lambda>t h n. (n, h) # t),
     lfht_add_unique = (\<lambda>t h p n.
       case find (\<lambda>k. map_of t k = Some h \<and> p k) (map fst t) of None \<Rightarrow> (n, (n, h) # t) | Some k \<Rightarrow> (k, t)),
     lfht_lookup = (\<lambda>t h p. find (\<lambda>k. map_of t k = Some h \<and> p k) (map fst t)),
     lfht_del = (\<lambda>t n. filter (\<lambda>e. fst e \<noteq> n) t),
     lfht_nodes = (\<lambda>t. remdups (map fst t)),
     ht_seed = 0, tracer_positions = 1\<rparr>"

lemma find_node:
  "case find (\<lambda>k. map_of t k = Some h \<and> p k) (map fst t) of
     None \<Rightarrow> \<forall>n. map_of t n = Some h \<longrightarrow> \<not> p n
   | Some n \<Rightarrow> map_of t n = Some h \<and> p n"
proof (cases "find (\<lambda>k. map_of t k = Some h \<and> p k) (map fst t)")
  case None
  then have "\<not> p n" if "map_of t n = Some h" for n
    using that map_of_SomeD[OF that] by (force simp: find_None_iff)
  with None show ?thesis by simp
next
  case (Some n)
  then have "map_of t n = Some h \<and> p n" by (auto simp: find_Some_iff)
  with Some show ?thesis by simp
qed

lemma map_of_filter_key: "map_of (filter (\<lambda>e. fst e \<noteq> n) t) = (map_of t)(n := None)"
  by (induction t) auto

lemma list_env_laws: "lfht_laws list_env map_of"
proof -
  have "case lfht_add_unique list_env t h p n of (n', t') \<Rightarrow>
      if n' = n then (\<forall>k. map_of t k = Some h \<longrightarrow> \<not> p k) \<and> map_of t' = (map_of t)(n \<mapsto> h)
      else map_of t n' = Some h \<and> p n' \<and> map_of t' = map_of t" if "map_of t n = None" for t h p n
    using find_node[of t h p] that by (auto simp: list_env_def split: option.splits)
  moreover have "case lfht_lookup list_env t h p of None \<Rightarrow> \<forall>n. map_of t n = Some h \<longrightarrow> \<not> p n
      | Some n \<Rightarrow> map_of t n = Some h \<and> p n" for t h p
    using find_node[of t h p] by (simp add: list_env_def)
  ultimately show ?thesis
    by (simp add: lfht_laws_def) (simp add: list_env_def map_of_filter_key dom_map_of_conv_image_fst)
qed

text \<open>One client, that waits for a header, and nothing else.\<close>

definition sample_client :: notification_client where
  "sample_client = zeroed_client\<lparr>client_socket := 5, bytes_to_receive := 5,
     in_buffer := \<lparr>bdata = Live (replicate 8 None), bsize = 5, bcapacity = 8\<rparr>,
     msg_type := LTTNG_NOTIFICATION_CHANNEL_MESSAGE_TYPE_UNKNOWN\<rparr>"

definition sample_thread :: "notification_client \<Rightarrow> byte list \<Rightarrow> (nat \<times> u64) list thread_state" where
  "sample_thread c bs = \<lparr>
     client_socket_ht = [(1, hash_client_socket 0 5)], channel_triggers_ht = [], channel_state_ht = [],
     notification_trigger_clients_ht = [], channels_ht = [], triggers_ht = [], events = [5 \<mapsto> False],
     clients = [1 \<mapsto> c], client_lists = Map.empty, trigger_lists = Map.empty, samples = Map.empty,
     channels = Map.empty, trigger_elements = Map.empty, triggers = Map.empty,
     socks = [5 \<mapsto> \<lparr>rx = bs, rx_outcomes = [], tx = [], tx_outcomes = []\<rparr>], peers = [5 \<mapsto> (1000, 100)],
     poll_results = [], next_address = 2, ledger = \<lparr>outcomes = [], live = 2\<rparr>\<rparr>"

lemma sample_client_ok:
  "client_socket sample_client = 5" "expecting sample_client" "expect_creds sample_client" "\<not> queued_command_reply sample_client"
  "buf_ok (out_buffer sample_client)" "bsize (out_buffer sample_client) = 0" "condition_list sample_client = []"
  by (auto simp: sample_client_def expecting_def zeroed_client_def buf_ok_def lttng_dynamic_buffer_init_def intro!: exI[of _ 3])

lemma sample_thread_ok:
  assumes "client_socket c = 5" "buf_ok (out_buffer c)" "bsize (out_buffer c) = 0"
  shows "get_client_from_socket list_env 5 (sample_thread c bs) = Some 1" "peers (sample_thread c bs) 5 = Some (1000, 100)"
    "open_client (sample_thread c bs) 1 c \<lparr>rx = bs, rx_outcomes = [], tx = [], tx_outcomes = []\<rparr>"
  using assms by (simp_all add: get_client_from_socket_def list_env_def sample_thread_def match_client_def open_client_def)

section \<open>Properties\<close>

text \<open>
  C3: the handshake of the two sides. A client that has just connected is served in two rounds of the
  thread, whatever version it announces: it gets the version of the session daemon and a status (an
  unsupported version if the major numbers differ), it is validated in both cases, with the credentials
  of the peer of its socket, and the thread waits for the header of its next message. What is sent makes
  the handshake of the library succeed when the versions agree.
\<close>

theorem protocol_handshake:
  assumes "get_client_from_socket E fd st = Some a" "open_client st a c s" "client_socket c = fd" "expecting c"
    and "rx s = message LTTNG_NOTIFICATION_CHANNEL_MESSAGE_TYPE_HANDSHAKE [major, minor] @ r" "rx_outcomes s = []"
    and "expect_creds c" "peers st fd = Some cr" "\<not> queued_command_reply c" "ready ch h" "tx_outcomes (socket ch) = []"
  shows "\<exists>st1 st2 c2. handle_notification_thread_client_in E fd st = Some (0, st1) \<and>
    handle_notification_thread_client_in E fd st1 = Some (0, st2) \<and> clients st2 = (clients st)(a \<mapsto> c2) \<and>
    validated c2 \<and> (client_uid c2, client_gid c2) = cr \<and> client_major c2 = major \<and> expecting c2 \<and> \<not> expect_creds c2 \<and>
    socks st2 = (socks st)(fd \<mapsto> s\<lparr>rx := r, tx := tx s @ handshake_message @
      reply_message (if major \<noteq> 1 then STATUS_UNSUPPORTED_VERSION else STATUS_OK)\<rparr>) \<and>
    (rx (socket ch) = handshake_message @ reply_message STATUS_OK @ rest \<longrightarrow>
      (\<exists>ch' h'. handshake ch h = Some (0, ch', h') \<and> ready ch' h' \<and> version_set ch' \<and> version_major ch' = 1 \<and>
         tx (socket ch') = tx (socket ch) @ handshake_message \<and> rx (socket ch') = rest))"
proof -
  obtain st1 st2 c2 where t: "handle_notification_thread_client_in E fd st = Some (0, st1)"
    "handle_notification_thread_client_in E fd st1 = Some (0, st2)" "clients st2 = (clients st)(a \<mapsto> c2)"
    "answered (c\<lparr>client_major := major, client_minor := minor, client_uid := fst cr, client_gid := snd cr,
      validated := True, expect_creds := False\<rparr>) c2"
    "socks st2 = (socks st)(fd \<mapsto> s\<lparr>rx := r, tx := tx s @ handshake_message @ reply_message (if major \<noteq> 1 then -6 else 0)\<rparr>)"
    using server_handshake[OF assms(1-9)] by blast
  have "\<exists>ch' h'. handshake ch h = Some (0, ch', h') \<and> ready ch' h' \<and> version_set ch' \<and> version_major ch' = 1 \<and>
      tx (socket ch') = tx (socket ch) @ handshake_message \<and> rx (socket ch') = rest"
    if "rx (socket ch) = handshake_message @ reply_message STATUS_OK @ rest"
    using client_handshake[OF assms(10,11) that] by blast
  with t show ?thesis by (intro exI[of _ st1] exI[of _ st2] exI[of _ c2]) (simp add: answered_def)
qed

theorem protocol_handshake_witness:
  "\<exists>st1 st2 c2. handle_notification_thread_client_in list_env 5 (sample_thread sample_client handshake_message) = Some (0, st1) \<and>
    handle_notification_thread_client_in list_env 5 st1 = Some (0, st2) \<and> clients st2 1 = Some c2 \<and> validated c2 \<and>
    client_uid c2 = 1000 \<and> map_option tx (socks st2 5) = Some (handshake_message @ reply_message 0) \<and>
    (\<exists>ch' h'. handshake (sample_channel (handshake_message @ reply_message 0) []) \<lparr>outcomes = [], live = 0\<rparr> = Some (0, ch', h') \<and>
      version_major ch' = 1)"
  using protocol_handshake[OF sample_thread_ok(1,3) _ _ _ _ _ sample_thread_ok(2), of sample_client handshake_message 1 0 "[]"
      "sample_channel (handshake_message @ reply_message 0) []" "\<lparr>outcomes = [], live = 0\<rparr>" "[]"]
    sample_client_ok sample_channel_ready[of "[]" "handshake_message @ reply_message 0"]
  by (auto simp: sample_channel_def harmless_def)

text \<open>
  C2: the subscription of the two sides. The command of the library is served in two rounds of the thread:
  the condition as the wire carries it is added to those of the client, the client to the list of the
  trigger that has the condition, if there is one, and the thread answers \<open>OK\<close> and waits for the next
  header. With that answer in its stream, behind any notifications that were sent before it, the
  library reports \<open>OK\<close>.
\<close>

theorem protocol_subscribe:
  assumes "get_client_from_socket E fd st = Some a" "open_client st a c s" "client_socket c = fd" "expecting c"
    and "rx s = message LTTNG_NOTIFICATION_CHANNEL_MESSAGE_TYPE_SUBSCRIBE (condition_bytes cd) @ r" "rx_outcomes s = []"
    and "lfht_laws E view" "sendable_condition cd" "validated c" "\<not> expect_creds c" "\<not> queued_command_reply c"
    and "\<not> list_ex (\<lambda>e. lttng_condition_is_equal (Some (snd e)) (Some (received_condition cd))) (condition_list c)"
    and "ready ch h" "harmless (tx_outcomes (socket ch))"
    and "list_all (\<lambda>n. sendable_notification (Some n)) ns" "length ns + length (pending_list ch) \<le> 100"
    and "rx (socket ch) = concat (map notification_message ns) @ reply_message STATUS_OK @ rest"
  shows "\<exists>st1 st2 c2 x ch' h'. handle_notification_thread_client_in E fd st = Some (0, st1) \<and>
    handle_notification_thread_client_in E fd st1 = Some (0, st2) \<and> clients st2 = (clients st)(a \<mapsto> c2) \<and>
    condition_list c2 = (x, received_condition cd) # condition_list c \<and> validated c2 \<and> expecting c2 \<and>
    client_lists st2 = subscribed E (received_condition cd) (x + 2) a st \<and>
    socks st2 = (socks st)(fd \<mapsto> s\<lparr>rx := r, tx := tx s @ reply_message STATUS_OK\<rparr>) \<and>
    lttng_notification_channel_subscribe (Some ch) (Some cd) h = Some (STATUS_OK, Some ch', h') \<and> ready ch' h' \<and>
    tx (socket ch') = tx (socket ch) @ message LTTNG_NOTIFICATION_CHANNEL_MESSAGE_TYPE_SUBSCRIBE (condition_bytes cd) \<and>
    rx (socket ch') = rest \<and>
    pending_list ch' = rev (map (\<lambda>n. Some (received_notification (Some n))) ns) @ pending_list ch"
proof -
  obtain st1 st2 c2 x where t: "handle_notification_thread_client_in E fd st = Some (0, st1)"
    "handle_notification_thread_client_in E fd st1 = Some (0, st2)" "clients st2 = (clients st)(a \<mapsto> c2)"
    "answered (c\<lparr>condition_list := (x, received_condition cd) # condition_list c\<rparr>) c2"
    "client_lists st2 = subscribed E (received_condition cd) (x + 2) a st"
    "socks st2 = (socks st)(fd \<mapsto> s\<lparr>rx := r, tx := tx s @ reply_message 0\<rparr>)"
    using server_subscribe[OF assms(1-12)] by blast
  obtain ch' h' where "lttng_notification_channel_subscribe (Some ch) (Some cd) h = Some (STATUS_OK, Some ch', h')" "ready ch' h'"
    "tx (socket ch') = tx (socket ch) @ message LTTNG_NOTIFICATION_CHANNEL_MESSAGE_TYPE_SUBSCRIBE (condition_bytes cd)"
    "rx (socket ch') = rest" "pending_list ch' = rev (map (\<lambda>n. Some (received_notification (Some n))) ns) @ pending_list ch"
    using channel_subscribe[OF assms(13,14,8,15,16,17)] by auto
  with t assms(9) show ?thesis
    by (intro exI[of _ st1] exI[of _ st2] exI[of _ c2] exI[of _ x] exI[of _ ch'] exI[of _ h']) (simp add: answered_def)
qed

theorem protocol_subscribe_witness:
  "\<exists>st1 st2 c2 x ch' h'.
    handle_notification_thread_client_in list_env 5 (sample_thread (sample_client\<lparr>expect_creds := False, validated := True\<rparr>)
      (message LTTNG_NOTIFICATION_CHANNEL_MESSAGE_TYPE_SUBSCRIBE (condition_bytes sample_condition))) = Some (0, st1) \<and>
    handle_notification_thread_client_in list_env 5 st1 = Some (0, st2) \<and> clients st2 1 = Some c2 \<and>
    condition_list c2 = [(x, received_condition sample_condition)] \<and> map_option tx (socks st2 5) = Some (reply_message 0) \<and>
    lttng_notification_channel_subscribe (Some (sample_channel (reply_message 0) [])) (Some sample_condition)
      \<lparr>outcomes = [], live = 0\<rparr> = Some (STATUS_OK, Some ch', h')"
  using protocol_subscribe[OF sample_thread_ok(1,3) _ _ _ _ list_env_laws sample_sendable(1),
      of "sample_client\<lparr>expect_creds := False, validated := True\<rparr>"
      "message LTTNG_NOTIFICATION_CHANNEL_MESSAGE_TYPE_SUBSCRIBE (condition_bytes sample_condition)" "[]"
      "sample_channel (reply_message 0) []" "\<lparr>outcomes = [], live = 0\<rparr>" "[]" "[]"]
    sample_client_ok sample_channel_ready[of "[]" "reply_message 0"]
  by (auto simp: sample_channel_def harmless_def expecting_def)

end
