(* ===== verification/Notification_Delivery.thy ===== *)
theory Notification_Delivery
  imports Notification_Protocol
begin

text \<open>
  Properties of the notification thread towards the consumers: a sample of a channel is evaluated for
  the triggers of the channel, and the notifications reach the sockets of the clients that subscribed and
  are permitted to see the channel.
\<close>

section \<open>Sending to the clients of a list\<close>

definition permitted :: "u32 \<Rightarrow> u32 \<Rightarrow> notification_client \<Rightarrow> bool" where
  "permitted uid gid c \<longleftrightarrow> client_uid c = uid \<or> client_gid c = gid \<or> client_uid c = 0"

text \<open>The socket belongs to a permitted client of the list.\<close>

definition addressed :: "'t thread_state \<Rightarrow> u32 \<Rightarrow> u32 \<Rightarrow> (nat \<times> nat) list \<Rightarrow> int \<Rightarrow> bool" where
  "addressed st uid gid els fd \<longleftrightarrow>
     list_ex (\<lambda>e. case clients st (snd e) of None \<Rightarrow> False | Some c \<Rightarrow> client_socket c = fd \<and> permitted uid gid c) els"

definition idle :: "'t thread_state \<Rightarrow> nat \<Rightarrow> bool" where
  "idle st a \<longleftrightarrow> (\<exists>c s. open_client st a c s)"

definition client_fd :: "'t thread_state \<Rightarrow> nat \<Rightarrow> int option" where
  "client_fd st a = map_option client_socket (clients st a)"

text \<open>Every element of the list has an idle client, and no two of them the same socket.\<close>

definition idle_list :: "'t thread_state \<Rightarrow> (nat \<times> nat) list \<Rightarrow> bool" where
  "idle_list st els \<longleftrightarrow> list_all (\<lambda>e. idle st (snd e)) els \<and> distinct (map (\<lambda>e. client_fd st (snd e)) els)"

text \<open>What two states have in common when no client, list or trigger came or went.\<close>

definition same_clients :: "'t thread_state \<Rightarrow> 't thread_state \<Rightarrow> bool" where
  "same_clients st st' \<longleftrightarrow> client_lists st' = client_lists st \<and> triggers st' = triggers st \<and>
     notification_trigger_clients_ht st' = notification_trigger_clients_ht st \<and> (\<forall>a. idle st a \<longrightarrow> idle st' a) \<and>
     (outcomes (ledger st) = [] \<longrightarrow> outcomes (ledger st') = []) \<and>
     (\<forall>a. map_option (\<lambda>c. (client_socket c, client_uid c, client_gid c)) (clients st' a) =
          map_option (\<lambda>c. (client_socket c, client_uid c, client_gid c)) (clients st a))"

text \<open>A step of the thread that only sends to clients.\<close>

definition keeps_clients :: "'t thread_state \<Rightarrow> 't thread_state \<Rightarrow> bool" where
  "keeps_clients st st' \<longleftrightarrow> only_io st st' \<and> same_clients st st'"

lemma keeps_same: "keeps_clients st st' \<Longrightarrow> same_clients st st'"
  by (simp add: keeps_clients_def)

lemma same_client_fd:
  assumes "same_clients st st'"
  shows "client_fd st' a = client_fd st a"
proof -
  have "map_option (\<lambda>c. (client_socket c, client_uid c, client_gid c)) (clients st' a) =
      map_option (\<lambda>c. (client_socket c, client_uid c, client_gid c)) (clients st a)"
    using assms by (simp add: same_clients_def)
  then show ?thesis by (cases "clients st a"; cases "clients st' a") (simp_all add: client_fd_def)
qed

lemma same_addressed:
  assumes "same_clients st st'"
  shows "addressed st' uid gid els fd = addressed st uid gid els fd"
proof -
  have "(case clients st' a of None \<Rightarrow> False | Some c \<Rightarrow> client_socket c = fd \<and> permitted uid gid c) =
      (case clients st a of None \<Rightarrow> False | Some c \<Rightarrow> client_socket c = fd \<and> permitted uid gid c)" for a
  proof -
    have "map_option (\<lambda>c. (client_socket c, client_uid c, client_gid c)) (clients st' a) =
        map_option (\<lambda>c. (client_socket c, client_uid c, client_gid c)) (clients st a)"
      using assms by (simp add: same_clients_def)
    then show ?thesis by (cases "clients st a"; cases "clients st' a") (simp_all add: permitted_def)
  qed
  then show ?thesis by (simp only: addressed_def)
qed

lemma same_idle_list: "same_clients st st' \<Longrightarrow> idle_list st els \<Longrightarrow> idle_list st' els"
  unfolding idle_list_def same_client_fd by (auto simp: same_clients_def list_all_iff)

lemma keeps_clients_refl [simp]: "keeps_clients st st"
  by (simp add: keeps_clients_def same_clients_def only_io_def)

lemma keeps_clients_trans: "keeps_clients st st' \<Longrightarrow> keeps_clients st' st'' \<Longrightarrow> keeps_clients st st''"
  by (auto simp: keeps_clients_def same_clients_def intro: only_io_trans)

lemma keeps_ledger: "outcomes h = [] \<Longrightarrow> keeps_clients st (st\<lparr>ledger := h\<rparr>)"
  by (auto simp: keeps_clients_def same_clients_def only_io_def idle_def open_client_def)

text \<open>Sending to one client leaves the others as they are.\<close>

lemma sent_keeps:
  assumes "sent a c s bs st st'" "open_client st a c s"
  shows "keeps_clients st st'"
proof -
  obtain b h where st': "st' = put_client a (c\<lparr>out_buffer := b, queued_command_reply := False, dropped_notification := False\<rparr>)
      (st\<lparr>socks := (socks st)(client_socket c \<mapsto> s\<lparr>tx := tx s @ bs\<rparr>), events := (events st)(client_socket c \<mapsto> False), ledger := h\<rparr>)"
    "buf_ok b" "bsize b = 0" "outcomes h = []" using assms(1) by (auto simp: sent_def)
  note o = assms(2)[unfolded open_client_def]
  have "idle st' a'" if i: "idle st a'" for a'
  proof -
    obtain c' s' where c': "open_client st a' c' s'" using i by (auto simp: idle_def)
    show ?thesis
    proof (cases "a' = a")
      case True
      then show ?thesis using st' o by (auto simp: idle_def open_client_def)
    next
      case False
      let ?s = "if client_socket c' = client_socket c then s\<lparr>tx := tx s @ bs\<rparr> else s'"
      have "open_client st' a' c' ?s" using False c' st'(4) o by (simp add: open_client_def st'(1))
      then show ?thesis by (auto simp: idle_def)
    qed
  qed
  moreover have "only_io st st'" by (simp add: st'(1) only_io_def put_client_def)
  ultimately show ?thesis using o st'(4) by (simp add: keeps_clients_def same_clients_def st'(1))
qed

definition deliver :: "byte list \<Rightarrow> (int \<Rightarrow> bool) \<Rightarrow> (int \<Rightarrow> sock option) \<Rightarrow> int \<Rightarrow> sock option" where
  "deliver bs to ss fd = (if to fd then map_option (\<lambda>s. s\<lparr>tx := tx s @ bs\<rparr>) (ss fd) else ss fd)"

lemma append_buffer_flush:
  assumes "open_client st a c s" "buf_ok msg" "contents msg = map Some bs" "bs \<noteq> []" "length bs \<le> 2 ^ 63"
  obtains b h st' where "lttng_dynamic_buffer_append_buffer (ledger st) (Some (out_buffer c)) (Some msg) = Some (0, Some b, h)"
    "client_flush_outgoing_queue E a (put_client a (c\<lparr>out_buffer := b\<rparr>) (st\<lparr>ledger := h\<rparr>)) = Some (0, st')" "sent a c s bs st st'"
proof -
  note o = assms(1)[unfolded open_client_def]
  have n: "bsize msg = of_nat (length bs)"
  proof -
    have u: "unat (bsize msg) = length bs" using length_contents[OF assms(2)] assms(3) by simp
    show ?thesis by (simp flip: u)
  qed
  obtain st1 st' where f: "append_out a bs st = Some (0, st1)" "client_flush_outgoing_queue E a st1 = Some (0, st')" "sent a c s bs st st'"
    using append_flush[OF assms(1,4,5)] by blast
  obtain b h where b: "lttng_dynamic_buffer_append (ledger st) (Some (out_buffer c)) (Some (map Some bs)) (of_nat (length bs)) =
      Some (0, Some b, h)" using append_all[of "out_buffer c" "ledger st" bs] o assms(5) by auto
  then have "st1 = put_client a (c\<lparr>out_buffer := b\<rparr>) (st\<lparr>ledger := h\<rparr>)" using f(1) o by (simp add: append_out_def)
  with f(2,3) b that[of b h st'] show thesis
    using append_buffer_is_append[of msg "out_buffer c" "ledger st"] assms(2,3) o n by simp
qed

lemma idle_list_other:
  assumes "idle_list st (e # els)" "clients st (snd e) = Some c"
  shows "\<not> addressed st uid gid els (client_socket c)"
proof
  assume "addressed st uid gid els (client_socket c)"
  then obtain e' where "e' \<in> set els" "client_fd st (snd e') = client_fd st (snd e)"
    using assms(2) by (auto simp: addressed_def list_ex_iff client_fd_def split: option.splits)
  then have "client_fd st (snd e) \<in> (\<lambda>e. client_fd st (snd e)) ` set els" by (intro image_eqI[of _ _ e']) simp_all
  then show False using assms(1) by (simp add: idle_list_def)
qed

lemma send_to_clients_ok:
  assumes "buf_ok msg" "contents msg = map Some bs" "bs \<noteq> []" "length bs \<le> 2 ^ 63"
    and "client_lists st l = Some cl" "set els \<subseteq> set (list_clients cl)" "idle_list st els"
  shows "\<exists>st'. send_to_clients E l els msg uid gid st = Some (0, st') \<and> keeps_clients st st' \<and>
    socks st' = deliver bs (addressed st uid gid els) (socks st)"
  using assms(5-7)
proof (induction els arbitrary: st)
  case Nil
  then show ?case by (simp add: addressed_def deliver_def fun_eq_iff)
next
  case (Cons e els)
  obtain el a where e: "e = (el, a)" by (cases e)
  obtain c s where o: "open_client st a c s" using Cons.prems(3) e by (auto simp: idle_list_def idle_def)
  have c: "clients st a = Some c" "bsize (out_buffer c) = 0" "socks st (client_socket c) = Some s"
    using o by (simp_all add: open_client_def)
  have il: "idle_list st els" using Cons.prems(3) by (simp add: idle_list_def)
  have other: "\<not> addressed st uid gid els (client_socket c)"
    by (rule idle_list_other[OF Cons.prems(3)]) (simp add: c(1) e)
  have ad: "addressed st uid gid (e # els) fd \<longleftrightarrow> fd = client_socket c \<and> permitted uid gid c \<or> addressed st uid gid els fd" for fd
    using c(1) e by (auto simp: addressed_def)
  have guard: "client_lists st l = Some cl" "(el, a) \<in> set (list_clients cl)" "set els \<subseteq> set (list_clients cl)"
    using Cons.prems e by auto
  show ?case
  proof (cases "permitted uid gid c")
    case False
    have "deliver bs (addressed st uid gid (e # els)) (socks st) = deliver bs (addressed st uid gid els) (socks st)"
      using False by (simp add: ad deliver_def fun_eq_iff)
    moreover have "send_to_clients E l (e # els) msg uid gid st = send_to_clients E l els msg uid gid st"
      using False guard c(1) e by (simp add: permitted_def)
    ultimately show ?thesis using Cons.IH[OF guard(1,3) il] by simp
  next
    case True
    obtain b h st1 where f: "lttng_dynamic_buffer_append_buffer (ledger st) (Some (out_buffer c)) (Some msg) = Some (0, Some b, h)"
      "client_flush_outgoing_queue E a (put_client a (c\<lparr>out_buffer := b\<rparr>) (st\<lparr>ledger := h\<rparr>)) = Some (0, st1)" "sent a c s bs st st1"
      by (rule append_buffer_flush[OF o assms(1-4)])
    have k: "keeps_clients st st1" by (rule sent_keeps[OF f(3) o])
    have ss: "socks st1 = (socks st)(client_socket c \<mapsto> s\<lparr>tx := tx s @ bs\<rparr>)" using f(3) by (auto simp: sent_def)
    have "client_lists st1 l = Some cl" using k guard(1) only_io_simps(2)[of st st1] by (simp add: keeps_clients_def)
    from Cons.IH[OF this guard(3) same_idle_list[OF keeps_same[OF k] il]] obtain st' where
      st': "send_to_clients E l els msg uid gid st1 = Some (0, st')" "keeps_clients st1 st'"
      "socks st' = deliver bs (addressed st uid gid els) (socks st1)" by (auto simp: same_addressed[OF keeps_same[OF k], abs_def])
    have "socks st' = deliver bs (addressed st uid gid (e # els)) (socks st)"
      using True other c(3) by (auto simp: st'(3) ss ad deliver_def fun_eq_iff)
    moreover have "send_to_clients E l (e # els) msg uid gid st = Some (0, st')"
      using True guard c(1,2) e f(1,2) st'(1) by (auto simp: permitted_def)
    ultimately show ?thesis using keeps_clients_trans[OF k st'(2)] by blast
  qed
qed

section \<open>The message of a notification\<close>

lemma set_size_keeps:
  assumes "buf_ok b" "outcomes h = []" "unat n \<le> 2 ^ 63" "bsize b \<le> n"
  obtains b' h' where "lttng_dynamic_buffer_set_size h (Some b) n = Some (0, Some b', h')" "buf_ok b'" "bsize b' = n"
    "outcomes h' = []" "take (unat (bsize b)) (contents b') = contents b"
proof -
  from set_size_ok[OF assms(1,3), of h] obtain b' h' where b: "lttng_dynamic_buffer_set_size h (Some b) n = Some (0, Some b', h')"
    "buf_ok b'" "bsize b' = n" "contents b' = take (unat n) (contents b @ replicate (unat (bcapacity b) - unat (bsize b)) (Some 0) @
      replicate (unat n - unat (bcapacity b)) None)"
    using zmalloc_ok[OF assms(2)] by metis
  have "take (unat (bsize b)) (contents b') = contents b"
    using assms(4) length_contents[OF assms(1)] by (simp add: b(4) word_le_nat_alt)
  with that b(1-3) buffer_outcomes(2)[OF b(1) assms(2)] show thesis by blast
qed

lemma init_empty: "bsize lttng_dynamic_buffer_init = 0"
  by (simp add: lttng_dynamic_buffer_init_def)

lemma build_message_ok:
  assumes "sendable_notification (Some n)" "outcomes h = []"
  obtains b h' where "build_message (Some n) h = Some (0, b, h')" "buf_ok b" "contents b = map Some (notification_message n)"
    "outcomes h' = []"
proof -
  let ?bs = "notification_bytes (Some n)"
  let ?hd = "message_header LTTNG_NOTIFICATION_CHANNEL_MESSAGE_TYPE_NOTIFICATION (of_nat (length ?bs))"
  have small: "length ?bs < 2 ^ 16" by (rule notification.enc_bounded[OF assms(1)])
  obtain b1 h1 where b1: "lttng_dynamic_buffer_append h (Some lttng_dynamic_buffer_init) (Some (map Some ?hd)) 5 = Some (0, Some b1, h1)"
    "buf_ok b1" "contents b1 = map Some ?hd" "outcomes h1 = []"
    using append_all[OF buf_ok_init(1) assms(2), of ?hd] by (auto simp: init_empty)
  have s1: "unat (bsize b1) = 5" using length_contents[OF b1(2)] b1(3) by simp
  let ?n = "bsize b1 + of_nat (length ?bs)"
  have n: "unat ?n = 5 + length ?bs" using s1 small by (simp add: unat_word_ariths unat_of_nat)
  have le: "unat ?n \<le> 2 ^ 63" "bsize b1 \<le> ?n" using n s1 small by (simp_all add: word_le_nat_alt)
  obtain b2 h2 where b2: "lttng_dynamic_buffer_set_size h1 (Some b1) ?n = Some (0, Some b2, h2)" "buf_ok b2" "bsize b2 = ?n"
    "outcomes h2 = []" "take 5 (contents b2) = map Some ?hd"
    using set_size_keeps[OF b1(2,4) le] b1(3) s1 by metis
  have n2: "unat (bsize b2) = 5 + length ?bs" using b2(3) n by simp
  from b2(2) obtain m where m: "bdata b2 = Live m" "length m = unat (bcapacity b2)" "contents b2 = take (unat (bsize b2)) m"
    using n2 by (cases rule: buf_ok_cases) auto
  have fits: "5 + length ?bs \<le> length m" using buf_ok_size_le[OF b2(2)] n2 m(2) by simp
  let ?b = "b2\<lparr>bdata := Live (patch m 5 ?bs)\<rparr>"
  have hd: "take 5 m = map Some ?hd" using b2(5) m(3) n2 by (simp add: min_def)
  have c: "contents ?b = map Some (notification_message n)"
    using n2 fits hd by (simp add: contents_def patch_def message_def)
  have "buf_ok ?b" using b2(2) m(1) fits by (auto simp: buf_ok_def patch_def)
  moreover have "build_message (Some n) h = Some (0, ?b, h2)"
    using notification.ser_query[OF assms(1)] notification.ser_write[OF assms(1) fits] b1(1) b2(1) m(1)
    by (simp add: build_message_def block_cells_def Let_def)
  ultimately show thesis using that c b2(4) by blast
qed

abbreviation usage_notification :: "cond \<Rightarrow> u64 \<Rightarrow> u64 \<Rightarrow> lttng_notification" where
  "usage_notification cd use capacity \<equiv> \<lparr>ncondition = Some cd,
     nevaluation = Some (usage_evaluation (ctype (parent cd)) use capacity), owns_elements = False\<rparr>"

lemma usage_sendable: "sendable_condition cd \<Longrightarrow> sendable_notification (Some (usage_notification cd use capacity))"
  by (auto simp: sendable_notification_def evaluation_ok_def usage_evaluation_def is_usage_evaluation_def
      lttng_evaluation_get_type_def Let_def usage_parent_def elim!: sendableE)

lemma send_evaluation_ok:
  assumes "trigger_condition st trigger = Some cd" "sendable_condition cd" "outcomes (ledger st) = []"
    and "client_lists st l = Some cl" "idle_list st (list_clients cl)"
  shows "\<exists>st'. send_evaluation_to_clients E trigger (usage_evaluation (ctype (parent cd)) use capacity) l uid gid st = Some (0, st') \<and>
    keeps_clients st st' \<and>
    socks st' = deliver (notification_message (usage_notification cd use capacity)) (addressed st uid gid (list_clients cl)) (socks st)"
proof -
  let ?n = "usage_notification cd use capacity" and ?h = "(ledger st)\<lparr>live := live (ledger st) + 1\<rparr>"
  have "length (notification_bytes (Some ?n)) < 2 ^ 16" by (rule notification.enc_bounded[OF usage_sendable[OF assms(2)]])
  then have len: "notification_message ?n \<noteq> []" "length (notification_message ?n) \<le> 2 ^ 63"
    by (auto simp: message_def message_header_def)
  obtain b h where b: "build_message (Some ?n) ?h = Some (0, b, h)" "buf_ok b" "contents b = map Some (notification_message ?n)"
    "outcomes h = []" by (rule build_message_ok[OF usage_sendable[OF assms(2)], of ?h]) (use assms(3) in simp)
  let ?st = "st\<lparr>ledger := h\<rparr>"
  have k: "keeps_clients st ?st" by (rule keeps_ledger[OF b(4)])
  obtain st' where st': "send_to_clients E l (list_clients cl) b uid gid ?st = Some (0, st')" "keeps_clients ?st st'"
    "socks st' = deliver (notification_message ?n) (addressed ?st uid gid (list_clients cl)) (socks st)"
    using send_to_clients_ok[OF b(2,3) len _ _ same_idle_list[OF keeps_same[OF k] assms(5)], of l cl E uid gid] assms(4) by auto
  have "\<exists>b' h'. lttng_dynamic_buffer_reset (c_free (ledger st')) (Some b) = Some (b', h') \<and> outcomes h' = outcomes (ledger st')"
    using b(2) by (cases rule: buf_ok_cases) (auto simp: lttng_dynamic_buffer_reset_def c_free_def)
  then obtain b' h' where r: "lttng_dynamic_buffer_reset (c_free (ledger st')) (Some b) = Some (b', h')" "outcomes h' = outcomes (ledger st')"
    by blast
  have "outcomes (ledger st') = []" using st'(2) b(4) by (simp add: keeps_clients_def same_clients_def)
  then have k': "keeps_clients st (st'\<lparr>ledger := h'\<rparr>)"
    using r(2) by (intro keeps_clients_trans[OF k keeps_clients_trans[OF st'(2) keeps_ledger]]) simp
  have "send_evaluation_to_clients E trigger (usage_evaluation (ctype (parent cd)) use capacity) l uid gid st = Some (0, st'\<lparr>ledger := h'\<rparr>)"
    using assms(1,3,4) b(1) st'(1) r(1)
    by (simp add: send_evaluation_to_clients_def lttng_notification_create_def zmalloc_def lttng_notification_destroy_def)
  with k' st'(3) show ?thesis
    by (intro exI[of _ "st'\<lparr>ledger := h'\<rparr>"]) (simp add: same_addressed[OF keeps_same[OF k], abs_def])
qed

section \<open>The triggers of a channel\<close>

definition list_of_trigger :: "'t thread_env \<Rightarrow> 't thread_state \<Rightarrow> nat \<Rightarrow> nat option" where
  "list_of_trigger E st t = do {
     cd \<leftarrow> trigger_condition st t;
     k \<leftarrow> lttng_condition_hash (ht_seed E) cd;
     lfht_lookup E (notification_trigger_clients_ht st) k (match_client_list st t)
   }"

definition clients_of_trigger :: "'t thread_env \<Rightarrow> 't thread_state \<Rightarrow> nat \<Rightarrow> (nat \<times> nat) list" where
  "clients_of_trigger E st t =
     (case list_of_trigger E st t of
        None \<Rightarrow> []
      | Some l \<Rightarrow> case client_lists st l of None \<Rightarrow> [] | Some cl \<Rightarrow> list_clients cl)"

text \<open>A registered trigger whose clients are idle.\<close>

definition watched :: "'t thread_env \<Rightarrow> 't thread_state \<Rightarrow> nat \<Rightarrow> bool" where
  "watched E st t \<longleftrightarrow>
     (\<exists>tr cd l cl. triggers st t = Some tr \<and> tcondition tr = Some cd \<and> sendable_condition cd \<and>
        lttng_action_get_type (taction tr) = LTTNG_ACTION_TYPE_NOTIFY \<and> list_of_trigger E st t = Some l \<and>
        client_lists st l = Some cl \<and> idle_list st (list_clients cl))"

text \<open>What a trigger puts on a socket for a sample.\<close>

definition notified ::
  "'t thread_env \<Rightarrow> 't thread_state \<Rightarrow> channel_info \<Rightarrow> channel_state_sample option \<Rightarrow> channel_state_sample \<Rightarrow> int \<Rightarrow> nat \<Rightarrow> byte list"
where
  "notified E st info previous latest fd t =
     (case trigger_condition st t of
        None \<Rightarrow> []
      | Some cd \<Rightarrow>
          if crossed cd (info_capacity info) previous latest \<and>
             addressed st (info_uid info) (info_gid info) (clients_of_trigger E st t) fd
          then notification_message (usage_notification cd (highest_usage latest) (info_capacity info)) else [])"

lemma same_triggers:
  assumes "same_clients st st'"
  shows "trigger_condition st' t = trigger_condition st t" "list_of_trigger E st' t = list_of_trigger E st t"
    "clients_of_trigger E st' t = clients_of_trigger E st t" "client_lists st' = client_lists st" "triggers st' = triggers st"
proof -
  have s: "client_lists st' = client_lists st" "triggers st' = triggers st"
    "notification_trigger_clients_ht st' = notification_trigger_clients_ht st" using assms by (simp_all add: same_clients_def)
  show 1: "trigger_condition st' t = trigger_condition st t" by (simp add: trigger_condition_def s(2))
  show 2: "list_of_trigger E st' t = list_of_trigger E st t"
    unfolding list_of_trigger_def same_matches(3)[OF s(1,2)] s(3) 1 by (rule refl)
  show "clients_of_trigger E st' t = clients_of_trigger E st t"
    unfolding clients_of_trigger_def 2 s(1) by (rule refl)
qed (use assms in \<open>simp_all add: same_clients_def\<close>)

lemma same_watched: "same_clients st st' \<Longrightarrow> watched E st t \<Longrightarrow> watched E st' t"
  by (auto simp: watched_def same_triggers same_idle_list)

lemma same_notified: "same_clients st st' \<Longrightarrow> notified E st' info previous latest fd t = notified E st info previous latest fd t"
  unfolding notified_def same_triggers same_addressed by (rule refl)

text \<open>One trigger.\<close>

lemma evaluate_trigger_ok:
  assumes "watched E st t" "unat (info_capacity info) < 2 ^ 53" "outcomes (ledger st) = []"
  obtains st' where "evaluate_triggers E (t # ts) info previous latest st = evaluate_triggers E ts info previous latest st'"
    "keeps_clients st st'"
    "\<And>fd. socks st' fd = map_option (\<lambda>s. s\<lparr>tx := tx s @ notified E st info previous latest fd t\<rparr>) (socks st fd)"
proof -
  obtain tr cd l cl where w: "triggers st t = Some tr" "tcondition tr = Some cd" "sendable_condition cd"
    "lttng_action_get_type (taction tr) = LTTNG_ACTION_TYPE_NOTIFY" "list_of_trigger E st t = Some l"
    "client_lists st l = Some cl" "idle_list st (list_clients cl)" using assms(1) by (auto simp: watched_def)
  have tc: "trigger_condition st t = Some cd" using w(1,2) by (simp add: trigger_condition_def lttng_trigger_get_condition_def)
  obtain k where k: "lttng_condition_hash (ht_seed E) cd = Some k"
    "lfht_lookup E (notification_trigger_clients_ht st) k (match_client_list st t) = Some l"
    using w(5) tc by (auto simp: list_of_trigger_def split: bind_splits)
  let ?cap = "info_capacity info" and ?ad = "addressed st (info_uid info) (info_gid info) (list_clients cl)"
  let ?n = "usage_notification cd (highest_usage latest) ?cap"
  have nt: "notified E st info previous latest fd t = (if crossed cd ?cap previous latest \<and> ?ad fd then notification_message ?n else [])" for fd
    using tc w(5,6) by (simp add: notified_def clients_of_trigger_def)
  note step = w(1,2,4,6) k evaluate_crossed[OF w(3) assms(2,3)]
  have id: "socks st fd = map_option (\<lambda>s. s\<lparr>tx := tx s @ notified E st info previous latest fd t\<rparr>) (socks st fd)"
    if "\<not> crossed cd ?cap previous latest \<or> list_clients cl = []" for fd
    using that by (cases "socks st fd") (auto simp: nt addressed_def)
  consider "list_clients cl = []" | "list_clients cl \<noteq> []" "\<not> crossed cd ?cap previous latest"
    | "list_clients cl \<noteq> []" "crossed cd ?cap previous latest" by blast
  then show thesis
  proof cases
    case 3
    let ?st = "st\<lparr>ledger := (ledger st)\<lparr>live := live (ledger st) + 1\<rparr>\<rparr>"
    have ks: "keeps_clients st ?st" by (rule keeps_ledger) (use assms(3) in simp)
    obtain st' where st': "send_evaluation_to_clients E t (usage_evaluation (ctype (parent cd)) (highest_usage latest) ?cap) l
        (info_uid info) (info_gid info) ?st = Some (0, st')" "keeps_clients ?st st'"
      "socks st' = deliver (notification_message ?n) ?ad (socks st)"
      using send_evaluation_ok[of ?st t cd l cl E "highest_usage latest" ?cap "info_uid info" "info_gid info"]
        tc w(3,6) assms(3) same_idle_list[OF keeps_same[OF ks] w(7)] by (auto simp: same_triggers[OF keeps_same[OF ks]] same_addressed[OF keeps_same[OF ks], abs_def])
    have "socks st' fd = map_option (\<lambda>s. s\<lparr>tx := tx s @ notified E st info previous latest fd t\<rparr>) (socks st fd)" for fd
      using 3 by (cases "socks st fd") (simp_all add: st'(3) deliver_def nt)
    moreover have "evaluate_triggers E (t # ts) info previous latest st = evaluate_triggers E ts info previous latest st'"
      using 3 step st'(1) by simp
    ultimately show thesis using that keeps_clients_trans[OF ks st'(2)] by blast
  qed (rule that[of st], use step id in simp_all)+
qed

lemma evaluate_triggers_ok:
  assumes "list_all (watched E st) ts" "unat (info_capacity info) < 2 ^ 53" "outcomes (ledger st) = []"
  shows "\<exists>st'. evaluate_triggers E ts info previous latest st = Some (0, st') \<and> keeps_clients st st' \<and>
    (\<forall>fd. socks st' fd = map_option (\<lambda>s. s\<lparr>tx := tx s @ concat (map (notified E st info previous latest fd) ts)\<rparr>) (socks st fd))"
  using assms
proof (induction ts arbitrary: st)
  case Nil
  have "map_option (\<lambda>s. s\<lparr>tx := tx s @ []\<rparr>) (socks st fd) = socks st fd" for fd by (cases "socks st fd") simp_all
  then show ?case by simp
next
  case (Cons t ts)
  obtain st1 where st1: "evaluate_triggers E (t # ts) info previous latest st = evaluate_triggers E ts info previous latest st1"
    "keeps_clients st st1"
    "\<And>fd. socks st1 fd = map_option (\<lambda>s. s\<lparr>tx := tx s @ notified E st info previous latest fd t\<rparr>) (socks st fd)"
    by (rule evaluate_trigger_ok[of E st t info]) (use Cons.prems in auto)
  note k = keeps_same[OF st1(2)]
  have w: "list_all (watched E st1) ts" using Cons.prems(1) same_watched[OF k] by (simp add: list_all_iff)
  have o: "outcomes (ledger st1) = []" using k Cons.prems(3) by (simp add: same_clients_def)
  from Cons.IH[OF w Cons.prems(2) o] obtain st' where
    st': "evaluate_triggers E ts info previous latest st1 = Some (0, st')" "keeps_clients st1 st'"
    "\<And>fd. socks st' fd = map_option (\<lambda>s. s\<lparr>tx := tx s @ concat (map (notified E st info previous latest fd) ts)\<rparr>) (socks st1 fd)"
    by (auto simp: same_notified[OF k, abs_def])
  have "socks st' fd = map_option (\<lambda>s. s\<lparr>tx := tx s @ concat (map (notified E st info previous latest fd) (t # ts))\<rparr>) (socks st fd)" for fd
    by (cases "socks st fd") (simp_all add: st'(3) st1(3))
  then show ?case using st1(1) st'(1) keeps_clients_trans[OF st1(2) st'(2)] by (intro exI[of _ st']) simp
qed

section \<open>Samples\<close>

definition stored_sample :: "'t thread_env \<Rightarrow> channel_key \<Rightarrow> 't thread_state \<Rightarrow> channel_state_sample option" where
  "stored_sample E key st = Option.bind (lookup_sample E key st) (samples st)"

lemma stored_sample_same:
  assumes "samples st' = samples st" "channel_state_ht st' = channel_state_ht st"
  shows "stored_sample E key st' = stored_sample E key st"
proof -
  have "match_channel_state_sample st' key = match_channel_state_sample st key"
    by (simp add: match_channel_state_sample_def[abs_def] assms(1) cong: option.case_cong)
  then show ?thesis by (simp add: stored_sample_def lookup_sample_def assms)
qed

lemma match_sample:
  "match_channel_state_sample st key n \<longleftrightarrow> (\<exists>s. samples st n = Some s \<and> sample_key s = key)"
  by (auto simp: match_channel_state_sample_def split: option.splits)

lemma store_sample_ok:
  assumes "lfht_laws E view" "outcomes (ledger st) = []" "view (channel_state_ht st) (next_address st) = None"
  obtains st1 where "store_sample E latest st = Some (0, stored_sample E (sample_key latest) st, st1)"
    "st1 = st\<lparr>samples := samples st1, ledger := ledger st1, next_address := next_address st1, channel_state_ht := channel_state_ht st1\<rparr>"
    "outcomes (ledger st1) = []" "stored_sample E (sample_key latest) st1 = Some latest"
proof -
  let ?key = "sample_key latest" and ?n = "next_address st"
  let ?k = "hash_channel_key (ht_seed E) ?key"
  show thesis
  proof (cases "lookup_sample E ?key st")
    case None
    let ?st = "st\<lparr>samples := (samples st)(?n \<mapsto> latest), channel_state_ht := lfht_add E (channel_state_ht st) ?k ?n,
      ledger := (ledger st)\<lparr>live := live (ledger st) + 1\<rparr>, next_address := ?n + 1\<rparr>"
    have v: "view (lfht_add E (channel_state_ht st) ?k ?n) = (view (channel_state_ht st))(?n \<mapsto> ?k)"
      using assms(1,3) by (simp add: lfht_laws_def)
    have u: "n' = ?n" if "view (channel_state_ht ?st) n' = Some ?k" "match_channel_state_sample ?st ?key n'" for n'
      using that lookup_none[OF assms(1) None[unfolded lookup_sample_def], of n']
      by (auto simp: v match_sample split: if_splits)
    have "lookup_sample E ?key ?st = Some ?n"
      unfolding lookup_sample_def
    proof (rule lookup_unique[OF assms(1)])
      show "view (channel_state_ht ?st) ?n = Some ?k" by (simp add: v)
      show "match_channel_state_sample ?st ?key ?n" by (simp add: match_sample)
    qed (rule u)
    then have "stored_sample E ?key ?st = Some latest" by (simp add: stored_sample_def)
    moreover have "store_sample E latest st = Some (0, None, ?st)"
      using None assms(2) by (simp add: store_sample_def alloc_def zmalloc_def)
    moreover have "stored_sample E ?key st = None" using None by (simp add: stored_sample_def)
    ultimately show thesis using assms(2) by (intro that[of ?st]) simp_all
  next
    case (Some a)
    then obtain s where s: "samples st a = Some s" "sample_key s = ?key"
      using lookup_matches[OF assms(1) Some[unfolded lookup_sample_def]] by (auto simp: match_sample)
    let ?st = "st\<lparr>samples := (samples st)(a \<mapsto> s\<lparr>highest_usage := highest_usage latest, lowest_usage := lowest_usage latest\<rparr>)\<rparr>"
    have l: "s\<lparr>highest_usage := highest_usage latest, lowest_usage := lowest_usage latest\<rparr> = latest"
      using s(2) by (cases s; cases latest) simp
    have "match_channel_state_sample ?st ?key = match_channel_state_sample st ?key"
      using s by (auto simp: fun_eq_iff match_sample)
    then have "lookup_sample E ?key ?st = Some a" using Some by (simp add: lookup_sample_def)
    then have "stored_sample E ?key ?st = Some latest" by (simp add: stored_sample_def l)
    moreover have "store_sample E latest st = Some (0, Some s, ?st)" using Some s(1) by (simp add: store_sample_def)
    moreover have "stored_sample E ?key st = Some s" using Some s(1) by (simp add: stored_sample_def)
    ultimately show thesis using assms(2) by (intro that[of ?st]) simp_all
  qed
qed

text \<open>The message of a consumer on its monitoring pipe.\<close>

definition monitor_msg :: "u64 \<Rightarrow> u64 \<Rightarrow> u64 \<Rightarrow> byte list" where
  "monitor_msg key lowest highest = bytes_u64 key @ bytes_u64 lowest @ bytes_u64 highest"

lemma monitor_msg_sample:
  "monitor_msg_sample (monitor_msg key lowest highest) domain =
     \<lparr>sample_key = \<lparr>chan_key = key, chan_domain = domain\<rparr>, highest_usage = highest, lowest_usage = lowest\<rparr>"
  by (simp add: monitor_msg_sample_def monitor_msg_def)

lemma read_monitor_msg:
  assumes "list_all (\<lambda>x. \<exists>n. x = Part n) (rx_outcomes p)" "rx p = monitor_msg key lowest highest @ r"
  obtains p' where "lttng_read p (replicate 24 None) 0 24 = Some (24, map Some (monitor_msg key lowest highest), p')" "rx p' = r"
  using read_loop_complete[OF assms(1), of 0 24 0 "replicate 24 None"] assms(2)
  by (auto simp: lttng_read_def monitor_msg_def)

lemma lookups_same:
  "channels st' = channels st \<Longrightarrow> channels_ht st' = channels_ht st \<Longrightarrow> lookup_channel E key st' = lookup_channel E key st"
  "trigger_lists st' = trigger_lists st \<Longrightarrow> channel_triggers_ht st' = channel_triggers_ht st \<Longrightarrow>
     lookup_trigger_list E key st' = lookup_trigger_list E key st"
  "samples st' = samples st \<Longrightarrow> channel_state_ht st' = channel_state_ht st \<Longrightarrow> lookup_sample E key st' = lookup_sample E key st"
  unfolding lookup_channel_def lookup_trigger_list_def lookup_sample_def match_channel_info_def[abs_def]
    match_channel_trigger_list_def[abs_def] match_channel_state_sample_def[abs_def]
  by (simp_all cong: option.case_cong)

text \<open>The rest of the thread does not see that a sample was read and stored.\<close>

lemma sampled_same:
  assumes "clients st1 = clients st" "client_lists st1 = client_lists st" "triggers st1 = triggers st"
    and "notification_trigger_clients_ht st1 = notification_trigger_clients_ht st" "poll_results st1 = poll_results st"
    and "\<And>fd. fd \<noteq> pipe \<Longrightarrow> socks st1 fd = socks st fd" "\<And>a. client_fd st a \<noteq> Some pipe" "outcomes (ledger st1) = []"
  shows "same_clients st st1"
proof -
  have "idle st1 a" if i: "idle st a" for a
  proof -
    obtain c s where c: "open_client st a c s" using i by (auto simp: idle_def)
    then have "client_socket c \<noteq> pipe" using assms(7)[of a] by (auto simp: client_fd_def open_client_def)
    with c have "open_client st1 a c s" using assms by (simp add: open_client_def)
    then show ?thesis by (auto simp: idle_def)
  qed
  with assms show ?thesis by (simp add: same_clients_def)
qed


section \<open>A concrete delivery\<close>

abbreviation sample_channel_key :: channel_key where
  "sample_channel_key \<equiv> \<lparr>chan_key = 7, chan_domain = LTTNG_DOMAIN_UST\<rparr>"

definition sample_channel_info :: channel_info where
  "sample_channel_info = \<lparr>info_key = sample_channel_key, info_session_name = session_name sample_condition,
     info_uid = 1000, info_gid = 100, info_channel_name = channel_name sample_condition, info_capacity = 8192\<rparr>"

text \<open>The client at address 1 has subscribed to the condition of the trigger at 2; the pipe is descriptor 9.\<close>

definition sample_consumer :: "byte list \<Rightarrow> (nat \<times> u64) list thread_state" where
  "sample_consumer bs = (sample_thread (sample_client\<lparr>client_uid := 1000, client_gid := 100, validated := True\<rparr>) [])\<lparr>
     channel_triggers_ht := [(6, hash_channel_key 0 sample_channel_key)],
     notification_trigger_clients_ht := [(3, the (lttng_condition_hash 0 sample_condition))],
     channels_ht := [(5, hash_channel_key 0 sample_channel_key)],
     client_lists := [3 \<mapsto> \<lparr>list_trigger = 2, list_clients = [(4, 1)]\<rparr>],
     trigger_lists := [6 \<mapsto> \<lparr>tl_channel_key = sample_channel_key, tl_triggers = [2]\<rparr>],
     channels := [5 \<mapsto> sample_channel_info], triggers := [2 \<mapsto> sample_trigger],
     socks := [5 \<mapsto> \<lparr>rx = [], rx_outcomes = [], tx = [], tx_outcomes = []\<rparr>,
               9 \<mapsto> \<lparr>rx = bs, rx_outcomes = [Part 3], tx = [], tx_outcomes = []\<rparr>],
     next_address := 10\<rparr>"

lemma sample_consumer_simps [simp]:
  "socks (sample_consumer bs) = [5 \<mapsto> \<lparr>rx = [], rx_outcomes = [], tx = [], tx_outcomes = []\<rparr>,
     9 \<mapsto> \<lparr>rx = bs, rx_outcomes = [Part 3], tx = [], tx_outcomes = []\<rparr>]"
  "client_lists (sample_consumer bs) = [3 \<mapsto> \<lparr>list_trigger = 2, list_clients = [(4, 1)]\<rparr>]"
  "triggers (sample_consumer bs) = [2 \<mapsto> sample_trigger]" "channels (sample_consumer bs) = [5 \<mapsto> sample_channel_info]"
  "clients (sample_consumer bs) = [1 \<mapsto> sample_client\<lparr>client_uid := 1000, client_gid := 100, validated := True\<rparr>]"
  "trigger_lists (sample_consumer bs) = [6 \<mapsto> \<lparr>tl_channel_key = sample_channel_key, tl_triggers = [2]\<rparr>]"
  "notification_trigger_clients_ht (sample_consumer bs) = [(3, the (lttng_condition_hash 0 sample_condition))]"
  "samples (sample_consumer bs) = Map.empty" "channel_state_ht (sample_consumer bs) = []" "next_address (sample_consumer bs) = 10"
  "ledger (sample_consumer bs) = \<lparr>outcomes = [], live = 2\<rparr>" "poll_results (sample_consumer bs) = []"
  "channels_ht (sample_consumer bs) = [(5, hash_channel_key 0 sample_channel_key)]"
  "channel_triggers_ht (sample_consumer bs) = [(6, hash_channel_key 0 sample_channel_key)]"
  by (simp_all add: sample_consumer_def sample_thread_def)

lemma sample_equal: "lttng_condition_is_equal (Some sample_condition) (Some sample_condition)"
  by (simp add: lttng_condition_is_equal_def lttng_condition_buffer_usage_is_equal_def sample_condition_def
      fresh_condition_def zeroed_condition_def usage_parent_def)

lemma sample_consumer_lookups:
  "lookup_channel list_env sample_channel_key (sample_consumer bs) = Some 5"
  "lookup_trigger_list list_env sample_channel_key (sample_consumer bs) = Some 6"
  "lookup_sample list_env sample_channel_key (sample_consumer bs) = None"
  "trigger_condition (sample_consumer bs) 2 = Some sample_condition"
  "list_of_trigger list_env (sample_consumer bs) 2 = Some 3"
proof -
  show tc: "trigger_condition (sample_consumer bs) 2 = Some sample_condition"
    by (simp add: trigger_condition_def lttng_trigger_get_condition_def sample_trigger_def)
  obtain k where "lttng_condition_hash 0 sample_condition = Some k" by (rule condition_hash_defined[OF sample_sendable(1)])
  with tc show "list_of_trigger list_env (sample_consumer bs) 2 = Some 3"
    by (simp add: list_of_trigger_def list_env_def match_client_list_def sample_equal)
qed (simp_all add: lookup_channel_def lookup_trigger_list_def lookup_sample_def list_env_def match_channel_info_def
    match_channel_trigger_list_def sample_channel_info_def)

lemma sample_watched: "watched list_env (sample_consumer bs) 2"
proof -
  have "idle (sample_consumer bs) 1" using sample_client_ok by (simp add: idle_def open_client_def)
  then show ?thesis
    using sample_sendable(1) sample_consumer_lookups(5)
    by (auto simp: watched_def sample_trigger_def idle_list_def notify_action_def lttng_action_get_type_def)
qed


end
