(* ===== verification/Tracefile_Array.thy ===== *)
theory Tracefile_Array
  imports LTT_Prelude
begin

text \<open>
  The ring of trace files a relay daemon keeps per stream
  (\<open>src/bin/lttng-relayd/tracefile-array.c\<close>): which index sequence numbers are still on disk, and in
  which file. Sequence numbers are 64-bit words with \<open>-1\<close> for "none".

  The abstract ring is a list of segment lengths, oldest file first, and the first sequence number
  that is still kept.
\<close>

section \<open>State and operations\<close>

record tracefile =
  tf_seq_head :: u64
  tf_seq_tail :: u64

record tracefile_array =
  tf :: "tracefile list"
  tf_count :: size_t
  file_head :: u64
  file_tail :: u64
  seq_head :: u64
  seq_tail :: u64

abbreviation empty_tracefile :: tracefile where
  "empty_tracefile \<equiv> \<lparr>tf_seq_head = -1, tf_seq_tail = -1\<rparr>"

text \<open>The loop counter is an \<open>int\<close>, which overflows for a count of \<open>2 ^ 31\<close> or more.\<close>

definition tracefile_array_create :: "heap \<Rightarrow> size_t \<Rightarrow> (tracefile_array option \<times> heap) run" where
  "tracefile_array_create h count =
     (let (ok, h) = zmalloc h in
      if \<not> ok then Some (None, h)
      else let (ok, h) = zmalloc h in
        if \<not> ok then Some (None, c_free h)
        else if unat count \<ge> 2 ^ 31 then crash
        else Some (Some \<lparr>tf = replicate (unat count) empty_tracefile, tf_count = count,
                         file_head = 0, file_tail = 0, seq_head = -1, seq_tail = -1\<rparr>, h))"

definition tracefile_array_destroy :: "tracefile_array option \<Rightarrow> heap \<Rightarrow> heap" where
  "tracefile_array_destroy tfa h = (case tfa of None \<Rightarrow> h | Some _ \<Rightarrow> c_free (c_free h))"

definition tf_at :: "tracefile_array \<Rightarrow> u64 \<Rightarrow> tracefile run" where
  "tf_at tfa i = (if unat i < length (tf tfa) then Some (tf tfa ! unat i) else crash)"

definition tracefile_array_file_rotate :: "tracefile_array \<Rightarrow> tracefile_array run" where
  "tracefile_array_file_rotate tfa =
     (if tf_count tfa = 0 then Some tfa
      else do {
        let tfa = tfa\<lparr>file_head := (file_head tfa + 1) mod tf_count tfa\<rparr>;
        let tfa = (if file_head tfa = file_tail tfa
                   then tfa\<lparr>file_tail := (file_tail tfa + 1) mod tf_count tfa\<rparr> else tfa);
        head \<leftarrow> tf_at tfa (file_head tfa);
        tfa \<leftarrow> (if tf_seq_head head \<noteq> -1
                then do { tail \<leftarrow> tf_at tfa (file_tail tfa); Some (tfa\<lparr>seq_tail := tf_seq_tail tail\<rparr>) }
                else Some tfa);
        Some (tfa\<lparr>tf := (tf tfa)[unat (file_head tfa) := empty_tracefile]\<rparr>)
      })"

definition tracefile_array_commit_seq :: "tracefile_array \<Rightarrow> tracefile_array run" where
  "tracefile_array_commit_seq tfa =
     (let tfa = tfa\<lparr>seq_head := seq_head tfa + 1\<rparr>;
          tfa = (if seq_tail tfa = -1 then tfa\<lparr>seq_tail := 0\<rparr> else tfa) in
      if tf_count tfa = 0 then Some tfa
      else do {
        head \<leftarrow> tf_at tfa (file_head tfa);
        let head = head\<lparr>tf_seq_head := seq_head tfa\<rparr>;
        let head = (if tf_seq_tail head = -1 then head\<lparr>tf_seq_tail := seq_head tfa\<rparr> else head);
        Some (tfa\<lparr>tf := (tf tfa)[unat (file_head tfa) := head]\<rparr>)
      })"

definition tracefile_array_get_file_index_head :: "tracefile_array \<Rightarrow> u64" where
  "tracefile_array_get_file_index_head tfa = file_head tfa"

definition tracefile_array_get_seq_head :: "tracefile_array \<Rightarrow> u64" where
  "tracefile_array_get_seq_head tfa = seq_head tfa"

definition tracefile_array_get_file_index_tail :: "tracefile_array \<Rightarrow> u64" where
  "tracefile_array_get_file_index_tail tfa = file_tail tfa"

definition tracefile_array_get_seq_tail :: "tracefile_array \<Rightarrow> u64" where
  "tracefile_array_get_seq_tail tfa = seq_tail tfa"

definition tracefile_array_seq_in_file :: "tracefile_array \<Rightarrow> u64 \<Rightarrow> u64 \<Rightarrow> bool run" where
  "tracefile_array_seq_in_file tfa file_index seq =
     (if tf_count tfa = 0 then Some True
      else do {
        c_assert (file_index < tf_count tfa);
        if seq = -1 then Some False
        else do {
          f \<leftarrow> tf_at tfa file_index;
          Some (tf_seq_tail f \<le> seq \<and> seq \<le> tf_seq_head f)
        }
      })"

section \<open>Abstract ring and sequences of operations\<close>

record ring =
  segs :: "nat list"
  start :: nat

definition ring_commit :: "ring \<Rightarrow> ring" where
  "ring_commit r = r\<lparr>segs := (segs r)[length (segs r) - 1 := last (segs r) + 1]\<rparr>"

definition ring_rotate :: "nat \<Rightarrow> ring \<Rightarrow> ring" where
  "ring_rotate count r =
     (if length (segs r) < count then r\<lparr>segs := segs r @ [0]\<rparr>
      else \<lparr>segs = tl (segs r) @ [0], start = start r + hd (segs r)\<rparr>)"

datatype tfa_op = Commit | Rotate

fun run_ops :: "tfa_op list \<Rightarrow> tracefile_array \<Rightarrow> tracefile_array run" where
  "run_ops [] tfa = Some tfa"
| "run_ops (Commit # ops) tfa = do { tfa \<leftarrow> tracefile_array_commit_seq tfa; run_ops ops tfa }"
| "run_ops (Rotate # ops) tfa = do { tfa \<leftarrow> tracefile_array_file_rotate tfa; run_ops ops tfa }"

fun ring_ops :: "nat \<Rightarrow> tfa_op list \<Rightarrow> ring \<Rightarrow> ring" where
  "ring_ops count [] r = r"
| "ring_ops count (Commit # ops) r = ring_ops count ops (ring_commit r)"
| "ring_ops count (Rotate # ops) r = ring_ops count ops (ring_rotate count r)"

text \<open>The head file has content whenever the array is rotated.\<close>

fun no_empty_rotation :: "bool \<Rightarrow> tfa_op list \<Rightarrow> bool" where
  "no_empty_rotation b [] = True"
| "no_empty_rotation b (Commit # ops) = no_empty_rotation True ops"
| "no_empty_rotation b (Rotate # ops) = (b \<and> no_empty_rotation False ops)"

section \<open>Simulation\<close>

definition seg_start :: "ring \<Rightarrow> nat \<Rightarrow> nat" where
  "seg_start r j = start r + sum_list (take j (segs r))"

definition seg_file :: "ring \<Rightarrow> nat \<Rightarrow> tracefile" where
  "seg_file r j =
     (if j < length (segs r) \<and> 0 < segs r ! j
      then \<lparr>tf_seq_head = of_nat (seg_start r (Suc j) - 1), tf_seq_tail = of_nat (seg_start r j)\<rparr>
      else empty_tracefile)"

abbreviation ring_total :: "ring \<Rightarrow> nat" where
  "ring_total r \<equiv> start r + sum_list (segs r)"

definition simulates :: "nat \<Rightarrow> tracefile_array \<Rightarrow> ring \<Rightarrow> bool" where
  "simulates n tfa r \<longleftrightarrow>
     2 \<le> n \<and> n < 2 ^ 31 \<and> unat (tf_count tfa) = n \<and> length (tf tfa) = n \<and>
     segs r \<noteq> [] \<and> length (segs r) \<le> n \<and> (\<forall>j < length (segs r) - 1. 0 < segs r ! j) \<and>
     unat (file_tail tfa) < n \<and>
     unat (file_head tfa) = (unat (file_tail tfa) + (length (segs r) - 1)) mod n \<and>
     (\<forall>j < n. tf tfa ! ((unat (file_tail tfa) + j) mod n) = seg_file r j) \<and>
     ring_total r < 2 ^ 64 - 1 \<and>
     seq_head tfa = of_nat (ring_total r) - 1 \<and>
     seq_tail tfa = (if ring_total r = 0 then -1 else of_nat (start r))"

lemma mod_add_inj:
  assumes "i < n" "j < (n :: nat)" "(t + i) mod n = (t + j) mod n"
  shows "i = j"
proof -
  have "i = j" if "i \<le> j" "j < n" "(t + j) mod n = (t + i) mod n" for i j
    using that mod_eq_dvd_iff_nat[of "t + i" "t + j" n] by (auto dest!: dvd_imp_le)
  then show ?thesis using assms by (metis nat_le_linear)
qed

lemma ring_back: "t < n \<Longrightarrow> ((t + 1) mod n + (n - 1)) mod n = (t :: nat)"
proof -
  assume t: "t < n"
  then have "t + 1 + (n - 1) = t + n" by simp
  then have "((t + 1) mod n + (n - 1)) mod n = (t + n) mod n" by (simp only: mod_add_left_eq)
  with t show ?thesis by simp
qed

lemma ring_index:
  assumes "i < n" "t < (n :: nat)"
  shows "\<exists>j < n. (t + j) mod n = i"
proof (cases "t \<le> i")
  case True
  then show ?thesis using assms by (intro exI[of _ "i - t"]) simp
next
  case False
  then show ?thesis using assms by (intro exI[of _ "i + n - t"]) simp
qed

lemma of_nat_not_m1: "k < 2 ^ 64 - 1 \<Longrightarrow> (of_nat k :: u64) \<noteq> -1"
proof
  assume k: "k < 2 ^ 64 - 1" and "(of_nat k :: u64) = -1"
  then have "unat (of_nat k :: u64) = unat (-1 :: u64)" by simp
  moreover have "unat (of_nat k :: u64) = k" using k by (simp add: unat_of_nat)
  moreover have "unat (-1 :: u64) = 2 ^ 64 - 1" by (simp add: unsigned_minus_1_eq_mask mask_eq_exp_minus_1)
  ultimately show False using k by simp
qed

lemma seg_start_Suc: "j < length (segs r) \<Longrightarrow> seg_start r (Suc j) = seg_start r j + segs r ! j"
  by (simp add: seg_start_def take_Suc_conv_app_nth)

lemma seg_start_le_total: "seg_start r j \<le> ring_total r"
proof -
  have "sum_list (take j (segs r)) + sum_list (drop j (segs r)) = sum_list (segs r)"
    by (metis append_take_drop_id sum_list_append)
  then show ?thesis by (simp add: seg_start_def)
qed

lemma seg_file_eq_m1:
  assumes "ring_total r < 2 ^ 64 - 1"
  shows "tf_seq_head (seg_file r j) = -1 \<longleftrightarrow> \<not> (j < length (segs r) \<and> 0 < segs r ! j)"
    "tf_seq_tail (seg_file r j) = -1 \<longleftrightarrow> \<not> (j < length (segs r) \<and> 0 < segs r ! j)"
proof -
  have "seg_start r j < 2 ^ 64 - 1" "seg_start r (Suc j) - 1 < 2 ^ 64 - 1"
    using assms seg_start_le_total[of r j] seg_start_le_total[of r "Suc j"] by linarith+
  then have "(of_nat (seg_start r j) :: u64) \<noteq> -1" "(of_nat (seg_start r (Suc j) - 1) :: u64) \<noteq> -1"
    by (simp_all only: of_nat_not_m1 not_False_eq_True)
  then show "tf_seq_head (seg_file r j) = -1 \<longleftrightarrow> \<not> (j < length (segs r) \<and> 0 < segs r ! j)"
    "tf_seq_tail (seg_file r j) = -1 \<longleftrightarrow> \<not> (j < length (segs r) \<and> 0 < segs r ! j)"
    by (auto simp: seg_file_def simp del: of_nat_diff)
qed

subsection \<open>Commit\<close>

lemma ring_commit_simps:
  assumes "segs r \<noteq> []" and k: "k = length (segs r) - 1"
  shows "length (segs (ring_commit r)) = length (segs r)" "start (ring_commit r) = start r"
    "segs (ring_commit r) ! k = Suc (segs r ! k)" "j < k \<Longrightarrow> segs (ring_commit r) ! j = segs r ! j"
    "j \<le> k \<Longrightarrow> seg_start (ring_commit r) j = seg_start r j" "ring_total (ring_commit r) = Suc (ring_total r)"
    "ring_total r = seg_start r k + segs r ! k"
proof -
  have kl: "k < length (segs r)" "last (segs r) = segs r ! k" using assms by (simp_all add: last_conv_nth)
  show "length (segs (ring_commit r)) = length (segs r)" "start (ring_commit r) = start r"
    "segs (ring_commit r) ! k = Suc (segs r ! k)" "j < k \<Longrightarrow> segs (ring_commit r) ! j = segs r ! j"
    "j \<le> k \<Longrightarrow> seg_start (ring_commit r) j = seg_start r j"
    using kl k by (simp_all add: ring_commit_def seg_start_def)
  show "ring_total (ring_commit r) = Suc (ring_total r)"
    using kl k by (simp add: ring_commit_def sum_list_update elem_le_sum_list)
  show "ring_total r = seg_start r k + segs r ! k"
    using kl(1) k seg_start_Suc[of k r] by (simp add: seg_start_def)
qed

lemma ring_commit_seg_file:
  assumes "segs r \<noteq> []" "k = length (segs r) - 1"
  shows "j \<noteq> k \<Longrightarrow> seg_file (ring_commit r) j = seg_file r j"
    "seg_file (ring_commit r) k = \<lparr>tf_seq_head = of_nat (ring_total r), tf_seq_tail = of_nat (seg_start r k)\<rparr>"
proof -
  note c = ring_commit_simps[OF assms]
  have kl: "k < length (segs r)" using assms by simp
  show "seg_file (ring_commit r) j = seg_file r j" if "j \<noteq> k"
  proof (cases "j < k")
    case True
    then show ?thesis using c(1,4) c(5)[of j] c(5)[of "Suc j"] by (simp add: seg_file_def del: of_nat_diff)
  next
    case False
    then have "\<not> j < length (segs r)" using that assms(2) by linarith
    then show ?thesis using c(1) by (simp add: seg_file_def)
  qed
  show "seg_file (ring_commit r) k = \<lparr>tf_seq_head = of_nat (ring_total r), tf_seq_tail = of_nat (seg_start r k)\<rparr>"
    using c kl seg_start_Suc[of k "ring_commit r"] by (simp add: seg_file_def)
qed

lemma commit_simulates:
  assumes sim: "simulates n tfa r" and small: "ring_total r + 1 < 2 ^ 64 - 1"
  shows "\<exists>tfa'. tracefile_array_commit_seq tfa = Some tfa' \<and> simulates n tfa' (ring_commit r)"
proof -
  define k where "k = length (segs r) - 1"
  have ne: "segs r \<noteq> []" and k: "k < length (segs r)" "k < n"
    using sim by (auto simp: simulates_def k_def)
  note c = ring_commit_simps[OF ne k_def] and f = ring_commit_seg_file[OF ne k_def]
  let ?i = "unat (file_head tfa)" and ?T = "ring_total r"
  have i: "?i = (unat (file_tail tfa) + k) mod n" "?i < n" "0 < n"
    using sim by (auto simp: simulates_def k_def)
  have len: "length (tf tfa) = n" "tf_count tfa \<noteq> 0" using sim by (auto simp: simulates_def)
  have files: "\<forall>j < n. tf tfa ! ((unat (file_tail tfa) + j) mod n) = seg_file r j"
    using sim unfolding simulates_def by blast
  then have fk: "tf tfa ! ?i = seg_file r k" unfolding i(1) using k(2) by blast
  have T: "ring_total r < 2 ^ 64 - 1" using sim by (simp add: simulates_def)
  have tail0: "(of_nat (start r) :: u64) \<noteq> -1" by (rule of_nat_not_m1) (use T in simp)
  have head: "seq_head tfa + 1 = of_nat ?T" using sim by (simp add: simulates_def)
  define new where "new = seg_file (ring_commit r) k"
  have new: "(seg_file r k)\<lparr>tf_seq_head := of_nat ?T\<rparr> = new \<or> tf_seq_tail (seg_file r k) = -1"
    "tf_seq_tail (seg_file r k) = -1 \<Longrightarrow> (seg_file r k)\<lparr>tf_seq_head := of_nat ?T, tf_seq_tail := of_nat ?T\<rparr> = new"
    using k(1) f(2) c(7) seg_file_eq_m1(2)[OF T, of k] by (auto simp: new_def seg_file_def)
  have seq: "(if seq_tail tfa = -1 then 0 else seq_tail tfa) = of_nat (start r)"
    using sim tail0 by (auto simp: simulates_def)
  let ?t = "tfa\<lparr>seq_head := of_nat ?T, seq_tail := of_nat (start r), tf := (tf tfa)[?i := new]\<rparr>"
  have "tracefile_array_commit_seq tfa = Some ?t"
    using len i fk head new seq
    by (cases "tf_seq_tail (seg_file r k) = -1"; cases "seq_tail tfa = -1")
      (auto simp: tracefile_array_commit_seq_def tf_at_def Let_def)
  moreover have "simulates n ?t (ring_commit r)"
  proof -
    have "(tf tfa)[?i := new] ! ((unat (file_tail tfa) + j) mod n) = seg_file (ring_commit r) j" if "j < n" for j
    proof (cases "j = k")
      case True
      then show ?thesis using i len by (simp add: new_def)
    next
      case False
      then have "(unat (file_tail tfa) + j) mod n \<noteq> ?i"
        unfolding i(1) using mod_add_inj[OF that k(2), of "unat (file_tail tfa)"] by blast
      then show ?thesis using files that f(1)[OF False] by simp
    qed
    moreover have "\<forall>j < length (segs (ring_commit r)) - 1. 0 < segs (ring_commit r) ! j"
      using sim c(1,4) by (simp add: simulates_def k_def)
    ultimately show ?thesis
      using sim c small k by (auto simp: simulates_def)
  qed
  ultimately show ?thesis by blast
qed

subsection \<open>Rotation\<close>

lemma unat_inc_mod:
  assumes "unat x < n" "unat c = n" "n < 2 ^ 31"
  shows "unat ((x + 1 :: u64) mod c) = (unat x + 1) mod n"
proof -
  have "unat (x + 1) = unat x + 1" using assms by (simp add: unat_plus_if')
  then show ?thesis using assms(2) by (simp only: unat_mod)
qed

lemma segments_pos:
  assumes sim: "simulates n tfa r" and last: "0 < last (segs r)" and j: "j < length (segs r)"
  shows "0 < segs r ! j"
proof (cases "j < length (segs r) - 1")
  case True
  then show ?thesis using sim by (simp add: simulates_def)
next
  case False
  then have "j = length (segs r) - 1" using j by linarith
  moreover have "segs r \<noteq> []" using j by auto
  ultimately show ?thesis using last by (simp add: last_conv_nth)
qed

lemma rotate_grow:
  assumes sim: "simulates n tfa r" and last: "0 < last (segs r)" and L: "length (segs r) < n"
  shows "\<exists>tfa'. tracefile_array_file_rotate tfa = Some tfa' \<and> simulates n tfa' (r\<lparr>segs := segs r @ [0]\<rparr>)"
proof -
  let ?t = "unat (file_tail tfa)" and ?L = "length (segs r)" and ?r = "r\<lparr>segs := segs r @ [0]\<rparr>"
  have n: "n < 2 ^ 31" "unat (tf_count tfa) = n" "length (tf tfa) = n" "?t < n" "segs r \<noteq> []" "tf_count tfa \<noteq> 0"
    using sim by (auto simp: simulates_def)
  have files: "\<forall>j < n. tf tfa ! ((?t + j) mod n) = seg_file r j"
    and h: "unat (file_head tfa) = (?t + (?L - 1)) mod n"
    using sim unfolding simulates_def by blast+
  let ?h = "(file_head tfa + 1) mod tf_count tfa"
  have "unat ?h = ((?t + (?L - 1)) mod n + 1) mod n"
    using unat_inc_mod[of "file_head tfa" n "tf_count tfa"] h n by simp
  moreover have "?t + (?L - 1) + 1 = ?t + ?L" using n(5) by (cases "segs r") simp_all
  ultimately have head: "unat ?h = (?t + ?L) mod n" by (simp only: mod_add_left_eq)
  have "(?t + ?L) mod n \<noteq> (?t + 0) mod n" using mod_add_inj[OF L, of 0 ?t] n(5) L by fastforce
  then have neq: "?h \<noteq> file_tail tfa" using head n(4) by auto
  have e: "seg_file r ?L = empty_tracefile" by (simp add: seg_file_def)
  have f: "tf tfa ! unat ?h = empty_tracefile" "unat ?h < n" using files L head e n by simp_all
  let ?tfa = "tfa\<lparr>file_head := ?h\<rparr>"
  have "(tf tfa)[unat ?h := empty_tracefile] = tf tfa" using f by (metis list_update_id)
  then have "tracefile_array_file_rotate tfa = Some ?tfa"
    using n neq f by (simp add: tracefile_array_file_rotate_def tf_at_def Let_def)
  moreover have "simulates n ?tfa ?r"
  proof -
    have ss: "seg_start ?r j = seg_start r j" if "j \<le> ?L" for j using that by (simp add: seg_start_def)
    have "seg_file ?r j = seg_file r j" for j
      using ss[of j] ss[of "Suc j"] by (cases "j < ?L") (auto simp: seg_file_def nth_append)
    moreover note segments_pos[OF sim last]
    ultimately show ?thesis
      using sim L head by (simp add: simulates_def nth_append)
  qed
  ultimately show ?thesis by blast
qed

lemma ring_drop_simps:
  assumes L: "length (segs r) = n" "2 \<le> n" and r': "r' = \<lparr>segs = tl (segs r) @ [0], start = start r + hd (segs r)\<rparr>"
  shows "length (segs r') = n" "ring_total r' = ring_total r" "start r' = seg_start r 1"
    "j < n - 1 \<Longrightarrow> segs r' ! j = segs r ! Suc j" "j < n - 1 \<Longrightarrow> seg_file r' j = seg_file r (Suc j)"
    "seg_file r' (n - 1) = empty_tracefile"
proof -
  obtain x xs where r: "segs r = x # xs" using L by (cases "segs r") auto
  show "length (segs r') = n" "ring_total r' = ring_total r" "start r' = seg_start r 1"
    using L r by (simp_all add: r' seg_start_def)
  show nth: "segs r' ! j = segs r ! Suc j" if "j < n - 1" for j
    using that L r by (auto simp: r' nth_append)
  have "seg_start r' j = seg_start r (Suc j)" if "j \<le> n - 1" for j
    using that L r by (simp add: r' seg_start_def)
  then show "seg_file r' j = seg_file r (Suc j)" if "j < n - 1" for j
    using that L r nth[OF that] \<open>length (segs r') = n\<close> by (simp add: seg_file_def)
  show "seg_file r' (n - 1) = empty_tracefile"
    using L r by (auto simp: seg_file_def r' nth_append)
qed

lemma rotate_drop:
  assumes sim: "simulates n tfa r" and last: "0 < last (segs r)" and L: "length (segs r) = n"
    and r': "r' = \<lparr>segs = tl (segs r) @ [0], start = start r + hd (segs r)\<rparr>"
  shows "\<exists>tfa'. tracefile_array_file_rotate tfa = Some tfa' \<and> simulates n tfa' r'"
proof -
  let ?t = "unat (file_tail tfa)"
  have n: "2 \<le> n" "n < 2 ^ 31" "unat (tf_count tfa) = n" "length (tf tfa) = n" "?t < n" "tf_count tfa \<noteq> 0"
    and T: "ring_total r < 2 ^ 64 - 1"
    using sim by (auto simp: simulates_def)
  note d = ring_drop_simps[OF L n(1) r']
  have files: "\<forall>j < n. tf tfa ! ((?t + j) mod n) = seg_file r j"
    and h: "unat (file_head tfa) = (?t + (n - 1)) mod n"
    using sim unfolding simulates_def L by blast+
  have pos: "0 < segs r ! j" if "j < n" for j
    using segments_pos[OF sim last] that L by simp
  let ?h = "(file_head tfa + 1) mod tf_count tfa" and ?l = "(file_tail tfa + 1) mod tf_count tfa"
  have "unat ?h = ((?t + (n - 1)) mod n + 1) mod n"
    using unat_inc_mod[of "file_head tfa" n "tf_count tfa"] h n by simp
  then have "unat ?h = ?t" using n by (simp add: mod_simps)
  then have head: "?h = file_tail tfa" by (simp add: unsigned_word_eqI)
  have tail: "unat ?l = (?t + 1) mod n" using unat_inc_mod[OF n(5,3,2)] .
  have f0: "tf tfa ! ?t = seg_file r 0" using files n by (metis add.right_neutral gr_zeroI less_nat_zero_code mod_less)
  have f1: "tf tfa ! unat ?l = seg_file r 1" using files[THEN spec, of 1] n(1) tail by simp
  have "tf_seq_head (seg_file r 0) \<noteq> -1" using seg_file_eq_m1(1)[OF T, of 0] pos[of 0] L n(1) by simp
  moreover have "tf_seq_tail (seg_file r 1) = of_nat (start r')"
    using pos[of 1] L n(1) d(3) by (simp add: seg_file_def)
  moreover have "unat ?l < n" using tail n by simp
  ultimately have "tracefile_array_file_rotate tfa = Some (tfa\<lparr>file_head := file_tail tfa, file_tail := ?l,
      seq_tail := of_nat (start r'), tf := (tf tfa)[?t := empty_tracefile]\<rparr>)" (is "_ = Some ?tfa")
    using n head f0 f1 by (simp add: tracefile_array_file_rotate_def tf_at_def Let_def)
  moreover have "simulates n ?tfa r'"
  proof -
    have "(tf tfa)[?t := empty_tracefile] ! (((?t + 1) mod n + j) mod n) = seg_file r' j" if "j < n" for j
    proof (cases "j = n - 1")
      case True
      then have "((?t + 1) mod n + j) mod n = ?t" using ring_back[OF n(5)] by simp
      then show ?thesis using True d(6) n by simp
    next
      case False
      then have j: "Suc j < n" using that by simp
      have "((?t + 1) mod n + j) mod n = (?t + Suc j) mod n" by (simp add: mod_simps)
      moreover have "(?t + Suc j) mod n \<noteq> ?t"
        using mod_add_inj[OF j, of 0 ?t] n by fastforce
      ultimately show ?thesis using files[THEN spec, of "Suc j"] j d(5)[of j] by simp
    qed
    moreover have "?t = ((?t + 1) mod n + (n - 1)) mod n" using ring_back[OF n(5)] by simp
    moreover have "ring_total r' \<noteq> 0" using d(2) pos[of 0] L n(1) nth_mem[of 0 "segs r"] by fastforce
    moreover have "ring_total r \<noteq> 0" "segs r' \<noteq> []" using d(1,2) \<open>ring_total r' \<noteq> 0\<close> n(1) by auto
    ultimately show ?thesis
      using sim d(1-4) pos n tail T by (auto simp: simulates_def)
  qed
  ultimately show ?thesis by blast
qed

lemma rotate_simulates:
  assumes "simulates n tfa r" "0 < last (segs r)"
  shows "\<exists>tfa'. tracefile_array_file_rotate tfa = Some tfa' \<and> simulates n tfa' (ring_rotate n r)"
proof (cases "length (segs r) < n")
  case True
  then show ?thesis using rotate_grow[OF assms True] by (simp add: ring_rotate_def)
next
  case False
  then have "length (segs r) = n" using assms(1) by (simp add: simulates_def)
  then show ?thesis using rotate_drop[OF assms] by (simp add: ring_rotate_def)
qed

subsection \<open>Sequences of operations\<close>

lemma ring_total_ops:
  assumes "simulates n tfa r"
  shows "ring_total (ring_commit r) = ring_total r + 1" "ring_total (ring_rotate n r) = ring_total r"
    "0 < last (segs (ring_commit r))" "last (segs (ring_rotate n r)) = 0"
proof -
  have ne: "segs r \<noteq> []" and n: "2 \<le> n" using assms by (auto simp: simulates_def)
  show "ring_total (ring_commit r) = ring_total r + 1" using ring_commit_simps(6)[OF ne refl] by simp
  show "0 < last (segs (ring_commit r))"
    using ring_commit_simps(1,3)[OF ne refl] ne by (subst last_conv_nth) auto
  show "ring_total (ring_rotate n r) = ring_total r"
    using ne by (cases "segs r") (auto simp: ring_rotate_def)
  show "last (segs (ring_rotate n r)) = 0" by (simp add: ring_rotate_def)
qed

lemma run_simulates:
  assumes "simulates n tfa r" "no_empty_rotation (0 < last (segs r)) ops" "ring_total r + length ops < 2 ^ 64 - 1"
  shows "\<exists>tfa'. run_ops ops tfa = Some tfa' \<and> simulates n tfa' (ring_ops n ops r) \<and>
    ring_total (ring_ops n ops r) = ring_total r + count_list ops Commit"
  using assms
proof (induction ops arbitrary: tfa r)
  case Nil
  then show ?case by simp
next
  case (Cons op ops)
  show ?case
  proof (cases op)
    case Commit
    obtain tfa' where t: "tracefile_array_commit_seq tfa = Some tfa'" "simulates n tfa' (ring_commit r)"
      using commit_simulates[OF Cons.prems(1)] Cons.prems(3) by auto
    with Cons.IH[OF t(2)] Cons.prems ring_total_ops[OF Cons.prems(1)] Commit show ?thesis by simp
  next
    case Rotate
    obtain tfa' where t: "tracefile_array_file_rotate tfa = Some tfa'" "simulates n tfa' (ring_rotate n r)"
      using rotate_simulates[OF Cons.prems(1)] Cons.prems(2) Rotate by auto
    with Cons.IH[OF t(2)] Cons.prems ring_total_ops[OF Cons.prems(1)] Rotate show ?thesis by simp
  qed
qed

lemma create_simulates:
  assumes "tracefile_array_create h count = Some (Some tfa, h')" "2 \<le> unat count"
  shows "simulates (unat count) tfa \<lparr>segs = [0], start = 0\<rparr>"
  using assms
  by (auto simp: tracefile_array_create_def simulates_def seg_file_def split: prod.splits if_splits)

section \<open>Lookup\<close>

lemma seg_find:
  assumes "start r \<le> s" "s < ring_total r"
  shows "\<exists>j < length (segs r). seg_start r j \<le> s \<and> s < seg_start r (Suc j)"
proof -
  define k where "k = (LEAST k. s < seg_start r k)"
  have "s < seg_start r (length (segs r))" using assms(2) by (simp add: seg_start_def)
  then have k: "s < seg_start r k" "k \<le> length (segs r)"
    unfolding k_def by (auto intro: LeastI Least_le)
  have "k \<noteq> 0" using k(1) assms(1) by (cases k) (auto simp: seg_start_def)
  then obtain j where j: "k = Suc j" by (cases k) auto
  have "\<not> s < seg_start r j" using not_less_Least[of j "\<lambda>k. s < seg_start r k"] j by (simp add: k_def)
  then show ?thesis using j k by (intro exI[of _ j]) auto
qed

lemma seg_start_mono: "i \<le> j \<Longrightarrow> seg_start r i \<le> seg_start r j"
proof -
  assume "i \<le> j"
  then have "take j (segs r) = take i (segs r) @ take (j - i) (drop i (segs r))"
    by (metis le_add_diff_inverse take_add)
  then show ?thesis by (simp add: seg_start_def)
qed

lemma seg_unique:
  assumes "seg_start r i \<le> s" "s < seg_start r (Suc i)" "seg_start r j \<le> s" "s < seg_start r (Suc j)"
  shows "i = j"
  using assms seg_start_mono[of "Suc i" j r] seg_start_mono[of "Suc j" i r]
  by (metis Suc_leI linorder_neqE_nat not_less order_less_le_trans)

lemma in_seg_file:
  assumes T: "ring_total r < 2 ^ 64 - 1" and s: "seq \<noteq> -1"
  shows "tf_seq_tail (seg_file r j) \<le> seq \<and> seq \<le> tf_seq_head (seg_file r j) \<longleftrightarrow>
    j < length (segs r) \<and> seg_start r j \<le> unat seq \<and> unat seq < seg_start r (Suc j)"
proof (cases "j < length (segs r) \<and> 0 < segs r ! j")
  case True
  then have pos: "0 < seg_start r (Suc j)" using seg_start_Suc[of j r] by simp
  have b: "seg_start r j < 2 ^ 64" "seg_start r (Suc j) - 1 < 2 ^ 64"
    using T seg_start_le_total[of r j] seg_start_le_total[of r "Suc j"] by linarith+
  have "unat (of_nat (seg_start r j) :: u64) = seg_start r j"
    "unat (of_nat (seg_start r (Suc j) - 1) :: u64) = seg_start r (Suc j) - 1"
    using b by (simp_all only: unat_of_nat) simp_all
  then show ?thesis
    using True pos by (auto simp: seg_file_def word_le_nat_alt simp del: of_nat_diff)
next
  case False
  have "\<not> (-1 \<le> seq)" using s by (metis word_order.extremum_unique)
  then show ?thesis using False seg_start_Suc[of j r] by (auto simp: seg_file_def)
qed

lemma simulates_in_file:
  assumes sim: "simulates n tfa r" and seq: "seq \<noteq> -1" and i: "i < tf_count tfa"
  shows "tracefile_array_seq_in_file tfa i seq = Some True \<longleftrightarrow>
    (\<exists>j < length (segs r). unat i = (unat (file_tail tfa) + j) mod n \<and>
       seg_start r j \<le> unat seq \<and> unat seq < seg_start r (Suc j))"
proof -
  have n: "unat (tf_count tfa) = n" "length (tf tfa) = n" "unat (file_tail tfa) < n" "tf_count tfa \<noteq> 0"
    "length (segs r) \<le> n" and T: "ring_total r < 2 ^ 64 - 1"
    and files: "\<forall>j < n. tf tfa ! ((unat (file_tail tfa) + j) mod n) = seg_file r j"
    using sim by (auto simp: simulates_def)
  have i': "unat i < n" using i n(1) by (simp add: word_less_nat_alt)
  then obtain j where j: "j < n" "(unat (file_tail tfa) + j) mod n = unat i" using ring_index[OF _ n(3)] by blast
  have "tracefile_array_seq_in_file tfa i seq = Some True \<longleftrightarrow>
      tf_seq_tail (seg_file r j) \<le> seq \<and> seq \<le> tf_seq_head (seg_file r j)"
    using n i i' seq j files[THEN spec, of j] by (simp add: tracefile_array_seq_in_file_def tf_at_def)
  also have "\<dots> \<longleftrightarrow> j < length (segs r) \<and> seg_start r j \<le> unat seq \<and> unat seq < seg_start r (Suc j)"
    by (rule in_seg_file[OF T seq])
  also have "\<dots> \<longleftrightarrow> (\<exists>j < length (segs r). unat i = (unat (file_tail tfa) + j) mod n \<and>
       seg_start r j \<le> unat seq \<and> unat seq < seg_start r (Suc j))"
  proof
    assume "\<exists>j < length (segs r). unat i = (unat (file_tail tfa) + j) mod n \<and>
       seg_start r j \<le> unat seq \<and> unat seq < seg_start r (Suc j)"
    then obtain j' where j': "j' < length (segs r)" "unat i = (unat (file_tail tfa) + j') mod n"
      "seg_start r j' \<le> unat seq" "unat seq < seg_start r (Suc j')" by blast
    then have "j = j'" using mod_add_inj[OF j(1), of j' "unat (file_tail tfa)"] j(2) n(5) by simp
    with j' show "j < length (segs r) \<and> seg_start r j \<le> unat seq \<and> unat seq < seg_start r (Suc j)" by simp
  qed (use j in auto)
  finally show ?thesis .
qed

lemma simulates_window:
  assumes sim: "simulates n tfa r" and seq: "seq \<noteq> -1"
  shows "seq_tail tfa \<le> seq \<and> seq \<le> seq_head tfa \<longleftrightarrow> start r \<le> unat seq \<and> unat seq < ring_total r"
proof (cases "ring_total r = 0")
  case True
  have "\<not> (-1 \<le> seq)" using seq by (metis word_order.extremum_unique)
  moreover have "seq_tail tfa = -1" using sim True unfolding simulates_def by presburger
  moreover have "\<not> unat seq < ring_total r" using True by linarith
  ultimately show ?thesis by simp
next
  case False
  have T: "ring_total r < 2 ^ 64 - 1" and h: "seq_head tfa = of_nat (ring_total r) - 1"
    and t: "seq_tail tfa = of_nat (start r)"
    using sim False unfolding simulates_def by auto
  obtain k where "ring_total r = Suc k" using False not0_implies_Suc by blast
  then have "(of_nat (ring_total r) - 1 :: u64) = of_nat (ring_total r - 1)" by (simp only:) simp
  moreover have "unat (of_nat (ring_total r - 1) :: u64) = ring_total r - 1" "unat (of_nat (start r) :: u64) = start r"
    using T by (simp_all only: unat_of_nat) simp_all
  ultimately have "unat (seq_head tfa) = ring_total r - 1" "unat (seq_tail tfa) = start r"
    by (simp_all only: h t)
  then show ?thesis unfolding word_le_nat_alt using False by linarith
qed

lemma simulates_lookup:
  assumes sim: "simulates n tfa r" and seq: "seq \<noteq> -1"
  shows "seq_tail tfa \<le> seq \<and> seq \<le> seq_head tfa \<longleftrightarrow>
      (\<exists>i < tf_count tfa. tracefile_array_seq_in_file tfa i seq = Some True)"
    "\<lbrakk>i < tf_count tfa; j < tf_count tfa; tracefile_array_seq_in_file tfa i seq = Some True;
      tracefile_array_seq_in_file tfa j seq = Some True\<rbrakk> \<Longrightarrow> i = j"
proof -
  have n: "unat (tf_count tfa) = n" "0 < n" "n < 2 ^ 31" using sim by (auto simp: simulates_def)
  show "seq_tail tfa \<le> seq \<and> seq \<le> seq_head tfa \<longleftrightarrow>
      (\<exists>i < tf_count tfa. tracefile_array_seq_in_file tfa i seq = Some True)"
    unfolding simulates_window[OF sim seq]
  proof
    assume "start r \<le> unat seq \<and> unat seq < ring_total r"
    then obtain j where j: "j < length (segs r)" "seg_start r j \<le> unat seq" "unat seq < seg_start r (Suc j)"
      using seg_find[of r "unat seq"] by blast
    let ?k = "(unat (file_tail tfa) + j) mod n"
    have "?k < n" using n by simp
    note \<open>?k < n\<close>
    also have "n < 2 ^ 64" using n(3) by simp
    finally have "?k < 2 ^ 64" .
    then have k: "unat (of_nat ?k :: u64) = ?k" by (simp only: unat_of_nat) simp
    with \<open>?k < n\<close> have "(of_nat ?k :: u64) < tf_count tfa" using n by (simp add: word_less_nat_alt)
    with j k simulates_in_file[OF sim seq this]
    show "\<exists>i < tf_count tfa. tracefile_array_seq_in_file tfa i seq = Some True" by blast
  next
    assume "\<exists>i < tf_count tfa. tracefile_array_seq_in_file tfa i seq = Some True"
    then obtain j where j: "j < length (segs r)" "seg_start r j \<le> unat seq" "unat seq < seg_start r (Suc j)"
      using simulates_in_file[OF sim seq] by blast
    then show "start r \<le> unat seq \<and> unat seq < ring_total r"
      using seg_start_le_total[of r "Suc j"] by (auto simp: seg_start_def)
  qed
  show "i = j" if i: "i < tf_count tfa" and j: "j < tf_count tfa"
      and fi: "tracefile_array_seq_in_file tfa i seq = Some True"
      and fj: "tracefile_array_seq_in_file tfa j seq = Some True"
  proof -
    obtain a b where a: "unat i = (unat (file_tail tfa) + a) mod n" "seg_start r a \<le> unat seq"
        "unat seq < seg_start r (Suc a)"
      and b: "unat j = (unat (file_tail tfa) + b) mod n" "seg_start r b \<le> unat seq"
        "unat seq < seg_start r (Suc b)"
      using simulates_in_file[OF sim seq i] simulates_in_file[OF sim seq j] fi fj by blast
    have "a = b" using seg_unique[OF a(2,3) b(2,3)] .
    then have "unat i = unat j" using a(1) b(1) by simp
    then show "i = j" by (rule unsigned_word_eqI)
  qed
qed

section \<open>Properties\<close>

definition sample_array :: tracefile_array where
  "sample_array = \<lparr>tf = [empty_tracefile, empty_tracefile], tf_count = 2, file_head = 0, file_tail = 0,
     seq_head = -1, seq_tail = -1\<rparr>"


lemma sample_array_created:
  "tracefile_array_create \<lparr>outcomes = [], live = 0\<rparr> 2 = Some (Some sample_array, \<lparr>outcomes = [], live = 2\<rparr>)"
proof -
  have two: "replicate 2 x = [x, x]" for x :: tracefile by (simp add: numeral_2_eq_2)
  show ?thesis by (simp add: tracefile_array_create_def sample_array_def two)
qed





end
