(* ===== verification/Filter_AST.thy ===== *)
theory Filter_AST
  imports LTT_Prelude
begin

text \<open>
  Filter expressions of \<open>src/lib/lttng-ctl/filter\<close>: the syntax tree of \<open>filter-ast.h\<close>, the grammar of
  \<open>filter-parser.y\<close> with the nodes its actions build, and \<open>filter_visitor_set_parent\<close>.

  A tree is a value: the null pointer is the node \<open>NODE_NULL\<close>, the parent and \<open>next\<close> links, which no
  later pass reads, are not represented. The generated scanner and the parser tables are not
  modelled: the grammar is an inductive relation between token sequences and trees, in which the
  tokens of constants carry the value \<open>sscanf\<close> reads from them.
\<close>

datatype op_type =
    AST_OP_UNKNOWN | AST_OP_MUL | AST_OP_DIV | AST_OP_MOD | AST_OP_PLUS | AST_OP_MINUS | AST_OP_RSHIFT
  | AST_OP_LSHIFT | AST_OP_AND | AST_OP_OR | AST_OP_BIN_AND | AST_OP_BIN_OR | AST_OP_BIN_XOR
  | AST_OP_EQ | AST_OP_NE | AST_OP_GT | AST_OP_LT | AST_OP_GE | AST_OP_LE

datatype unary_op_type =
    AST_UNARY_UNKNOWN | AST_UNARY_PLUS | AST_UNARY_MINUS | AST_UNARY_NOT | AST_UNARY_BIN_NOT

datatype ast_link_type = AST_LINK_UNKNOWN | AST_LINK_DOT | AST_LINK_RARROW

text \<open>
  Identifiers carry their \<open>post_op\<close> and \<open>pre_op\<close> links, their name and the node before them in a
  dotted chain. The value of a floating-point constant is its bit pattern: nothing computes with it.
\<close>

datatype filter_node =
    NODE_NULL
  | NODE_UNKNOWN
  | NODE_ROOT filter_node
  | NODE_EXPRESSION filter_expression
  | NODE_OP op_type filter_node filter_node
  | NODE_UNARY_OP unary_op_type filter_node
and filter_expression =
    AST_EXP_UNKNOWN
  | AST_EXP_STRING "byte list"
  | AST_EXP_CONSTANT u64
  | AST_EXP_FLOAT_CONSTANT u64
  | AST_EXP_IDENTIFIER ast_link_type ast_link_type "byte list" filter_node
  | AST_EXP_GLOBAL_IDENTIFIER ast_link_type ast_link_type "byte list" filter_node
  | AST_EXP_NESTED filter_node

section \<open>Grammar\<close>

datatype token =
    T_IDENTIFIER "byte list" | T_GLOBAL_IDENTIFIER "byte list" | T_CONSTANT u64 | T_FLOAT_CONSTANT u64
  | T_STRING_LITERAL_START | T_DQUOTE | T_CHARACTER_CONSTANT_START | T_SQUOTE | T_CHAR byte | T_ESCSEQ
  | T_LPAREN | T_RPAREN | T_DOT | T_RARROW | T_STAR | T_PLUS | T_MINUS | T_DIV_OP | T_MOD_OP
  | T_LEFT_OP | T_RIGHT_OP | T_EQ_OP | T_NE_OP | T_LT_OP | T_GT_OP | T_LE_OP | T_GE_OP
  | T_AND_BIN | T_XOR_BIN | T_OR_BIN | T_NOT_BIN | T_AND_OP | T_OR_OP | T_NOT_OP | T_ERROR

text \<open>
  The left-associative levels of the grammar, from \<open>multiplicative_expression\<close> (0) to
  \<open>logical_or_expression\<close> (9), with the operators of each level.
\<close>

fun binary_operators :: "nat \<Rightarrow> (token \<times> op_type) list" where
  "binary_operators n =
     (if n = 0 then [(T_STAR, AST_OP_MUL), (T_DIV_OP, AST_OP_DIV), (T_MOD_OP, AST_OP_MOD)]
      else if n = 1 then [(T_PLUS, AST_OP_PLUS), (T_MINUS, AST_OP_MINUS)]
      else if n = 2 then [(T_LEFT_OP, AST_OP_LSHIFT), (T_RIGHT_OP, AST_OP_RSHIFT)]
      else if n = 3 then [(T_LT_OP, AST_OP_LT), (T_GT_OP, AST_OP_GT), (T_LE_OP, AST_OP_LE), (T_GE_OP, AST_OP_GE)]
      else if n = 4 then [(T_EQ_OP, AST_OP_EQ), (T_NE_OP, AST_OP_NE)]
      else if n = 5 then [(T_AND_BIN, AST_OP_BIN_AND)]
      else if n = 6 then [(T_XOR_BIN, AST_OP_BIN_XOR)]
      else if n = 7 then [(T_OR_BIN, AST_OP_BIN_OR)]
      else if n = 8 then [(T_AND_OP, AST_OP_AND)]
      else if n = 9 then [(T_OR_OP, AST_OP_OR)]
      else [])"

fun unary_operator :: "token \<Rightarrow> unary_op_type option" where
  "unary_operator T_PLUS = Some AST_UNARY_PLUS"
| "unary_operator T_MINUS = Some AST_UNARY_MINUS"
| "unary_operator T_NOT_OP = Some AST_UNARY_NOT"
| "unary_operator T_NOT_BIN = Some AST_UNARY_BIN_NOT"
| "unary_operator _ = None"

inductive primary_expression :: "token list \<Rightarrow> filter_node \<Rightarrow> bool"
  and postfix_expression :: "token list \<Rightarrow> filter_node \<Rightarrow> bool"
  and unary_expression :: "token list \<Rightarrow> filter_node \<Rightarrow> bool"
  and binary_expression :: "nat \<Rightarrow> token list \<Rightarrow> filter_node \<Rightarrow> bool"
where
  primary_identifier: "primary_expression [T_IDENTIFIER s]
      (NODE_EXPRESSION (AST_EXP_IDENTIFIER AST_LINK_UNKNOWN AST_LINK_UNKNOWN s NODE_NULL))"
| primary_global_identifier: "primary_expression [T_GLOBAL_IDENTIFIER s]
      (NODE_EXPRESSION (AST_EXP_GLOBAL_IDENTIFIER AST_LINK_UNKNOWN AST_LINK_UNKNOWN s NODE_NULL))"
| primary_constant: "primary_expression [T_CONSTANT v] (NODE_EXPRESSION (AST_EXP_CONSTANT v))"
| primary_float_constant: "primary_expression [T_FLOAT_CONSTANT v] (NODE_EXPRESSION (AST_EXP_FLOAT_CONSTANT v))"
| primary_string_literal: "primary_expression (T_STRING_LITERAL_START # map T_CHAR s @ [T_DQUOTE])
      (NODE_EXPRESSION (AST_EXP_STRING s))"
| primary_character_constant: "s \<noteq> [] \<Longrightarrow> primary_expression (T_CHARACTER_CONSTANT_START # map T_CHAR s @ [T_SQUOTE])
      (NODE_EXPRESSION (AST_EXP_STRING s))"
| primary_parentheses: "binary_expression 9 ts n \<Longrightarrow> primary_expression (T_LPAREN # ts @ [T_RPAREN])
      (NODE_EXPRESSION (AST_EXP_NESTED n))"
| postfix_primary: "primary_expression ts n \<Longrightarrow> postfix_expression ts n"
| postfix_dot: "postfix_expression ts n \<Longrightarrow> postfix_expression (ts @ [T_DOT, T_IDENTIFIER s])
      (NODE_EXPRESSION (AST_EXP_IDENTIFIER AST_LINK_DOT AST_LINK_UNKNOWN s n))"
| postfix_rarrow: "postfix_expression ts n \<Longrightarrow> postfix_expression (ts @ [T_RARROW, T_IDENTIFIER s])
      (NODE_EXPRESSION (AST_EXP_IDENTIFIER AST_LINK_RARROW AST_LINK_UNKNOWN s n))"
| unary_postfix: "postfix_expression ts n \<Longrightarrow> unary_expression ts n"
| unary_op: "unary_operator t = Some u \<Longrightarrow> unary_expression ts n \<Longrightarrow> unary_expression (t # ts) (NODE_UNARY_OP u n)"
| binary_unary: "unary_expression ts n \<Longrightarrow> binary_expression 0 ts n"
| binary_level: "binary_expression k ts n \<Longrightarrow> k < 9 \<Longrightarrow> binary_expression (Suc k) ts n"
| multiplicative: "binary_expression 0 ts n \<Longrightarrow> unary_expression us m \<Longrightarrow>
      (t, ty) \<in> set (binary_operators 0) \<Longrightarrow> binary_expression 0 (ts @ t # us) (NODE_OP ty n m)"
| binary_op: "binary_expression (Suc k) ts n \<Longrightarrow> binary_expression k us m \<Longrightarrow>
      (t, ty) \<in> set (binary_operators (Suc k)) \<Longrightarrow> binary_expression (Suc k) (ts @ t # us) (NODE_OP ty n m)"

definition translation_unit :: "token list \<Rightarrow> filter_node \<Rightarrow> bool" where
  "translation_unit ts root \<longleftrightarrow> (\<exists>n. binary_expression 9 ts n \<and> root = NODE_ROOT n)"

section \<open>Parents\<close>

abbreviation EINVAL :: int where "EINVAL \<equiv> 22"
abbreviation ENOMEM :: int where "ENOMEM \<equiv> 12"

text \<open>
  The loop over a dotted chain: it moves to the first identifier and gives every identifier the
  operator that follows it. The result is an error code or the first identifier.
\<close>

fun first_link :: "filter_expression \<Rightarrow> int + filter_expression" where
  "first_link (AST_EXP_IDENTIFIER post_op pre_op s prev) =
     (case prev of
        NODE_NULL \<Rightarrow> Inr (AST_EXP_IDENTIFIER post_op pre_op s prev)
      | NODE_EXPRESSION (AST_EXP_IDENTIFIER post_op' _ s' prev') \<Rightarrow>
          first_link (AST_EXP_IDENTIFIER post_op' post_op s' prev')
      | NODE_EXPRESSION (AST_EXP_GLOBAL_IDENTIFIER post_op' _ s' prev') \<Rightarrow>
          first_link (AST_EXP_GLOBAL_IDENTIFIER post_op' post_op s' prev')
      | _ \<Rightarrow> Inl (- EINVAL))"
| "first_link (AST_EXP_GLOBAL_IDENTIFIER post_op pre_op s prev) =
     (case prev of
        NODE_NULL \<Rightarrow> Inr (AST_EXP_GLOBAL_IDENTIFIER post_op pre_op s prev)
      | NODE_EXPRESSION (AST_EXP_IDENTIFIER post_op' _ s' prev') \<Rightarrow>
          first_link (AST_EXP_IDENTIFIER post_op' post_op s' prev')
      | NODE_EXPRESSION (AST_EXP_GLOBAL_IDENTIFIER post_op' _ s' prev') \<Rightarrow>
          first_link (AST_EXP_GLOBAL_IDENTIFIER post_op' post_op s' prev')
      | _ \<Rightarrow> Inl (- EINVAL))"
| "first_link e = Inr e"

text \<open>
  \<open>update_child\<close> on the value model: the parent, when there is one, gets the new child.
\<close>

definition update_child :: "bool \<Rightarrow> filter_node \<Rightarrow> int + filter_node" where
  "update_child parent new_child = (if \<not> parent then Inl (- EINVAL) else Inr new_child)"

text \<open>
  \<open>parent\<close> tells whether the node has a parent; the result is an error code or the node that the
  parent links to.
\<close>

fun recursive_visit_set_parent :: "filter_node \<Rightarrow> bool \<Rightarrow> (int + filter_node) run" where
  "recursive_visit_set_parent NODE_NULL parent = Some (Inl (- EINVAL))"
| "recursive_visit_set_parent NODE_UNKNOWN parent = Some (Inl (- EINVAL))"
| "recursive_visit_set_parent (NODE_ROOT child) parent = do {
     c_assert (\<not> parent);
     r \<leftarrow> recursive_visit_set_parent child True;
     Some (case r of Inl e \<Rightarrow> Inl e | Inr child \<Rightarrow> Inr (NODE_ROOT child))
   }"
| "recursive_visit_set_parent (NODE_EXPRESSION e) parent =
     (case e of
        AST_EXP_UNKNOWN \<Rightarrow> Some (Inl (- EINVAL))
      | AST_EXP_NESTED child \<Rightarrow> do {
          r \<leftarrow> recursive_visit_set_parent child True;
          Some (case r of Inl e \<Rightarrow> Inl e | Inr child \<Rightarrow> Inr (NODE_EXPRESSION (AST_EXP_NESTED child)))
        }
      | AST_EXP_IDENTIFIER _ _ _ _ \<Rightarrow> Some
          (case first_link e of Inl e \<Rightarrow> Inl e | Inr first \<Rightarrow> update_child parent (NODE_EXPRESSION first))
      | AST_EXP_GLOBAL_IDENTIFIER _ _ _ _ \<Rightarrow> Some
          (case first_link e of Inl e \<Rightarrow> Inl e | Inr first \<Rightarrow> update_child parent (NODE_EXPRESSION first))
      | _ \<Rightarrow> Some (Inr (NODE_EXPRESSION e)))"
| "recursive_visit_set_parent (NODE_OP ty lchild rchild) parent = do {
     l \<leftarrow> recursive_visit_set_parent lchild True;
     case l of
       Inl e \<Rightarrow> Some (Inl e)
     | Inr lchild \<Rightarrow> do {
         r \<leftarrow> recursive_visit_set_parent rchild True;
         Some (case r of Inl e \<Rightarrow> Inl e | Inr rchild \<Rightarrow> Inr (NODE_OP ty lchild rchild))
       }
   }"
| "recursive_visit_set_parent (NODE_UNARY_OP ty child) parent = do {
     r \<leftarrow> recursive_visit_set_parent child True;
     Some (case r of Inl e \<Rightarrow> Inl e | Inr child \<Rightarrow> Inr (NODE_UNARY_OP ty child))
   }"

definition filter_visitor_set_parent :: "filter_node \<Rightarrow> (int + filter_node) run" where
  "filter_visitor_set_parent root = recursive_visit_set_parent root False"

section \<open>Shape of the trees\<close>

text \<open>No root below the root, and, after the parents were set, no null child.\<close>

fun no_root :: "filter_node \<Rightarrow> bool" where
  "no_root (NODE_ROOT n) = False"
| "no_root (NODE_EXPRESSION (AST_EXP_NESTED n)) = no_root n"
| "no_root (NODE_OP ty l r) = (no_root l \<and> no_root r)"
| "no_root (NODE_UNARY_OP ty n) = no_root n"
| "no_root _ = True"

fun complete :: "filter_node \<Rightarrow> bool" where
  "complete (NODE_EXPRESSION e) =
     (case e of
        AST_EXP_UNKNOWN \<Rightarrow> False
      | AST_EXP_NESTED n \<Rightarrow> complete n
      | AST_EXP_IDENTIFIER post_op pre_op s prev \<Rightarrow> prev = NODE_NULL
      | AST_EXP_GLOBAL_IDENTIFIER post_op pre_op s prev \<Rightarrow> prev = NODE_NULL
      | _ \<Rightarrow> True)"
| "complete (NODE_OP ty l r) = (complete l \<and> complete r)"
| "complete (NODE_UNARY_OP ty n) = complete n"
| "complete _ = False"

inductive_cases no_derivation_of_root:
  "primary_expression ts (NODE_ROOT n)" "postfix_expression ts (NODE_ROOT n)"

text \<open>Trees of the grammar have no inner root and no null or unknown operand.\<close>

fun operands_set :: "filter_node \<Rightarrow> bool" where
  "operands_set (NODE_EXPRESSION (AST_EXP_NESTED n)) = operands_set n"
| "operands_set (NODE_EXPRESSION e) = (e \<noteq> AST_EXP_UNKNOWN)"
| "operands_set (NODE_OP ty l r) = (operands_set l \<and> operands_set r)"
| "operands_set (NODE_UNARY_OP ty n) = operands_set n"
| "operands_set _ = False"

lemma grammar_shape:
  "primary_expression ts n \<Longrightarrow> operands_set n"
  "postfix_expression ts n \<Longrightarrow> operands_set n"
  "unary_expression ts n \<Longrightarrow> operands_set n"
  "binary_expression k ts n \<Longrightarrow> operands_set n"
  by (induction rule: primary_expression_postfix_expression_unary_expression_binary_expression.inducts)
    simp_all

definition is_identifier :: "filter_expression \<Rightarrow> bool" where
  "is_identifier e \<longleftrightarrow> (\<exists>p q s n. e = AST_EXP_IDENTIFIER p q s n \<or> e = AST_EXP_GLOBAL_IDENTIFIER p q s n)"

lemma is_identifier_simps:
  "is_identifier (AST_EXP_IDENTIFIER p q s n)" "is_identifier (AST_EXP_GLOBAL_IDENTIFIER p q s n)"
  by (simp_all add: is_identifier_def)

lemma first_link_complete:
  "is_identifier e \<Longrightarrow> first_link e = Inr e' \<Longrightarrow> complete (NODE_EXPRESSION e')"
proof (induction e rule: first_link.induct)
  case (1 post_op pre_op s prev)
  show ?case
  proof (cases prev)
    case (NODE_EXPRESSION e)
    then show ?thesis using 1 by (cases e) (auto simp: is_identifier_def)
  qed (use 1(4) in auto)
next
  case (2 post_op pre_op s prev)
  show ?case
  proof (cases prev)
    case (NODE_EXPRESSION e)
    then show ?thesis using 2 by (cases e) (auto simp: is_identifier_def)
  qed (use 2(4) in auto)
qed (simp_all add: is_identifier_def)

lemma complete_expression:
  "complete (NODE_EXPRESSION (AST_EXP_STRING s))" "complete (NODE_EXPRESSION (AST_EXP_CONSTANT v))"
  "complete (NODE_EXPRESSION (AST_EXP_FLOAT_CONSTANT v))"
  "complete (NODE_EXPRESSION (AST_EXP_NESTED n)) = complete n"
  by simp_all

lemma set_parent_complete:
  "recursive_visit_set_parent n True = Some (Inr n') \<Longrightarrow> complete n'"
  "recursive_visit_set_parent (NODE_EXPRESSION e) True = Some (Inr n') \<Longrightarrow> complete n'"
proof (induction n and e arbitrary: n' and n')
  case (AST_EXP_IDENTIFIER p q s n)
  then show ?case
    by (auto simp: update_child_def simp del: first_link.simps complete.simps(1)
        split: sum.splits intro: first_link_complete[OF is_identifier_simps(1)])
next
  case (AST_EXP_GLOBAL_IDENTIFIER p q s n)
  then show ?case
    by (auto simp: update_child_def simp del: first_link.simps complete.simps(1)
        split: sum.splits intro: first_link_complete[OF is_identifier_simps(2)])
next
  case (NODE_EXPRESSION e)
  then show ?case by simp
qed (auto simp: bind_c_assert complete_expression simp del: complete.simps(1) split: bind_splits sum.splits)

text \<open>Setting the parents never reaches the assertion about the root on a tree without an inner root.\<close>

lemma set_parent_safe:
  "no_root n \<Longrightarrow> recursive_visit_set_parent n True \<noteq> None"
  "no_root (NODE_EXPRESSION e) \<Longrightarrow> recursive_visit_set_parent (NODE_EXPRESSION e) True \<noteq> None"
proof (induction n and e)
  case (NODE_OP ty l r)
  then show ?case by (auto split: sum.splits)
qed (auto split: sum.splits)

lemma operands_no_root: "operands_set n \<Longrightarrow> no_root n"
  by (induction n rule: operands_set.induct) auto

text \<open>Dotted chains that consist of identifiers only.\<close>

fun chain_ok :: "filter_node \<Rightarrow> bool" where
  "chain_ok NODE_NULL = True"
| "chain_ok (NODE_EXPRESSION (AST_EXP_IDENTIFIER p q s n)) = chain_ok n"
| "chain_ok (NODE_EXPRESSION (AST_EXP_GLOBAL_IDENTIFIER p q s n)) = chain_ok n"
| "chain_ok _ = False"

fun links_ok :: "filter_node \<Rightarrow> bool" where
  "links_ok (NODE_EXPRESSION (AST_EXP_IDENTIFIER p q s n)) = chain_ok n"
| "links_ok (NODE_EXPRESSION (AST_EXP_GLOBAL_IDENTIFIER p q s n)) = chain_ok n"
| "links_ok (NODE_EXPRESSION (AST_EXP_NESTED n)) = links_ok n"
| "links_ok (NODE_OP ty l r) = (links_ok l \<and> links_ok r)"
| "links_ok (NODE_UNARY_OP ty n) = links_ok n"
| "links_ok _ = True"

lemma first_link_result:
  "is_identifier e \<Longrightarrow> (if chain_ok (NODE_EXPRESSION e) then \<exists>e'. first_link e = Inr e' else first_link e = Inl (- EINVAL))"
proof (induction e rule: first_link.induct)
  case (1 post_op pre_op s prev)
  show ?case
  proof (cases prev)
    case (NODE_EXPRESSION e)
    then show ?thesis using 1 by (cases e) (auto simp: is_identifier_def)
  qed auto
next
  case (2 post_op pre_op s prev)
  show ?case
  proof (cases prev)
    case (NODE_EXPRESSION e)
    then show ?thesis using 2 by (cases e) (auto simp: is_identifier_def)
  qed auto
qed (simp_all add: is_identifier_def)

lemma set_parent_result:
  "operands_set n \<Longrightarrow> \<exists>r. recursive_visit_set_parent n True = Some r \<and>
     (if links_ok n then \<exists>n'. r = Inr n' else r = Inl (- EINVAL))"
  "operands_set (NODE_EXPRESSION e) \<Longrightarrow> \<exists>r. recursive_visit_set_parent (NODE_EXPRESSION e) True = Some r \<and>
     (if links_ok (NODE_EXPRESSION e) then \<exists>n'. r = Inr n' else r = Inl (- EINVAL))"
proof (induction n and e)
  case (AST_EXP_IDENTIFIER p q s n)
  then show ?case
    using first_link_result[OF is_identifier_simps(1), of p q s n]
    by (auto simp: update_child_def simp del: first_link.simps split: if_splits)
next
  case (AST_EXP_GLOBAL_IDENTIFIER p q s n)
  then show ?case
    using first_link_result[OF is_identifier_simps(2), of p q s n]
    by (auto simp: update_child_def simp del: first_link.simps split: if_splits)
qed (fastforce split: if_splits)+

section \<open>Properties\<close>

text \<open>The tree of \<open>a == 5\<close>.\<close>

definition sample_tree :: filter_node where
  "sample_tree = NODE_ROOT (NODE_OP AST_OP_EQ
     (NODE_EXPRESSION (AST_EXP_IDENTIFIER AST_LINK_UNKNOWN AST_LINK_UNKNOWN [97] NODE_NULL))
     (NODE_EXPRESSION (AST_EXP_CONSTANT 5)))"

lemma sample_unit: "translation_unit [T_IDENTIFIER [97], T_EQ_OP, T_CONSTANT 5] sample_tree"
proof -
  let ?a = "NODE_EXPRESSION (AST_EXP_IDENTIFIER AST_LINK_UNKNOWN AST_LINK_UNKNOWN [97] NODE_NULL)"
  let ?c = "NODE_EXPRESSION (AST_EXP_CONSTANT 5)"
  have up: "unary_expression ts n \<Longrightarrow> k \<le> 9 \<Longrightarrow> binary_expression k ts n" for k ts n
    by (induction k) (auto intro: binary_unary binary_level)
  have lift: "binary_expression j ts n \<Longrightarrow> j + k \<le> 9 \<Longrightarrow> binary_expression (j + k) ts n" for j k ts n
    by (induction k) (auto intro: binary_level)
  have "binary_expression (Suc 3) ([T_IDENTIFIER [97]] @ T_EQ_OP # [T_CONSTANT 5]) (NODE_OP AST_OP_EQ ?a ?c)"
    by (rule binary_op) (auto intro!: up unary_postfix postfix_primary primary_identifier primary_constant)
  then have "binary_expression 9 [T_IDENTIFIER [97], T_EQ_OP, T_CONSTANT 5] (NODE_OP AST_OP_EQ ?a ?c)"
    using lift[of 4 "[T_IDENTIFIER [97], T_EQ_OP, T_CONSTANT 5]" _ 5] by simp
  then show ?thesis by (simp add: translation_unit_def sample_tree_def)
qed



end
