(* ===== verification/String_Utils.thy ===== *)
theory String_Utils
  imports LTT_Prelude
begin

text \<open>
  The string helpers of \<open>src/common/string-utils/string-utils.c\<close>: star globbing patterns,
  unescaping, and the splitting of a string at a delimiter.

  A string that is only read is a byte list without its terminator. Buffers that are written to are
  memory objects, so that an overflow crashes the model; the in-place normalization of a pattern
  works on the object that holds it, with the two positions of the source.
\<close>

abbreviation star :: byte where "star \<equiv> 42"
abbreviation backslash :: byte where "backslash \<equiv> 92"

section \<open>Star globbing patterns\<close>

text \<open>The loop of \<open>strutils_normalize_star_glob_pattern\<close>: read position \<open>p\<close>, write position \<open>np\<close>.\<close>

function normalize_loop :: "mem \<Rightarrow> nat \<Rightarrow> nat \<Rightarrow> bool \<Rightarrow> (mem \<times> nat) run" where
  "normalize_loop m p np got_star =
     (if p < length m then do {
        c \<leftarrow> rd m (int p);
        if c = 0 then Some (m, np)
        else if c = star then
          (if got_star then normalize_loop m (p + 1) np got_star
           else do { m' \<leftarrow> wr_bytes m np [c]; normalize_loop m' (p + 1) (np + 1) True })
        else if c = backslash then do {
          m' \<leftarrow> wr_bytes m np [c];
          d \<leftarrow> rd m' (int (p + 1));
          if d = 0 then Some (m', np + 1)
          else do { m'' \<leftarrow> wr_bytes m' (np + 1) [d]; normalize_loop m'' (p + 2) (np + 2) False }
        }
        else do { m' \<leftarrow> wr_bytes m np [c]; normalize_loop m' (p + 1) (np + 1) False }
      }
      else crash)"
  by pat_completeness auto

termination
  by (relation "measure (\<lambda>(m, p, np, g). length m - p)") (auto dest!: wr_bytes_length)

declare normalize_loop.simps [simp del]

definition strutils_normalize_star_glob_pattern :: "mem \<Rightarrow> nat option \<Rightarrow> mem run" where
  "strutils_normalize_star_glob_pattern m pattern = do {
     pattern \<leftarrow> pattern;
     (m, np) \<leftarrow> normalize_loop m pattern pattern False;
     wr_bytes m np [0]
   }"

text \<open>The pattern type is a set of flags.\<close>

record star_glob_pattern_type_flags =
  flag_pattern :: bool
  flag_end_only :: bool

fun test_glob_loop :: "byte list \<Rightarrow> star_glob_pattern_type_flags" where
  "test_glob_loop [] = \<lparr>flag_pattern = False, flag_end_only = False\<rparr>"
| "test_glob_loop (c # s) =
     (if c = star then \<lparr>flag_pattern = True, flag_end_only = (s = [])\<rparr>
      else if c = backslash then
        (case s of
           [] \<Rightarrow> \<lparr>flag_pattern = False, flag_end_only = False\<rparr>
         | d # s' \<Rightarrow> test_glob_loop s')
      else test_glob_loop s)"

definition strutils_test_glob_pattern :: "byte list option \<Rightarrow> star_glob_pattern_type_flags run" where
  "strutils_test_glob_pattern pattern = map_option test_glob_loop pattern"

definition strutils_is_star_glob_pattern :: "byte list option \<Rightarrow> bool run" where
  "strutils_is_star_glob_pattern pattern = map_option flag_pattern (strutils_test_glob_pattern pattern)"

definition strutils_is_star_at_the_end_only_glob_pattern :: "byte list option \<Rightarrow> bool run" where
  "strutils_is_star_at_the_end_only_glob_pattern pattern =
     map_option flag_end_only (strutils_test_glob_pattern pattern)"

section \<open>Unescaping\<close>

text \<open>The rest of the input, the output buffer and the position in it.\<close>

fun unescape_loop :: "byte \<Rightarrow> byte list \<Rightarrow> mem \<Rightarrow> nat \<Rightarrow> mem run" where
  "unescape_loop only_char [] out at = Some out"
| "unescape_loop only_char (c # s) out at =
     (if c = backslash \<and> (only_char = 0 \<or> hd (s @ [0]) = only_char) then
        (case s of
           [] \<Rightarrow> wr_bytes out at [backslash]
         | d # s' \<Rightarrow> do { out \<leftarrow> wr_bytes out at [d]; unescape_loop only_char s' out (at + 1) })
      else do { out \<leftarrow> wr_bytes out at [c]; unescape_loop only_char s out (at + 1) })"

definition strutils_unescape_string ::
  "heap \<Rightarrow> byte list option \<Rightarrow> byte \<Rightarrow> (mem option \<times> heap) run"
where
  "strutils_unescape_string h input only_char = do {
     input \<leftarrow> input;
     let (ok, h) = zmalloc h;
     if \<not> ok then Some (None, h)
     else do {
       output \<leftarrow> unescape_loop only_char input (replicate (length input + 1) (Some 0)) 0;
       Some (Some output, h)
     }
   }"

section \<open>Splitting\<close>

text \<open>A null-terminated array of strings: the strings before the first null entry.\<close>

fun free_strings :: "mem option list \<Rightarrow> heap \<Rightarrow> heap run" where
  "free_strings [] h = crash"
| "free_strings (None # items) h = Some h"
| "free_strings (Some s # items) h = free_strings items (c_free h)"

definition strutils_free_null_terminated_array_of_strings :: "mem option list option \<Rightarrow> heap \<Rightarrow> heap run" where
  "strutils_free_null_terminated_array_of_strings array h =
     (case array of
        None \<Rightarrow> Some h
      | Some items \<Rightarrow> do { h \<leftarrow> free_strings items h; Some (c_free h) })"

fun strings_len :: "mem option list \<Rightarrow> nat run" where
  "strings_len [] = crash"
| "strings_len (None # items) = Some 0"
| "strings_len (Some s # items) = map_option Suc (strings_len items)"

definition strutils_array_of_strings_len :: "mem option list option \<Rightarrow> nat run" where
  "strutils_array_of_strings_len array = do { items \<leftarrow> array; strings_len items }"

text \<open>
  First pass: \<open>s\<close> and \<open>prev\<close> (the source's \<open>last\<close>) are positions in the input. The result is the number of substrings and
  the length of the longest one.
\<close>

fun count_loop :: "bool \<Rightarrow> byte \<Rightarrow> byte list \<Rightarrow> int \<Rightarrow> int \<Rightarrow> nat \<Rightarrow> nat \<Rightarrow> nat \<times> nat" where
  "count_loop escape_delim delim [] s prev n longest =
     (n, if nat (s - prev - 1) > longest then nat (s - prev - 1) else longest)"
| "count_loop escape_delim delim (c # cs) s prev n longest =
     (if escape_delim \<and> c = backslash then
        (case cs of
           [] \<Rightarrow> count_loop escape_delim delim [] (s + 1) prev n longest
         | d # cs' \<Rightarrow> count_loop escape_delim delim cs' (s + 2) prev n longest)
      else if c = delim then
        count_loop escape_delim delim cs (s + 1) s (n + 1)
          (if nat (s - prev - 1) > longest then nat (s - prev - 1) else longest)
      else count_loop escape_delim delim cs (s + 1) prev n longest)"

text \<open>
  Copy of one substring into \<open>buf\<close> at \<open>d\<close>. The result is the buffer and what is left of the input
  from the delimiter or the terminator on.
\<close>

fun copy_loop :: "bool \<Rightarrow> byte \<Rightarrow> byte list \<Rightarrow> mem \<Rightarrow> nat \<Rightarrow> (mem \<times> byte list) run" where
  "copy_loop escape_delim delim [] buf d = Some (buf, [])"
| "copy_loop escape_delim delim (c # cs) buf d =
     (if escape_delim \<and> c = backslash then
        (case cs of
           [] \<Rightarrow> do { buf \<leftarrow> wr_bytes buf d [c]; Some (buf, []) }
         | e # cs' \<Rightarrow>
             if e = delim then do {
               buf \<leftarrow> wr_bytes buf d [e];
               copy_loop escape_delim delim cs' buf (d + 1)
             }
             else do {
               buf \<leftarrow> wr_bytes buf d [c];
               buf \<leftarrow> wr_bytes buf (d + 1) [e];
               copy_loop escape_delim delim cs' buf (d + 2)
             })
      else if c = delim then Some (buf, c # cs)
      else do { buf \<leftarrow> wr_bytes buf d [c]; copy_loop escape_delim delim cs buf (d + 1) })"

text \<open>
  Second pass: \<open>k\<close> substrings are left to copy. The input position is what is left of the input, or
  \<open>None\<close> once it is past the terminator. The result is the array, in which the entries that were not
  reached are null, and whether an allocation failed.
\<close>

fun split_loop ::
  "bool \<Rightarrow> byte \<Rightarrow> nat \<Rightarrow> nat \<Rightarrow> byte list option \<Rightarrow> heap \<Rightarrow> (bool \<times> mem option list \<times> heap) run"
where
  "split_loop escape_delim delim longest 0 s h = Some (True, [None], h)"
| "split_loop escape_delim delim longest (Suc k) s h =
     (let (ok, h) = zmalloc h in
      if \<not> ok then Some (False, replicate (k + 2) None, h)
      else do {
        s \<leftarrow> s;
        (buf, rest) \<leftarrow> copy_loop escape_delim delim s (replicate (longest + 1) (Some 0)) 0;
        (ok, items, h) \<leftarrow> split_loop escape_delim delim longest k
            (case rest of [] \<Rightarrow> None | _ # s \<Rightarrow> Some s) h;
        Some (ok, Some buf # items, h)
      })"

definition strutils_split ::
  "heap \<Rightarrow> byte list option \<Rightarrow> byte \<Rightarrow> bool \<Rightarrow> (mem option list option \<times> heap) run"
where
  "strutils_split h input delim escape_delim = do {
     input \<leftarrow> input;
     c_assert (\<not> (escape_delim \<and> delim = backslash));
     c_assert (delim \<noteq> 0);
     let (number_of_substrings, longest_substring_len) = count_loop escape_delim delim input 0 (-1) 1 0;
     let (ok, h) = zmalloc h;
     if \<not> ok then do {
       h \<leftarrow> strutils_free_null_terminated_array_of_strings None h;
       Some (None, h)
     }
     else do {
       (ok, substrings, h) \<leftarrow> split_loop escape_delim delim longest_substring_len number_of_substrings (Some input) h;
       if \<not> ok then do {
         h \<leftarrow> strutils_free_null_terminated_array_of_strings (Some substrings) h;
         Some (None, h)
       }
       else Some (Some substrings, h)
     }
   }"

section \<open>Patterns as token lists\<close>

text \<open>
  What a star globbing pattern means: an unescaped star stands for any string, an escaped character
  and any other character for itself.
\<close>

datatype glob_token = Any | Lit byte

fun glob_tokens :: "byte list \<Rightarrow> glob_token list" where
  "glob_tokens [] = []"
| "glob_tokens (c # s) =
     (if c = star then Any # glob_tokens s
      else if c = backslash then (case s of [] \<Rightarrow> [Lit c] | d # s' \<Rightarrow> Lit d # glob_tokens s')
      else Lit c # glob_tokens s)"

fun glob_match :: "glob_token list \<Rightarrow> byte list \<Rightarrow> bool" where
  "glob_match [] t = (t = [])"
| "glob_match (Lit c # p) t = (case t of [] \<Rightarrow> False | d # t' \<Rightarrow> d = c \<and> glob_match p t')"
| "glob_match (Any # p) [] = glob_match p []"
| "glob_match (Any # p) (d # t) = (glob_match p (d # t) \<or> glob_match (Any # p) t)"

fun crush :: "bool \<Rightarrow> byte list \<Rightarrow> byte list" where
  "crush g [] = []"
| "crush g (c # s) =
     (if c = star then (if g then crush g s else c # crush True s)
      else if c = backslash then (case s of [] \<Rightarrow> [c] | d # s' \<Rightarrow> c # d # crush False s')
      else c # crush False s)"

fun crush_tokens :: "bool \<Rightarrow> glob_token list \<Rightarrow> glob_token list" where
  "crush_tokens g [] = []"
| "crush_tokens g (Any # ts) = (if g then crush_tokens g ts else Any # crush_tokens True ts)"
| "crush_tokens g (Lit c # ts) = Lit c # crush_tokens False ts"

fun adjacent_stars :: "glob_token list \<Rightarrow> bool" where
  "adjacent_stars (Any # Any # ts) = True"
| "adjacent_stars (t # ts) = adjacent_stars ts"
| "adjacent_stars [] = False"

lemma glob_tokens_crush: "glob_tokens (crush g s) = crush_tokens g (glob_tokens s)"
  by (induction g s rule: crush.induct) (auto split: list.splits)

lemma glob_match_Any_cong:
  "(\<And>t. glob_match p t = glob_match q t) \<Longrightarrow> glob_match (Any # p) t = glob_match (Any # q) t"
  by (induction t) simp_all

lemma glob_match_Any_Any: "glob_match (Any # Any # p) t = glob_match (Any # p) t"
  by (induction t) simp_all

lemma glob_match_crush_tokens:
  "glob_match (crush_tokens False ts) t = glob_match ts t"
  "glob_match (Any # crush_tokens True ts) t = glob_match (Any # ts) t"
proof (induction ts arbitrary: t)
  case (Cons a ts)
  show "glob_match (crush_tokens False (a # ts)) t = glob_match (a # ts) t" for t
    using Cons by (cases a) (simp_all split: list.splits)
  show "glob_match (Any # crush_tokens True (a # ts)) t = glob_match (Any # a # ts) t" for t
  proof (cases a)
    case Any
    then show ?thesis using Cons.IH(2) by (simp add: glob_match_Any_Any)
  next
    case (Lit c)
    have "glob_match (Lit c # crush_tokens False ts) t = glob_match (Lit c # ts) t" for t
      using Cons.IH(1) by (simp split: list.splits)
    from glob_match_Any_cong[OF this] Lit show ?thesis by simp
  qed
qed simp_all

lemma crush_tokens_no_adjacent:
  "\<not> adjacent_stars (crush_tokens g ts) \<and> (g \<longrightarrow> \<not> adjacent_stars (Any # crush_tokens g ts))"
  by (induction g ts rule: crush_tokens.induct) auto

lemma crush_idem: "crush g (crush g s) = crush g s \<and> crush False (crush g s) = crush g s"
proof (induction g s rule: crush.induct)
  case (2 g c s)
  then show ?case by (cases s) auto
qed simp

lemma crush_length: "length (crush g s) \<le> length s"
proof (induction g s rule: crush.induct)
  case (2 g c s)
  then show ?case by (cases s) auto
qed simp

lemma crush_no_nul: "0 \<notin> set s \<Longrightarrow> 0 \<notin> set (crush g s)"
proof (induction g s rule: crush.induct)
  case (2 g c s)
  then show ?case by (auto split: list.splits)
qed simp

section \<open>Normalization in place\<close>

lemma rd_append [simp]: "n = int (length a) \<Longrightarrow> rd (a @ x # r) n = x"
  by (simp add: rd_def)

lemma wr_byte_before: "i < length b \<Longrightarrow> wr_bytes (b @ r) i [c] = Some (b[i := Some c] @ r)"
  by (simp add: wr_bytes_split upd_conv_take_nth_drop)

text \<open>
  What the loop gives when \<open>a\<close> precedes the read position, \<open>n\<close> characters, the terminator and \<open>q\<close>
  follow it, the first \<open>np\<close> cells are final and \<open>out\<close> is written after them.
\<close>

definition crushed :: "mem \<Rightarrow> nat \<Rightarrow> byte list \<Rightarrow> nat \<Rightarrow> mem \<Rightarrow> (mem \<times> nat) run \<Rightarrow> bool" where
  "crushed a np out n q r \<longleftrightarrow> (\<exists>m'. r = Some (m', np + length out) \<and>
     length m' = length a + n + 1 + length q \<and>
     take (np + length out) m' = take np a @ map Some out \<and> drop (length a + n) m' = Some 0 # q)"

lemma crushed_done: "np \<le> length a \<Longrightarrow> crushed a np [] 0 q (Some (a @ Some 0 # q, np))"
  by (simp add: crushed_def)

lemma crushed_write:
  assumes "np \<le> length a" "crushed ((a @ [Some c])[np := Some c]) (Suc np) out n q r"
  shows "crushed a np (c # out) (Suc n) q r"
proof -
  have "take (Suc np) ((a @ [Some c])[np := Some c]) = take np a @ [Some c]"
    using assms(1) by (simp add: take_Suc_conv_app_nth take_update_cancel nth_append)
  with assms(2) show ?thesis unfolding crushed_def by auto
qed

lemma crushed_skip: "np \<le> length a \<Longrightarrow> crushed (a @ [x]) np out n q r \<Longrightarrow> crushed a np out (Suc n) q r"
  by (auto simp: crushed_def)

lemma loop_write: "np \<le> length a \<Longrightarrow>
    wr_bytes (a @ Some c # r) np [c] = Some ((a @ [Some c])[np := Some c] @ r)"
  using wr_byte_before[of np "a @ [Some c]" r c] by simp

lemma normalize_loop_crushed:
  "0 \<notin> set s \<Longrightarrow> np \<le> length a \<Longrightarrow>
    crushed a np (crush g s) (length s) q (normalize_loop (a @ map Some s @ Some 0 # q) (length a) np g)"
proof (induction g s arbitrary: a np rule: crush.induct)
  case (1 g)
  then show ?case by (subst normalize_loop.simps) (simp add: crushed_done)
next
  case (2 g c s)
  let ?a = "(a @ [Some c])[np := Some c]"
  let ?r = "normalize_loop (a @ map Some (c # s) @ Some 0 # q) (length a) np g"
  have c: "c \<noteq> 0" and s: "0 \<notin> set s" and np: "np \<le> length a" using 2 by auto
  consider "c = star" "g" | "c = star" "\<not> g" | "c = backslash" | "c \<noteq> star" "c \<noteq> backslash" by blast
  then show ?case
  proof cases
    case 1
    have "?r = normalize_loop ((a @ [Some c]) @ map Some s @ Some 0 # q) (length (a @ [Some c])) np g"
      using 1 c by (subst normalize_loop.simps) simp
    with 2(1)[OF 1 s, of np "a @ [Some c]"] np 1 show ?thesis by (auto intro: crushed_skip)
  next
    case star: 2
    have "?r = normalize_loop (?a @ map Some s @ Some 0 # q) (length ?a) (Suc np) True"
      using star c np by (subst normalize_loop.simps) (simp add: loop_write)
    with 2(2)[OF star s, of "Suc np" ?a] np star show ?thesis by (auto intro: crushed_write)
  next
    case esc: 3
    show ?thesis
    proof (cases s)
      case Nil
      have "?r = Some (?a @ Some 0 # q, Suc np)"
        using Nil esc np by (subst normalize_loop.simps) (simp add: loop_write)
      with np esc Nil show ?thesis by (auto intro!: crushed_write crushed_done)
    next
      case (Cons d s')
      let ?b = "(?a @ [Some d])[Suc np := Some d]"
      have d: "d \<noteq> 0" "0 \<notin> set s'" using s Cons by auto
      have "?r = normalize_loop (?b @ map Some s' @ Some 0 # q) (length ?b) (Suc (Suc np)) False"
        using Cons esc np d
        by (subst normalize_loop.simps) (simp add: loop_write loop_write[of "Suc np" ?a] del: append_assoc)
      with 2(3)[of d s' "Suc (Suc np)" ?b] esc np Cons d show ?thesis by (auto intro!: crushed_write)
    qed
  next
    case other: 4
    have "?r = normalize_loop (?a @ map Some s @ Some 0 # q) (length ?a) (Suc np) False"
      using other c np by (subst normalize_loop.simps) (simp add: loop_write)
    with 2(4)[OF other s, of "Suc np" ?a] np other show ?thesis by (auto intro: crushed_write)
  qed
qed

lemma normalize_string:
  assumes "c_string_at m p = Some s"
  shows "\<exists>m'. strutils_normalize_star_glob_pattern m (Some p) = Some m' \<and> length m' = length m \<and>
    c_string_at m' p = Some (crush False s) \<and> take p m' = take p m \<and>
    drop (p + length s + 1) m' = drop (p + length s + 1) m"
proof -
  let ?n = "length (crush False s)"
  have s0: "0 \<notin> set s" using assms by (auto simp: c_string_at_def dest: strz_no_nul)
  obtain q where q: "drop p m = map Some s @ Some 0 # q"
    using assms strz_prefix by (auto simp: c_string_at_def)
  have lp: "p < length m" using q by (metis append_is_Nil_conv drop_eq_Nil2 leI list.distinct(1))
  have m: "m = take p m @ map Some s @ Some 0 # q" using q by (metis append_take_drop_id)
  have "crushed (take p m) p (crush False s) (length s) q (normalize_loop m p p False)"
    using normalize_loop_crushed[OF s0, of p "take p m" False q] lp m by simp
  then obtain m1 where m1: "normalize_loop m p p False = Some (m1, p + ?n)"
    "length m1 = p + length s + 1 + length q"
    "take (p + ?n) m1 = take p m @ map Some (crush False s)" "drop (p + length s) m1 = Some 0 # q"
    using lp unfolding crushed_def by auto
  have n: "?n \<le> length s" by (rule crush_length)
  have w: "wr_bytes m1 (p + ?n) [0] = Some (take (p + ?n) m1 @ Some 0 # drop (p + ?n + 1) m1)"
    using n m1(2) by (simp add: wr_bytes_split)
  have "drop (p + length s + 1) m1 = q" using m1(4) by (metis drop_drop add.commute drop0 drop_Suc_Cons One_nat_def)
  moreover have "drop (p + length s + 1) m = q" using q by (metis (no_types) add.assoc add.commute append_Nil drop_Suc_Cons drop0 drop_append drop_drop diff_self_eq_0 length_map One_nat_def drop_all le_refl plus_1_eq_Suc)
  moreover from calculation(1) have "drop (Suc (length s + p)) m1 = q" by (simp add: add.commute)
  moreover have "length m = p + length s + 1 + length q" using arg_cong[OF q, of length] lp by simp
  ultimately show ?thesis
    using m1 w n lp crush_no_nul[OF s0, of False]
    by (simp add: strutils_normalize_star_glob_pattern_def c_string_at_def Suc_diff_le)
qed

section \<open>Classification and unescaping\<close>

lemma is_pattern_tokens: "flag_pattern (test_glob_loop s) \<longleftrightarrow> Any \<in> set (glob_tokens s)"
  by (induction s rule: test_glob_loop.induct) (auto split: list.splits)

lemma end_only_tokens:
  "flag_end_only (test_glob_loop s) \<longleftrightarrow> (\<exists>u. glob_tokens s = map Lit u @ [Any])"
proof (induction s rule: test_glob_loop.induct)
  case 1
  then show ?case by simp
next
  case (2 c s)
  have Lit: "(\<exists>u. Lit x # ts = map Lit u @ [Any]) \<longleftrightarrow> (\<exists>u. ts = map Lit u @ [Any])" for x ts
    by (auto simp: Cons_eq_append_conv Cons_eq_map_conv)
  have Any: "(\<exists>u. Any # ts = map Lit u @ [Any]) \<longleftrightarrow> ts = []" for ts
    by (auto simp: Cons_eq_append_conv Cons_eq_map_conv)
  have "(glob_tokens s = []) = (s = [])" by (cases s) (auto split: list.splits)
  with 2 show ?case by (cases s) (auto simp: Lit Any)
qed

lemma literal_tokens: "Any \<notin> set ts \<Longrightarrow> \<exists>u. ts = map Lit u"
proof (induction ts)
  case (Cons t ts)
  then obtain c u where "t = Lit c" "ts = map Lit u" by (cases t) auto
  then have "t # ts = map Lit (c # u)" by simp
  then show ?case ..
qed simp

lemma glob_match_literal: "glob_match (map Lit u @ ts) t \<longleftrightarrow> (\<exists>r. t = u @ r \<and> glob_match ts r)"
  by (induction u arbitrary: t) (auto split: list.splits)

lemma glob_match_Any: "glob_match [Any] t"
  by (induction t) simp_all

fun unescaped :: "byte \<Rightarrow> byte list \<Rightarrow> byte list" where
  "unescaped only_char [] = []"
| "unescaped only_char (c # s) =
     (if c = backslash \<and> (only_char = 0 \<or> hd (s @ [0]) = only_char) then
        (case s of [] \<Rightarrow> [c] | d # s' \<Rightarrow> d # unescaped only_char s')
      else c # unescaped only_char s)"

lemma unescaped_length: "length (unescaped k s) \<le> length s"
proof (induction k s rule: unescaped.induct)
  case (2 k c s)
  then show ?case by (cases s) auto
qed simp

lemma unescaped_no_nul: "0 \<notin> set s \<Longrightarrow> 0 \<notin> set (unescaped k s)"
proof (induction k s rule: unescaped.induct)
  case (2 k c s)
  then show ?case by (auto split: list.splits)
qed simp

lemma literal_tokens_unescaped: "Any \<notin> set (glob_tokens s) \<Longrightarrow> glob_tokens s = map Lit (unescaped 0 s)"
proof (induction s rule: glob_tokens.induct)
  case (2 c s)
  then show ?case by (cases s) (auto split: if_splits)
qed simp

lemma end_only_unescaped:
  "flag_end_only (test_glob_loop s) \<Longrightarrow> glob_tokens s = map Lit (unescaped 0 (butlast s)) @ [Any]"
proof (induction s rule: test_glob_loop.induct)
  case (2 c s)
  show ?case
  proof (cases s)
    case Nil
    then show ?thesis using 2(3) by (simp split: if_splits)
  next
    case (Cons d s')
    consider "c = backslash" | "c \<noteq> star" "c \<noteq> backslash" using 2(3) Cons by fastforce
    then show ?thesis
    proof cases
      case 1
      then have "flag_end_only (test_glob_loop s')" using 2(3) Cons by simp
      moreover from this have "s' \<noteq> []" by auto
      ultimately show ?thesis using 2(1)[OF _ _ Cons] 1 Cons by simp
    next
      case plain: 2
      then have "flag_end_only (test_glob_loop s)" using 2(3) by simp
      from 2(2)[OF plain this] plain Cons show ?thesis by simp
    qed
  qed
qed simp

text \<open>A zeroed buffer filled from its start.\<close>

abbreviation filled :: "byte list \<Rightarrow> nat \<Rightarrow> mem" where
  "filled w k \<equiv> map Some w @ replicate k (Some 0)"

lemma wr_filled: "0 < k \<Longrightarrow> wr_bytes (filled w k) (length w) [c] = Some (filled (w @ [c]) (k - 1))"
  by (cases k) (simp_all add: wr_bytes_split)

lemma unescape_loop_filled:
  "length (unescaped k s) \<le> n \<Longrightarrow>
    unescape_loop k s (filled w n) (length w) = Some (filled (w @ unescaped k s) (n - length (unescaped k s)))"
proof (induction k s arbitrary: w n rule: unescaped.induct)
  case (2 k c s)
  have wr: "wr_bytes (filled w n) (length w) [x] = Some (filled (w @ [x]) (n - 1))" for x
    by (rule wr_filled) (use 2(3) in \<open>auto split: if_splits list.splits\<close>)
  show ?case
  proof (cases "c = backslash \<and> (k = 0 \<or> hd (s @ [0]) = k)")
    case esc: True
    show ?thesis
    proof (cases s)
      case Nil
      then show ?thesis using esc wr[of c] by simp
    next
      case (Cons d s')
      with 2(3) esc have "length (unescaped k s') \<le> n - 1" by simp
      from 2(1)[OF esc Cons this, of "w @ [d]"] show ?thesis using Cons esc wr[of d] by simp
    qed
  next
    case plain: False
    with 2(3) have "length (unescaped k s) \<le> n - 1" by (simp split: if_splits)
    from 2(2)[OF plain this, of "w @ [c]"] show ?thesis
      unfolding unescaped.simps unescape_loop.simps if_not_P[OF plain] using wr[of c] by simp
  qed
qed simp

lemma unescape_string:
  assumes "0 \<notin> set s"
  shows "\<exists>r h'. strutils_unescape_string h (Some s) k = Some (r, h') \<and>
    (case r of None \<Rightarrow> live h' = live h \<and> outcomes h \<noteq> []
     | Some out \<Rightarrow> live h' = live h + 1 \<and> length out = length s + 1 \<and> strz out = Some (unescaped k s))"
proof (cases "zmalloc h")
  case (Pair ok h')
  have l: "length (unescaped k s) \<le> length s" by (rule unescaped_length)
  then have "unescape_loop k s (filled [] (length s + 1)) (length []) =
      Some (filled (unescaped k s) (length s + 1 - length (unescaped k s)))"
    using unescape_loop_filled[of k s "length s + 1" "[]"] by simp
  with Pair zmalloc_live[OF Pair] unescaped_no_nul[OF assms, of k] l show ?thesis
    by (cases ok) (auto simp: strutils_unescape_string_def Suc_diff_le)
qed

section \<open>Splitting\<close>

text \<open>The substrings, as the comment of \<open>strutils_split\<close> describes them.\<close>

fun push :: "byte list \<Rightarrow> byte list list \<Rightarrow> byte list list" where
  "push w [] = [w]"
| "push w (p # ps) = (w @ p) # ps"

fun pieces :: "bool \<Rightarrow> byte \<Rightarrow> byte list \<Rightarrow> byte list list" where
  "pieces e d [] = [[]]"
| "pieces e d (c # s) =
     (if e \<and> c = backslash then
        (case s of
           [] \<Rightarrow> [[c]]
         | x # s' \<Rightarrow> push (if x = d then [x] else [c, x]) (pieces e d s'))
      else if c = d then [] # pieces e d s
      else push [c] (pieces e d s))"

lemma pieces_not_Nil [simp]: "pieces e d s \<noteq> []"
proof -
  have "push w ps \<noteq> []" for w ps by (cases ps) simp_all
  then show ?thesis by (cases s) (auto split: list.splits)
qed

lemma push_simps:
  "ps \<noteq> [] \<Longrightarrow> hd (push w ps) = w @ hd ps" "ps \<noteq> [] \<Longrightarrow> tl (push w ps) = tl ps"
  "ps \<noteq> [] \<Longrightarrow> length (push w ps) = length ps"
  by (cases ps; simp)+

text \<open>
  The first pass counts the substrings and bounds the length of each: \<open>s - prev - 1\<close> characters of the
  current substring were passed.
\<close>

lemma count_loop_pieces:
  assumes "prev < s" "count_loop e d cs s prev n L = (n', L')"
  shows "n' + 1 = n + length (pieces e d cs) \<and> L \<le> L' \<and>
    nat (s - prev - 1) + length (hd (pieces e d cs)) \<le> L' \<and>
    (\<forall>p \<in> set (tl (pieces e d cs)). length p \<le> L')"
  using assms
proof (induction e d cs s prev n L rule: count_loop.induct)
  case (1 e d s prev n L)
  then show ?case by (auto split: if_splits)
next
  case (2 e d c cs s prev n L)
  consider (last) "e \<and> c = backslash" "cs = []" | (esc) x cs' where "e \<and> c = backslash" "cs = x # cs'"
    | (delim) "\<not> (e \<and> c = backslash)" "c = d" | (char) "\<not> (e \<and> c = backslash)" "c \<noteq> d"
    by (cases cs) auto
  then show ?case
  proof cases
    case last
    then show ?thesis using 2(5,6) by (auto split: if_splits)
  next
    case esc
    have "nat (s + 2 - prev - 1) = nat (s - prev - 1) + 2" using 2(5) by simp
    with esc 2(2)[OF esc] 2(5,6) show ?thesis by (simp add: push_simps)
  next
    case delim
    let ?L = "if nat (s - prev - 1) > L then nat (s - prev - 1) else L"
    have "count_loop e d cs (s + 1) s (n + 1) ?L = (n', L')"
      using 2(6) unfolding count_loop.simps if_not_P[OF delim(1)] using delim(2) by simp
    from 2(3)[OF delim _ this] show ?thesis
      unfolding pieces.simps if_not_P[OF delim(1)] using delim(2)
      by (cases "pieces e d cs") (auto split: if_splits)
  next
    case char
    have "count_loop e d cs (s + 1) prev n L = (n', L')"
      using 2(6) unfolding count_loop.simps if_not_P[OF char(1)] using char(2) by simp
    moreover have "nat (s + 1 - prev - 1) = nat (s - prev - 1) + 1" using 2(5) by simp
    ultimately show ?thesis using 2(4)[OF char] 2(5)
      unfolding pieces.simps if_not_P[OF char(1)] using char(2) by (simp add: push_simps)
  qed
qed

text \<open>What is left of the input after the first substring, and the substrings in it.\<close>

definition pieces_after :: "bool \<Rightarrow> byte \<Rightarrow> byte list \<Rightarrow> byte list list" where
  "pieces_after e d rest = (case rest of [] \<Rightarrow> [] | _ # s \<Rightarrow> pieces e d s)"

lemma copy_loop_pieces:
  assumes "length (hd (pieces e d s)) \<le> n"
  shows "\<exists>rest. copy_loop e d s (filled w n) (length w) =
      Some (filled (w @ hd (pieces e d s)) (n - length (hd (pieces e d s))), rest) \<and>
    tl (pieces e d s) = pieces_after e d rest"
  using assms
proof (induction e d s arbitrary: w n rule: pieces.induct)
  case (1 e d)
  then show ?case by (simp add: pieces_after_def)
next
  case (2 e d c s)
  consider (last) "e \<and> c = backslash" "s = []" | (esc) x s' where "e \<and> c = backslash" "s = x # s'"
    | (delim) "\<not> (e \<and> c = backslash)" "c = d" | (char) "\<not> (e \<and> c = backslash)" "c \<noteq> d"
    by (cases s) auto
  then show ?case
  proof cases
    case last
    then show ?thesis using wr_filled[of n w c] 2(4) by (simp add: pieces_after_def)
  next
    case esc
    show ?thesis
    proof (cases "x = d")
      case True
      then show ?thesis
        using esc 2(1)[OF esc, of "n - 1" "w @ [x]"] 2(4) wr_filled[of n w x]
        by (auto simp: push_simps)
    next
      case False
      then show ?thesis
        using esc 2(1)[OF esc, of "n - 2" "w @ [c, x]"] 2(4) wr_filled[of n w c]
          wr_filled[of "n - 1" "w @ [c]" x]
        by (auto simp: push_simps numeral_2_eq_2)
    qed
  next
    case delim
    then show ?thesis unfolding pieces.simps copy_loop.simps if_not_P[OF delim(1)]
      by (simp add: pieces_after_def)
  next
    case char
    have "length (hd (pieces e d s)) \<le> n - 1" "0 < n"
      using 2(4) unfolding pieces.simps if_not_P[OF char(1)] using char(2) by (auto simp: push_simps)
    with 2(3)[OF char this(1), of "w @ [c]"] wr_filled[of n w c] show ?thesis
      unfolding pieces.simps copy_loop.simps if_not_P[OF char(1)] using char(2)
      by (auto simp: push_simps)
  qed
qed

text \<open>The array entries of a list of strings, and the entries of an array a failed allocation left.\<close>

abbreviation entries :: "nat \<Rightarrow> byte list list \<Rightarrow> mem option list" where
  "entries L ps \<equiv> map (\<lambda>p. Some (filled p (L + 1 - length p))) ps"

lemma split_loop_pieces:
  assumes "\<forall>p \<in> set ps. length p \<le> L"
    and "ps = (case s of None \<Rightarrow> [] | Some s \<Rightarrow> pieces e d s)"
  shows "\<exists>ok items h'. split_loop e d L (length ps) s h = Some (ok, items, h') \<and>
    (if ok then items = entries L ps @ [None] \<and> live h' = live h + int (length ps)
     else outcomes h \<noteq> [] \<and>
       (\<exists>k < length ps. items = entries L (take k ps) @ replicate (length ps - k + 1) None \<and>
         live h' = live h + int k))"
  using assms
proof (induction ps arbitrary: s h)
  case Nil
  then show ?case by (auto intro: exI[of _ True])
next
  case (Cons p ps)
  obtain t where t: "s = Some t" "pieces e d t = p # ps" using Cons.prems(2) by (cases s) auto
  obtain rest where copy: "copy_loop e d t (replicate (L + 1) (Some 0)) 0 = Some (filled p (L + 1 - length p), rest)"
    "ps = pieces_after e d rest"
    using copy_loop_pieces[of e d t "L + 1" "[]"] Cons.prems(1) t by auto
  have next_s: "ps = (case (case rest of [] \<Rightarrow> None | _ # s \<Rightarrow> Some s) of None \<Rightarrow> [] | Some s \<Rightarrow> pieces e d s)"
    using copy(2) by (simp add: pieces_after_def split: list.splits)
  obtain ok h1 where z: "zmalloc h = (ok, h1)" by (cases "zmalloc h")
  note live = zmalloc_live[OF z]
  have all_ok: "outcomes h = [] \<Longrightarrow> ok \<and> outcomes h1 = []" using z by auto
  show ?case
  proof (cases ok)
    case False
    then show ?thesis using z live all_ok by (auto intro!: exI[of _ 0])
  next
    case True
    obtain ok' items h' where ih: "split_loop e d L (length ps) (case rest of [] \<Rightarrow> None | _ # s \<Rightarrow> Some s) h1 = Some (ok', items, h')"
      "if ok' then items = entries L ps @ [None] \<and> live h' = live h1 + int (length ps)
       else outcomes h1 \<noteq> [] \<and>
         (\<exists>k < length ps. items = entries L (take k ps) @ replicate (length ps - k + 1) None \<and>
           live h' = live h1 + int k)"
      using Cons.IH[OF _ next_s, of h1] Cons.prems(1) by auto
    have run: "split_loop e d L (length (p # ps)) s h = Some (ok', Some (filled p (L + 1 - length p)) # items, h')"
      using z True t(1) copy(1) ih(1) by simp
    show ?thesis
    proof (cases ok')
      case True
      with ih(2) live \<open>ok\<close> have "items = entries L ps @ [None]" "live h' = live h + int (length (p # ps))"
        by simp_all
      with run True show ?thesis
        by (intro exI[of _ True] exI[of _ "Some (filled p (L + 1 - length p)) # items"] exI[of _ h'])
          (simp del: split_loop.simps)
    next
      case False
      then obtain k where "k < length ps" "items = entries L (take k ps) @ replicate (length ps - k + 1) None"
        "live h' = live h1 + int k" "outcomes h \<noteq> []" using ih(2) all_ok by auto
      with run False live \<open>ok\<close> show ?thesis
        by (intro exI[of _ False] exI[of _ "Some (filled p (L + 1 - length p)) # items"] exI[of _ h'])
          (simp del: split_loop.simps, rule exI[of _ "Suc k"], simp)
    qed
  qed
qed

lemma free_entries:
  "free_strings (entries L ps @ replicate (Suc k) None) h = Some (h\<lparr>live := live h - int (length ps)\<rparr>)"
  by (induction ps arbitrary: h) (simp_all add: c_free_def algebra_simps)

lemma concat_push [simp]: "concat (push w ps) = w @ concat ps"
  by (cases ps) simp_all

lemma pieces_no_nul: "d \<noteq> 0 \<Longrightarrow> 0 \<notin> set s \<Longrightarrow> 0 \<notin> set (concat (pieces e d s))"
proof (induction s rule: length_induct)
  case (1 s)
  show ?case
  proof (cases s)
    case (Cons c t)
    have ih: "0 \<notin> set (concat (pieces e d u))" if "length u < length s" "0 \<notin> set u" for u
      using 1(1,2) that by blast
    have t: "0 \<notin> set (concat (pieces e d t))" using ih[of t] 1(3) Cons by simp
    have "0 \<notin> set (concat (pieces e d u))" if "t = x # u" for x u using ih[of u] 1(3) Cons that by simp
    with t 1(2,3) Cons show ?thesis by (cases t; cases e) (auto simp del: set_concat)
  qed simp
qed

text \<open>
  The split succeeds with the substrings of the specification, or reports a failed allocation and
  releases what it allocated.
\<close>

lemma split_string:
  assumes "0 \<notin> set s" "d \<noteq> 0" "\<not> (e \<and> d = backslash)"
  shows "\<exists>r h'. strutils_split h (Some s) d e = Some (r, h') \<and>
    (case r of None \<Rightarrow> live h' = live h \<and> outcomes h \<noteq> []
     | Some items \<Rightarrow> live h' = live h + 1 + int (length (pieces e d s)) \<and>
         (\<exists>bufs. items = map Some bufs @ [None] \<and> map strz bufs = map Some (pieces e d s)))"
proof -
  let ?ps = "pieces e d s"
  obtain n L where c: "count_loop e d s 0 (-1) 1 0 = (n, L)" by (cases "count_loop e d s 0 (-1) 1 0")
  have n: "n = length ?ps" and L: "\<forall>p \<in> set ?ps. length p \<le> L"
    using count_loop_pieces[OF _ c] by (cases ?ps; auto)+
  obtain ok h1 where z: "zmalloc h = (ok, h1)" by (cases "zmalloc h")
  obtain ok' items h2 where sl: "split_loop e d L n (Some s) h1 = Some (ok', items, h2)"
    "if ok' then items = entries L ?ps @ [None] \<and> live h2 = live h1 + int n
     else outcomes h1 \<noteq> [] \<and>
       (\<exists>k < n. items = entries L (take k ?ps) @ replicate (n - k + 1) None \<and> live h2 = live h1 + int k)"
    using split_loop_pieces[OF L, where s = "Some s" and e = e and d = d and h = h1] n by auto
  have all_ok: "outcomes h = [] \<Longrightarrow> ok \<and> outcomes h1 = []" using z by auto
  consider "\<not> ok" | "ok" "\<not> ok'" | "ok" "ok'" by blast
  then show ?thesis
  proof cases
    case 1
    then show ?thesis using assms c z zmalloc_live[OF z] all_ok
      by (auto simp: strutils_split_def strutils_free_null_terminated_array_of_strings_def)
  next
    case 2
    then obtain k where k: "k < n" "items = entries L (take k ?ps) @ replicate (Suc (n - k)) None"
      "live h2 = live h1 + int k" "outcomes h \<noteq> []" using sl(2) all_ok by auto
    show ?thesis using 2 assms c z zmalloc_live[OF z] sl(1) k n free_entries[of L "take k ?ps" "n - k" h2]
      by (simp add: strutils_split_def strutils_free_null_terminated_array_of_strings_def)
  next
    case 3
    have str: "map strz (map (\<lambda>p. filled p (L + 1 - length p)) ?ps) = map Some ?ps"
      using L pieces_no_nul[OF assms(2,1)] by (simp add: Suc_diff_le)
    have "strutils_split h (Some s) d e = Some (Some (entries L ?ps @ [None]), h2)"
      using 3 assms c z sl by (simp add: strutils_split_def)
    moreover have "entries L ?ps = map Some (map (\<lambda>p. filled p (L + 1 - length p)) ?ps)" by simp
    moreover have "live h2 = live h + 1 + int (length ?ps)" using 3 sl(2) zmalloc_live[OF z] n by simp
    ultimately show ?thesis using str
      by (intro exI[of _ "Some (entries L ?ps @ [None])"] exI[of _ h2])
        (auto intro!: exI[of _ "map (\<lambda>p. filled p (L + 1 - length p)) ?ps"])
  qed
qed

lemma array_len: "strings_len (map Some bufs @ [None]) = Some (length bufs)"
  by (induction bufs) simp_all

lemma array_free:
  "free_strings (map Some bufs @ [None]) h = Some (h\<lparr>live := live h - int (length bufs)\<rparr>)"
  by (induction bufs arbitrary: h) (simp_all add: c_free_def algebra_simps)

text \<open>Joining strings with a delimiter, and escaping the delimiters in a string.\<close>

fun join :: "byte \<Rightarrow> byte list list \<Rightarrow> byte list" where
  "join d [] = []"
| "join d [p] = p"
| "join d (p # ps) = p @ d # join d ps"

definition escape_delimiters :: "byte \<Rightarrow> byte list \<Rightarrow> byte list" where
  "escape_delimiters d p = concat (map (\<lambda>c. if c = d then [backslash, c] else [c]) p)"

lemma push_push: "push v (push w ps) = push (v @ w) ps"
  by (cases ps) simp_all

lemma push_Nil [simp]: "ps \<noteq> [] \<Longrightarrow> push [] ps = ps"
  by (cases ps) simp_all

lemma pieces_escape:
  assumes "backslash \<notin> set p" "d \<noteq> backslash"
  shows "pieces True d (escape_delimiters d p @ r) = push p (pieces True d r)"
  using assms(1)
proof (induction p)
  case Nil
  then show ?case by (simp add: escape_delimiters_def)
next
  case (Cons c p)
  then have ih: "pieces True d (escape_delimiters d p @ r) = push p (pieces True d r)" by simp
  have "escape_delimiters d (c # p) @ r =
      (if c = d then backslash # c # escape_delimiters d p @ r else c # escape_delimiters d p @ r)"
    by (simp add: escape_delimiters_def)
  with Cons.prems assms(2) ih show ?case by (auto simp: push_push)
qed

lemma pieces_join:
  assumes "ps \<noteq> []" "d \<noteq> backslash" "\<forall>p \<in> set ps. backslash \<notin> set p"
  shows "pieces True d (join d (map (escape_delimiters d) ps)) = ps"
  using assms
proof (induction d ps rule: join.induct)
  case (2 d p)
  then show ?case using pieces_escape[of p d "[]"] by simp
next
  case (3 d p q ps)
  then show ?case by (simp add: pieces_escape)
qed simp

lemma join_pieces: "join d (pieces False d s) = s"
proof (induction s)
  case (Cons c s)
  obtain p ps where "pieces False d s = p # ps" by (cases "pieces False d s") auto
  with Cons show ?case by (cases ps) auto
qed simp

lemma join_no_nul:
  "d \<noteq> 0 \<Longrightarrow> \<forall>p \<in> set ps. 0 \<notin> set p \<Longrightarrow> 0 \<notin> set (join d (map (escape_delimiters d) ps))"
proof -
  have "0 \<notin> set p \<Longrightarrow> d \<noteq> 0 \<Longrightarrow> 0 \<notin> set (escape_delimiters d p)" for p
    by (induction p) (auto simp: escape_delimiters_def)
  then show "d \<noteq> 0 \<Longrightarrow> \<forall>p \<in> set ps. 0 \<notin> set p \<Longrightarrow> 0 \<notin> set (join d (map (escape_delimiters d) ps))"
    by (induction ps rule: join.induct) auto
qed

section \<open>Properties\<close>

text \<open>
  C20: normalizing a pattern in place does not change what it matches. For any object that holds a
  string at the given position, the normalization stays inside the string, keeps the rest of the
  object, and leaves a pattern without two consecutive unescaped stars that matches the same strings;
  normalizing again changes nothing.
\<close>

theorem normalize_star_glob_pattern_correct:
  assumes "c_string_at m p = Some s"
  shows "\<exists>m' n. strutils_normalize_star_glob_pattern m (Some p) = Some m' \<and> length m' = length m \<and>
    take p m' = take p m \<and> drop (p + length s + 1) m' = drop (p + length s + 1) m \<and>
    c_string_at m' p = Some n \<and> \<not> adjacent_stars (glob_tokens n) \<and>
    (\<forall>t. glob_match (glob_tokens n) t = glob_match (glob_tokens s) t) \<and>
    (\<exists>m''. strutils_normalize_star_glob_pattern m' (Some p) = Some m'' \<and> c_string_at m'' p = Some n)"
proof -
  let ?n = "crush False s"
  obtain m' where m': "strutils_normalize_star_glob_pattern m (Some p) = Some m'" "length m' = length m"
    "c_string_at m' p = Some ?n" "take p m' = take p m"
    "drop (p + length s + 1) m' = drop (p + length s + 1) m"
    using normalize_string[OF assms] by auto
  have "\<not> adjacent_stars (glob_tokens ?n)" "\<forall>t. glob_match (glob_tokens ?n) t = glob_match (glob_tokens s) t"
    using crush_tokens_no_adjacent by (auto simp: glob_tokens_crush glob_match_crush_tokens)
  with m' normalize_string[OF m'(3)] show ?thesis by (auto simp: crush_idem)
qed

abbreviation str_cells :: "byte list \<Rightarrow> mem" where
  "str_cells s \<equiv> map Some s @ [Some 0]"

theorem normalize_star_glob_pattern_correct_witness:
  "\<exists>m' n. strutils_normalize_star_glob_pattern (str_cells [97, star, star, 98]) (Some 0) = Some m' \<and>
    c_string_at m' 0 = Some n \<and> \<not> adjacent_stars (glob_tokens n) \<and> glob_match (glob_tokens n) [97, 99, 98]"
proof -
  have "c_string_at (str_cells [97, star, star, 98]) 0 = Some [97, star, star, 98]"
    by (simp add: c_string_at_def)
  from normalize_star_glob_pattern_correct[OF this] show ?thesis by auto
qed



text \<open>
  C21: splitting a string never writes outside its buffers. For a string, a delimiter other than the
  terminator and, with escaping, other than the backslash, the split gives a null-terminated array of
  the substrings that the comment of the function describes, whose length and whose release are
  right, or no array when an allocation fails, with nothing left allocated.
\<close>

theorem strutils_split_correct:
  assumes "0 \<notin> set s" "d \<noteq> 0" "\<not> (e \<and> d = backslash)"
  shows "\<exists>r h'. strutils_split h (Some s) d e = Some (r, h') \<and>
    (case r of None \<Rightarrow> live h' = live h \<and> outcomes h \<noteq> []
     | Some items \<Rightarrow> (\<exists>bufs. items = map Some bufs @ [None] \<and> map strz bufs = map Some (pieces e d s)) \<and>
         strutils_array_of_strings_len r = Some (length (pieces e d s)) \<and>
         (\<exists>h''. strutils_free_null_terminated_array_of_strings r h' = Some h'' \<and> live h'' = live h))"
proof -
  obtain r h' where r: "strutils_split h (Some s) d e = Some (r, h')"
    "case r of None \<Rightarrow> live h' = live h \<and> outcomes h \<noteq> []
     | Some items \<Rightarrow> live h' = live h + 1 + int (length (pieces e d s)) \<and>
         (\<exists>bufs. items = map Some bufs @ [None] \<and> map strz bufs = map Some (pieces e d s))"
    using split_string[OF assms] by blast
  show ?thesis
  proof (cases r)
    case (Some items)
    then obtain bufs where b: "items = map Some bufs @ [None]" "map strz bufs = map Some (pieces e d s)"
      "live h' = live h + 1 + int (length (pieces e d s))" using r(2) by auto
    then have "length bufs = length (pieces e d s)" by (metis length_map)
    with b Some have "strutils_array_of_strings_len r = Some (length (pieces e d s))"
      "\<exists>h''. strutils_free_null_terminated_array_of_strings r h' = Some h'' \<and> live h'' = live h"
      by (simp_all add: strutils_array_of_strings_len_def array_len array_free
          strutils_free_null_terminated_array_of_strings_def)
    with r b Some show ?thesis by auto
  qed (use r in auto)
qed

theorem strutils_split_correct_witness:
  "\<exists>r h'. strutils_split \<lparr>outcomes = [True, False], live = 0\<rparr> (Some [97, 44, 98]) 44 True = Some (r, h') \<and>
    (r = None \<longrightarrow> live h' = 0)"
  using strutils_split_correct[of "[97, 44, 98]" 44 True "\<lparr>outcomes = [True, False], live = 0\<rparr>"]
  by (auto split: option.splits)

text \<open>
  C22: splitting undoes joining. Any non-empty list of strings without backslashes is recovered from
  its strings joined with the delimiter, once the delimiters inside them are escaped.
\<close>

theorem strutils_split_roundtrip:
  assumes "ps \<noteq> []" "\<forall>p \<in> set ps. 0 \<notin> set p \<and> backslash \<notin> set p" "d \<noteq> 0" "d \<noteq> backslash" "outcomes h = []"
  shows "\<exists>bufs h'. strutils_split h (Some (join d (map (escape_delimiters d) ps))) d True =
      Some (Some (map Some bufs @ [None]), h') \<and> map strz bufs = map Some ps"
proof -
  have "0 \<notin> set (join d (map (escape_delimiters d) ps))" using assms by (intro join_no_nul) auto
  from split_string[OF this assms(3), of True h] pieces_join[of ps d] assms show ?thesis
    by (auto split: option.splits)
qed

theorem strutils_split_roundtrip_witness:
  "\<exists>bufs h'. strutils_split \<lparr>outcomes = [], live = 0\<rparr> (Some [97, backslash, 44, 44, 98]) 44 True =
      Some (Some (map Some bufs @ [None]), h') \<and> map strz bufs = [Some [97, 44], Some [98]]"
  using strutils_split_roundtrip[of "[[97, 44], [98]]" 44 "\<lparr>outcomes = [], live = 0\<rparr>"]
  by (simp add: escape_delimiters_def)

end
