(* ===== verification/Filter_IR.thy ===== *)
theory Filter_IR
  imports Filter_AST String_Utils
begin

text \<open>
  Intermediate representation of filters (\<open>filter-ir.h\<close>) and its generation from the syntax tree
  (\<open>filter-visitor-generate-ir.c\<close>), with every allocation and release on the ledger. The generator is
  proved to accept exactly the trees of a type system, to produce well-typed operations and to leave
  nothing allocated when it fails.
\<close>

section \<open>Operations\<close>

datatype ir_op_signedness = IR_SIGN_UNKNOWN | IR_SIGNED | IR_UNSIGNED | IR_SIGN_DYN

datatype ir_data_type =
  IR_DATA_UNKNOWN | IR_DATA_STRING | IR_DATA_NUMERIC | IR_DATA_FLOAT | IR_DATA_FIELD_REF | IR_DATA_GET_CONTEXT_REF

datatype ir_side = IR_SIDE_UNKNOWN | IR_LEFT | IR_RIGHT

datatype ir_load_string_type =
  IR_LOAD_STRING_TYPE_PLAIN | IR_LOAD_STRING_TYPE_GLOB_STAR_END | IR_LOAD_STRING_TYPE_GLOB_STAR

text \<open>The member of the union of \<open>ir_op_load\<close> that was stored.\<close>

datatype ir_op_load =
    Load_string ir_load_string_type "byte list"
  | Load_num u64
  | Load_flt u64
  | Load_ref "byte list"

record ir_common =
  data_type :: ir_data_type
  signedness :: ir_op_signedness
  side :: ir_side

datatype ir_op =
    IR_OP_UNKNOWN (common: ir_common)
  | IR_OP_ROOT (common: ir_common) ir_op
  | IR_OP_LOAD (common: ir_common) ir_op_load
  | IR_OP_UNARY (common: ir_common) unary_op_type ir_op
  | IR_OP_BINARY (common: ir_common) op_type ir_op ir_op
  | IR_OP_LOGICAL (common: ir_common) op_type ir_op ir_op

abbreviation op_data_type :: "ir_op \<Rightarrow> ir_data_type" where
  "op_data_type op \<equiv> data_type (common op)"

section \<open>Construction\<close>

definition make_op_root :: "heap \<Rightarrow> ir_op \<Rightarrow> ir_side \<Rightarrow> ir_op option \<times> heap" where
  "make_op_root h child sd =
     (let (ok, h) = zmalloc h in
      if \<not> ok then (None, h)
      else (case op_data_type child of
          IR_DATA_STRING \<Rightarrow> (None, c_free h)
        | IR_DATA_UNKNOWN \<Rightarrow> (None, c_free h)
        | IR_DATA_FLOAT \<Rightarrow> (None, c_free h)
        | _ \<Rightarrow> (Some (IR_OP_ROOT \<lparr>data_type = op_data_type child, signedness = signedness (common child),
                      side = sd\<rparr> child), h)))"

definition get_literal_string_type :: "byte list \<Rightarrow> ir_load_string_type" where
  "get_literal_string_type string =
     (if strutils_is_star_glob_pattern (Some string) = Some True then
        (if strutils_is_star_at_the_end_only_glob_pattern (Some string) = Some True
         then IR_LOAD_STRING_TYPE_GLOB_STAR_END else IR_LOAD_STRING_TYPE_GLOB_STAR)
      else IR_LOAD_STRING_TYPE_PLAIN)"

definition make_op_load_string :: "heap \<Rightarrow> byte list \<Rightarrow> ir_side \<Rightarrow> ir_op option \<times> heap" where
  "make_op_load_string h string sd =
     (let (ok, h) = zmalloc h in
      if \<not> ok then (None, h)
      else let (ok, h) = zmalloc h in
        if \<not> ok then (None, c_free h)
        else (Some (IR_OP_LOAD \<lparr>data_type = IR_DATA_STRING, signedness = IR_SIGN_UNKNOWN, side = sd\<rparr>
                (Load_string (get_literal_string_type string) string)), h))"

definition make_op_load_numeric :: "heap \<Rightarrow> u64 \<Rightarrow> ir_side \<Rightarrow> ir_op option \<times> heap" where
  "make_op_load_numeric h v sd =
     (let (ok, h) = zmalloc h in
      if \<not> ok then (None, h)
      else (Some (IR_OP_LOAD \<lparr>data_type = IR_DATA_NUMERIC, signedness = IR_SIGNED, side = sd\<rparr> (Load_num v)), h))"

definition make_op_load_float :: "heap \<Rightarrow> u64 \<Rightarrow> ir_side \<Rightarrow> ir_op option \<times> heap" where
  "make_op_load_float h v sd =
     (let (ok, h) = zmalloc h in
      if \<not> ok then (None, h)
      else (Some (IR_OP_LOAD \<lparr>data_type = IR_DATA_FLOAT, signedness = IR_SIGN_UNKNOWN, side = sd\<rparr> (Load_flt v)), h))"

definition make_op_load_field_ref :: "heap \<Rightarrow> byte list \<Rightarrow> ir_side \<Rightarrow> ir_op option \<times> heap" where
  "make_op_load_field_ref h string sd =
     (let (ok, h) = zmalloc h in
      if \<not> ok then (None, h)
      else let (ok, h) = zmalloc h in
        if \<not> ok then (None, c_free h)
        else (Some (IR_OP_LOAD \<lparr>data_type = IR_DATA_FIELD_REF, signedness = IR_SIGN_DYN, side = sd\<rparr>
                (Load_ref string)), h))"

definition make_op_load_get_context_ref :: "heap \<Rightarrow> byte list \<Rightarrow> ir_side \<Rightarrow> ir_op option \<times> heap" where
  "make_op_load_get_context_ref h string sd =
     (let (ok, h) = zmalloc h in
      if \<not> ok then (None, h)
      else let (ok, h) = zmalloc h in
        if \<not> ok then (None, c_free h)
        else (Some (IR_OP_LOAD \<lparr>data_type = IR_DATA_GET_CONTEXT_REF, signedness = IR_SIGN_DYN, side = sd\<rparr>
                (Load_ref string)), h))"

definition make_op_unary ::
  "heap \<Rightarrow> unary_op_type \<Rightarrow> ir_op_signedness \<Rightarrow> ir_op \<Rightarrow> ir_side \<Rightarrow> ir_op option \<times> heap"
where
  "make_op_unary h unary_op_type sign child sd =
     (if op_data_type child = IR_DATA_STRING then (None, h)
      else let (ok, h) = zmalloc h in
        if \<not> ok then (None, h)
        else (Some (IR_OP_UNARY \<lparr>data_type = op_data_type child, signedness = sign, side = sd\<rparr>
                unary_op_type child), h))"

definition make_op_unary_plus :: "heap \<Rightarrow> ir_op \<Rightarrow> ir_side \<Rightarrow> ir_op option \<times> heap" where
  "make_op_unary_plus h child sd = make_op_unary h AST_UNARY_PLUS (signedness (common child)) child sd"

definition make_op_unary_minus :: "heap \<Rightarrow> ir_op \<Rightarrow> ir_side \<Rightarrow> ir_op option \<times> heap" where
  "make_op_unary_minus h child sd = make_op_unary h AST_UNARY_MINUS (signedness (common child)) child sd"

definition make_op_unary_not :: "heap \<Rightarrow> ir_op \<Rightarrow> ir_side \<Rightarrow> ir_op option \<times> heap" where
  "make_op_unary_not h child sd = make_op_unary h AST_UNARY_NOT (signedness (common child)) child sd"

definition make_op_binary_compare ::
  "heap \<Rightarrow> op_type \<Rightarrow> ir_op \<Rightarrow> ir_op \<Rightarrow> ir_side \<Rightarrow> ir_op option \<times> heap"
where
  "make_op_binary_compare h bin_op_type left right sd =
     (if op_data_type left = IR_DATA_UNKNOWN \<or> op_data_type right = IR_DATA_UNKNOWN then (None, h)
      else if op_data_type left = IR_DATA_STRING \<and>
                (op_data_type right = IR_DATA_NUMERIC \<or> op_data_type right = IR_DATA_FLOAT) \<or>
              (op_data_type left = IR_DATA_NUMERIC \<or> op_data_type left = IR_DATA_FLOAT) \<and>
                op_data_type right = IR_DATA_STRING
      then (None, h)
      else let (ok, h) = zmalloc h in
        if \<not> ok then (None, h)
        else (Some (IR_OP_BINARY \<lparr>data_type = IR_DATA_NUMERIC, signedness = IR_SIGNED, side = sd\<rparr>
                bin_op_type left right), h))"

definition make_op_binary_eq :: "heap \<Rightarrow> ir_op \<Rightarrow> ir_op \<Rightarrow> ir_side \<Rightarrow> ir_op option \<times> heap" where
  "make_op_binary_eq h left right sd = make_op_binary_compare h AST_OP_EQ left right sd"

definition make_op_binary_ne :: "heap \<Rightarrow> ir_op \<Rightarrow> ir_op \<Rightarrow> ir_side \<Rightarrow> ir_op option \<times> heap" where
  "make_op_binary_ne h left right sd = make_op_binary_compare h AST_OP_NE left right sd"

definition make_op_binary_gt :: "heap \<Rightarrow> ir_op \<Rightarrow> ir_op \<Rightarrow> ir_side \<Rightarrow> ir_op option \<times> heap" where
  "make_op_binary_gt h left right sd = make_op_binary_compare h AST_OP_GT left right sd"

definition make_op_binary_lt :: "heap \<Rightarrow> ir_op \<Rightarrow> ir_op \<Rightarrow> ir_side \<Rightarrow> ir_op option \<times> heap" where
  "make_op_binary_lt h left right sd = make_op_binary_compare h AST_OP_LT left right sd"

definition make_op_binary_ge :: "heap \<Rightarrow> ir_op \<Rightarrow> ir_op \<Rightarrow> ir_side \<Rightarrow> ir_op option \<times> heap" where
  "make_op_binary_ge h left right sd = make_op_binary_compare h AST_OP_GE left right sd"

definition make_op_binary_le :: "heap \<Rightarrow> ir_op \<Rightarrow> ir_op \<Rightarrow> ir_side \<Rightarrow> ir_op option \<times> heap" where
  "make_op_binary_le h left right sd = make_op_binary_compare h AST_OP_LE left right sd"

definition make_op_binary_logical ::
  "heap \<Rightarrow> op_type \<Rightarrow> ir_op \<Rightarrow> ir_op \<Rightarrow> ir_side \<Rightarrow> ir_op option \<times> heap"
where
  "make_op_binary_logical h bin_op_type left right sd =
     (if op_data_type left = IR_DATA_UNKNOWN \<or> op_data_type right = IR_DATA_UNKNOWN then (None, h)
      else if op_data_type left = IR_DATA_STRING \<or> op_data_type right = IR_DATA_STRING then (None, h)
      else let (ok, h) = zmalloc h in
        if \<not> ok then (None, h)
        else (Some (IR_OP_LOGICAL \<lparr>data_type = IR_DATA_NUMERIC, signedness = IR_SIGNED, side = sd\<rparr>
                bin_op_type left right), h))"

definition make_op_binary_logical_and :: "heap \<Rightarrow> ir_op \<Rightarrow> ir_op \<Rightarrow> ir_side \<Rightarrow> ir_op option \<times> heap" where
  "make_op_binary_logical_and h left right sd = make_op_binary_logical h AST_OP_AND left right sd"

definition make_op_binary_logical_or :: "heap \<Rightarrow> ir_op \<Rightarrow> ir_op \<Rightarrow> ir_side \<Rightarrow> ir_op option \<times> heap" where
  "make_op_binary_logical_or h left right sd = make_op_binary_logical h AST_OP_OR left right sd"

section \<open>Release\<close>

text \<open>The data type selects the union member that is released; reading another one crashes.\<close>

fun filter_free_ir_recursive :: "ir_op \<Rightarrow> heap \<Rightarrow> heap run" where
  "filter_free_ir_recursive (IR_OP_UNKNOWN c) h = Some (c_free h)"
| "filter_free_ir_recursive (IR_OP_ROOT c child) h = do {
     h \<leftarrow> filter_free_ir_recursive child h;
     Some (c_free h)
   }"
| "filter_free_ir_recursive (IR_OP_LOAD c l) h = do {
     h \<leftarrow> (case data_type c of
             IR_DATA_STRING \<Rightarrow> (case l of Load_string _ _ \<Rightarrow> Some (c_free h) | _ \<Rightarrow> crash)
           | IR_DATA_FIELD_REF \<Rightarrow> (case l of Load_ref _ \<Rightarrow> Some (c_free h) | _ \<Rightarrow> crash)
           | IR_DATA_GET_CONTEXT_REF \<Rightarrow> (case l of Load_ref _ \<Rightarrow> Some (c_free h) | _ \<Rightarrow> crash)
           | _ \<Rightarrow> Some h);
     Some (c_free h)
   }"
| "filter_free_ir_recursive (IR_OP_UNARY c ty child) h = do {
     h \<leftarrow> filter_free_ir_recursive child h;
     Some (c_free h)
   }"
| "filter_free_ir_recursive (IR_OP_BINARY c ty left right) h = do {
     h \<leftarrow> filter_free_ir_recursive left h;
     h \<leftarrow> filter_free_ir_recursive right h;
     Some (c_free h)
   }"
| "filter_free_ir_recursive (IR_OP_LOGICAL c ty left right) h = do {
     h \<leftarrow> filter_free_ir_recursive left h;
     h \<leftarrow> filter_free_ir_recursive right h;
     Some (c_free h)
   }"

text \<open>The construction of an operation followed by the release of its operands when it fails.\<close>

definition or_free :: "ir_op list \<Rightarrow> ir_op option \<times> heap \<Rightarrow> (ir_op option \<times> heap) run" where
  "or_free children r =
     (case r of
        (Some op, h) \<Rightarrow> Some (Some op, h)
      | (None, h) \<Rightarrow> do {
          h \<leftarrow> fold (\<lambda>c h. Option.bind h (filter_free_ir_recursive c)) children (Some h);
          Some (None, h)
        })"

section \<open>Generation\<close>

definition comparator :: "op_type \<Rightarrow> bool" where
  "comparator ty \<longleftrightarrow> ty \<in> {AST_OP_EQ, AST_OP_NE, AST_OP_GT, AST_OP_LT, AST_OP_GE, AST_OP_LE}"

definition logical :: "op_type \<Rightarrow> bool" where
  "logical ty \<longleftrightarrow> ty \<in> {AST_OP_AND, AST_OP_OR}"

text \<open>The second switch of \<open>make_op\<close>.\<close>

definition make_binary :: "heap \<Rightarrow> op_type \<Rightarrow> ir_op \<Rightarrow> ir_op \<Rightarrow> ir_side \<Rightarrow> ir_op option \<times> heap" where
  "make_binary h ty lchild rchild sd =
     (case ty of
        AST_OP_AND \<Rightarrow> make_op_binary_logical_and h lchild rchild sd
      | AST_OP_OR \<Rightarrow> make_op_binary_logical_or h lchild rchild sd
      | AST_OP_EQ \<Rightarrow> make_op_binary_eq h lchild rchild sd
      | AST_OP_NE \<Rightarrow> make_op_binary_ne h lchild rchild sd
      | AST_OP_GT \<Rightarrow> make_op_binary_gt h lchild rchild sd
      | AST_OP_LT \<Rightarrow> make_op_binary_lt h lchild rchild sd
      | AST_OP_GE \<Rightarrow> make_op_binary_ge h lchild rchild sd
      | AST_OP_LE \<Rightarrow> make_op_binary_le h lchild rchild sd
      | _ \<Rightarrow> (None, h))"

abbreviation ctx_prefix :: "byte list" where "ctx_prefix \<equiv> [36, 99, 116, 120, 46]"
abbreviation app_prefix :: "byte list" where "app_prefix \<equiv> [36, 97, 112, 112, 46]"
abbreviation dot :: byte where "dot \<equiv> 46"

function generate_ir_recursive :: "heap \<Rightarrow> filter_node \<Rightarrow> ir_side \<Rightarrow> (ir_op option \<times> heap) run"
  and make_expression :: "heap \<Rightarrow> filter_expression \<Rightarrow> ir_side \<Rightarrow> (ir_op option \<times> heap) run"
  and make_op :: "heap \<Rightarrow> op_type \<Rightarrow> filter_node \<Rightarrow> filter_node \<Rightarrow> ir_side \<Rightarrow> (ir_op option \<times> heap) run"
  and make_unary_op :: "heap \<Rightarrow> unary_op_type \<Rightarrow> filter_node \<Rightarrow> ir_side \<Rightarrow> (ir_op option \<times> heap) run"
where
  "generate_ir_recursive h NODE_NULL sd = crash"
| "generate_ir_recursive h NODE_UNKNOWN sd = Some (None, h)"
| "generate_ir_recursive h (NODE_ROOT child) sd = do {
     (child, h) \<leftarrow> generate_ir_recursive h child sd;
     case child of
       None \<Rightarrow> Some (None, h)
     | Some child \<Rightarrow> or_free [child] (make_op_root h child sd)
   }"
| "generate_ir_recursive h (NODE_EXPRESSION e) sd = make_expression h e sd"
| "generate_ir_recursive h (NODE_OP ty lchild rchild) sd = make_op h ty lchild rchild sd"
| "generate_ir_recursive h (NODE_UNARY_OP ty child) sd = make_unary_op h ty child sd"
| "make_expression h AST_EXP_UNKNOWN sd = Some (None, h)"
| "make_expression h (AST_EXP_STRING string) sd = Some (make_op_load_string h string sd)"
| "make_expression h (AST_EXP_CONSTANT v) sd = Some (make_op_load_numeric h v sd)"
| "make_expression h (AST_EXP_FLOAT_CONSTANT v) sd = Some (make_op_load_float h v sd)"
| "make_expression h (AST_EXP_IDENTIFIER post_op pre_op identifier prev) sd =
     (if pre_op \<noteq> AST_LINK_UNKNOWN then Some (None, h)
      else Some (make_op_load_field_ref h identifier sd))"
| "make_expression h (AST_EXP_GLOBAL_IDENTIFIER post_op pre_op identifier prev) sd =
     (if take 5 identifier \<noteq> ctx_prefix \<and> take 5 identifier \<noteq> app_prefix then Some (None, h)
      else case dropWhile (\<lambda>c. c \<noteq> dot) identifier of
        [] \<Rightarrow> Some (None, h)
      | _ # name \<Rightarrow>
          if length name = 0 then Some (None, h)
          else Some (make_op_load_get_context_ref h identifier sd))"
| "make_expression h (AST_EXP_NESTED child) sd = generate_ir_recursive h child sd"
| "make_op h ty lchild rchild sd =
     (if comparator ty \<or> logical ty then do {
        (lchild, h) \<leftarrow> generate_ir_recursive h lchild IR_LEFT;
        case lchild of
          None \<Rightarrow> Some (None, h)
        | Some lchild \<Rightarrow> do {
            (rchild, h) \<leftarrow> generate_ir_recursive h rchild (if comparator ty then IR_RIGHT else IR_LEFT);
            case rchild of
              None \<Rightarrow> do { h \<leftarrow> filter_free_ir_recursive lchild h; Some (None, h) }
            | Some rchild \<Rightarrow> or_free [rchild, lchild] (make_binary h ty lchild rchild sd)
          }
      }
      else Some (None, h))"
| "make_unary_op h ty child sd =
     (if ty = AST_UNARY_UNKNOWN \<or> ty = AST_UNARY_BIN_NOT then Some (None, h)
      else do {
        (child, h) \<leftarrow> generate_ir_recursive h child sd;
        case child of
          None \<Rightarrow> Some (None, h)
        | Some child \<Rightarrow> or_free [child]
            (case ty of
               AST_UNARY_PLUS \<Rightarrow> make_op_unary_plus h child sd
             | AST_UNARY_MINUS \<Rightarrow> make_op_unary_minus h child sd
             | AST_UNARY_NOT \<Rightarrow> make_op_unary_not h child sd
             | _ \<Rightarrow> (None, h))
      })"
  by pat_completeness auto
termination
  by (relation "measure (\<lambda>x. case x of
        Inl (Inl (h, n, sd)) \<Rightarrow> 2 * size n
      | Inl (Inr (h, e, sd)) \<Rightarrow> 2 * size e + 1
      | Inr (Inl (h, ty, l, r, sd)) \<Rightarrow> 2 * size l + 2 * size r + 1
      | Inr (Inr (h, ty, n, sd)) \<Rightarrow> 2 * size n + 1)") simp_all

record filter_parser_ctx =
  ast :: filter_node
  ir_root :: "ir_op option"

definition filter_ir_free ::
  "'a filter_parser_ctx_scheme \<Rightarrow> heap \<Rightarrow> ('a filter_parser_ctx_scheme \<times> heap) run"
where
  "filter_ir_free ctx h = do {
     h \<leftarrow> (case ir_root ctx of None \<Rightarrow> Some h | Some op \<Rightarrow> filter_free_ir_recursive op h);
     Some (ctx\<lparr>ir_root := None\<rparr>, h)
   }"

definition filter_visitor_ir_generate ::
  "'a filter_parser_ctx_scheme \<Rightarrow> heap \<Rightarrow> (int \<times> 'a filter_parser_ctx_scheme \<times> heap) run"
where
  "filter_visitor_ir_generate ctx h = do {
     (op, h) \<leftarrow> generate_ir_recursive h (ast ctx) IR_LEFT;
     case op of
       None \<Rightarrow> Some (- EINVAL, ctx, h)
     | Some op \<Rightarrow> Some (0, ctx\<lparr>ir_root := Some op\<rparr>, h)
   }"

section \<open>Types\<close>

text \<open>A string does not compare with a number.\<close>

definition type_mismatch :: "ir_data_type \<Rightarrow> ir_data_type \<Rightarrow> bool" where
  "type_mismatch l r \<longleftrightarrow>
     l = IR_DATA_STRING \<and> (r = IR_DATA_NUMERIC \<or> r = IR_DATA_FLOAT) \<or>
     (l = IR_DATA_NUMERIC \<or> l = IR_DATA_FLOAT) \<and> r = IR_DATA_STRING"

text \<open>The type system of filter expressions: the data type of a tree, or none when it has no type.\<close>

fun ast_type :: "filter_node \<Rightarrow> ir_data_type option"
  and exp_type :: "filter_expression \<Rightarrow> ir_data_type option"
where
  "ast_type NODE_NULL = None"
| "ast_type NODE_UNKNOWN = None"
| "ast_type (NODE_ROOT n) =
     (case ast_type n of
        None \<Rightarrow> None
      | Some t \<Rightarrow> if t = IR_DATA_STRING \<or> t = IR_DATA_FLOAT then None else Some t)"
| "ast_type (NODE_EXPRESSION e) = exp_type e"
| "ast_type (NODE_OP ty l r) =
     (case (ast_type l, ast_type r) of
        (Some t, Some u) \<Rightarrow>
          if comparator ty \<and> \<not> type_mismatch t u \<or> logical ty \<and> t \<noteq> IR_DATA_STRING \<and> u \<noteq> IR_DATA_STRING
          then Some IR_DATA_NUMERIC else None
      | _ \<Rightarrow> None)"
| "ast_type (NODE_UNARY_OP ty n) =
     (case ast_type n of
        None \<Rightarrow> None
      | Some t \<Rightarrow>
          if ty \<in> {AST_UNARY_PLUS, AST_UNARY_MINUS, AST_UNARY_NOT} \<and> t \<noteq> IR_DATA_STRING then Some t else None)"
| "exp_type AST_EXP_UNKNOWN = None"
| "exp_type (AST_EXP_STRING s) = Some IR_DATA_STRING"
| "exp_type (AST_EXP_CONSTANT v) = Some IR_DATA_NUMERIC"
| "exp_type (AST_EXP_FLOAT_CONSTANT v) = Some IR_DATA_FLOAT"
| "exp_type (AST_EXP_IDENTIFIER post_op pre_op s prev) =
     (if pre_op = AST_LINK_UNKNOWN then Some IR_DATA_FIELD_REF else None)"
| "exp_type (AST_EXP_GLOBAL_IDENTIFIER post_op pre_op s prev) =
     (if take 5 s \<in> {ctx_prefix, app_prefix} \<and> 5 < length s then Some IR_DATA_GET_CONTEXT_REF else None)"
| "exp_type (AST_EXP_NESTED n) = ast_type n"

text \<open>Well-typed operations below the root, and the blocks they own.\<close>

fun expr_ok :: "ir_op \<Rightarrow> bool" where
  "expr_ok (IR_OP_UNKNOWN c) = False"
| "expr_ok (IR_OP_ROOT c n) = False"
| "expr_ok (IR_OP_LOAD c l) =
     (case l of
        Load_string ty s \<Rightarrow> data_type c = IR_DATA_STRING
      | Load_num v \<Rightarrow> data_type c = IR_DATA_NUMERIC
      | Load_flt v \<Rightarrow> data_type c = IR_DATA_FLOAT
      | Load_ref s \<Rightarrow> data_type c = IR_DATA_FIELD_REF \<or> data_type c = IR_DATA_GET_CONTEXT_REF)"
| "expr_ok (IR_OP_UNARY c ty n) =
     (expr_ok n \<and> ty \<in> {AST_UNARY_PLUS, AST_UNARY_MINUS, AST_UNARY_NOT} \<and>
      data_type c = op_data_type n \<and> data_type c \<noteq> IR_DATA_STRING \<and> side c = side (common n))"
| "expr_ok (IR_OP_BINARY c ty l r) =
     (expr_ok l \<and> expr_ok r \<and> comparator ty \<and> data_type c = IR_DATA_NUMERIC \<and>
      \<not> type_mismatch (op_data_type l) (op_data_type r) \<and>
      side (common l) = IR_LEFT \<and> side (common r) = IR_RIGHT)"
| "expr_ok (IR_OP_LOGICAL c ty l r) =
     (expr_ok l \<and> expr_ok r \<and> logical ty \<and> data_type c = IR_DATA_NUMERIC \<and>
      op_data_type l \<noteq> IR_DATA_STRING \<and> op_data_type r \<noteq> IR_DATA_STRING \<and>
      side (common l) = IR_LEFT \<and> side (common r) = IR_LEFT)"

fun root_ok :: "ir_op \<Rightarrow> bool" where
  "root_ok (IR_OP_ROOT c n) =
     (expr_ok n \<and> data_type c = op_data_type n \<and> data_type c \<noteq> IR_DATA_STRING \<and> data_type c \<noteq> IR_DATA_FLOAT)"
| "root_ok _ = False"

fun blocks :: "ir_op \<Rightarrow> int" where
  "blocks (IR_OP_UNKNOWN c) = 1"
| "blocks (IR_OP_ROOT c n) = 1 + blocks n"
| "blocks (IR_OP_LOAD c l) = (case l of Load_string _ _ \<Rightarrow> 2 | Load_ref _ \<Rightarrow> 2 | _ \<Rightarrow> 1)"
| "blocks (IR_OP_UNARY c ty n) = 1 + blocks n"
| "blocks (IR_OP_BINARY c ty l r) = 1 + blocks l + blocks r"
| "blocks (IR_OP_LOGICAL c ty l r) = 1 + blocks l + blocks r"

lemma expr_ok_type: "expr_ok op \<Longrightarrow> op_data_type op \<noteq> IR_DATA_UNKNOWN"
  by (induction op) (auto split: ir_op_load.splits)

lemma free_expr: "expr_ok op \<Longrightarrow> filter_free_ir_recursive op h = Some (h\<lparr>live := live h - blocks op\<rparr>)"
  by (induction op arbitrary: h) (auto simp: c_free_def algebra_simps split: ir_op_load.splits ir_data_type.splits)

lemma free_root: "root_ok op \<Longrightarrow> filter_free_ir_recursive op h = Some (h\<lparr>live := live h - blocks op\<rparr>)"
  by (cases op) (auto simp: free_expr c_free_def algebra_simps)

section \<open>The generator implements the type system\<close>

lemma zmalloc_outcome:
  "zmalloc h = (ok, h') \<Longrightarrow> (outcomes h = [] \<longrightarrow> ok \<and> outcomes h' = []) \<and> live h' = live h + (if ok then 1 else 0)"
  by (auto simp: zmalloc_def split: list.splits)

text \<open>
  The result of building an operation of type \<open>t\<close> on the given side from operands that are already
  built, when \<open>k\<close> blocks are added: it fails only when there is no type or an allocation failed.
\<close>

definition built :: "heap \<Rightarrow> ir_data_type option \<Rightarrow> ir_side \<Rightarrow> int \<Rightarrow> ir_op option \<times> heap \<Rightarrow> bool" where
  "built h t sd k r \<longleftrightarrow> (case r of (op, h') \<Rightarrow>
     (outcomes h = [] \<longrightarrow> outcomes h' = []) \<and>
     (case op of
        None \<Rightarrow> live h' = live h \<and> (t = None \<or> outcomes h \<noteq> [])
      | Some op \<Rightarrow> t = Some (op_data_type op) \<and> expr_ok op \<and> side (common op) = sd \<and>
          live h' = live h + (blocks op - k)))"

lemma built_load:
  "built h (Some IR_DATA_STRING) sd 0 (make_op_load_string h s sd)"
  "built h (Some IR_DATA_NUMERIC) sd 0 (make_op_load_numeric h v sd)"
  "built h (Some IR_DATA_FLOAT) sd 0 (make_op_load_float h v sd)"
  "built h (Some IR_DATA_FIELD_REF) sd 0 (make_op_load_field_ref h s sd)"
  "built h (Some IR_DATA_GET_CONTEXT_REF) sd 0 (make_op_load_get_context_ref h s sd)"
  by (auto simp: built_def make_op_load_string_def make_op_load_numeric_def make_op_load_float_def
      make_op_load_field_ref_def make_op_load_get_context_ref_def Let_def split: prod.splits
      dest!: zmalloc_outcome)

lemma built_unary:
  assumes "expr_ok n" "side (common n) = sd" "ty \<in> {AST_UNARY_PLUS, AST_UNARY_MINUS, AST_UNARY_NOT}"
  shows "built h (if op_data_type n = IR_DATA_STRING then None else Some (op_data_type n)) sd (blocks n)
    (make_op_unary h ty sg n sd)"
  using assms by (auto simp: built_def make_op_unary_def Let_def split: prod.splits dest!: zmalloc_outcome)

lemma built_binary:
  assumes "expr_ok l" "expr_ok r" "side (common l) = IR_LEFT"
    and "side (common r) = (if comparator ty then IR_RIGHT else IR_LEFT)" "comparator ty \<or> logical ty"
  shows "built h (if comparator ty \<and> \<not> type_mismatch (op_data_type l) (op_data_type r) \<or>
      logical ty \<and> op_data_type l \<noteq> IR_DATA_STRING \<and> op_data_type r \<noteq> IR_DATA_STRING
      then Some IR_DATA_NUMERIC else None) sd (blocks l + blocks r) (make_binary h ty l r sd)"
proof -
  have "op_data_type l \<noteq> IR_DATA_UNKNOWN" "op_data_type r \<noteq> IR_DATA_UNKNOWN"
    using assms(1,2) by (auto dest: expr_ok_type)
  with assms show ?thesis
    by (cases ty) (auto simp: built_def make_binary_def make_op_binary_eq_def make_op_binary_ne_def
        make_op_binary_gt_def make_op_binary_lt_def make_op_binary_ge_def make_op_binary_le_def
        make_op_binary_logical_and_def make_op_binary_logical_or_def make_op_binary_compare_def
        make_op_binary_logical_def type_mismatch_def comparator_def logical_def Let_def
        split: prod.splits if_splits dest!: zmalloc_outcome)
qed

lemma fold_free: "list_all expr_ok cs \<Longrightarrow>
    fold (\<lambda>c h. Option.bind h (filter_free_ir_recursive c)) cs (Some h) =
    Some (h\<lparr>live := live h - sum_list (map blocks cs)\<rparr>)"
  by (induction cs arbitrary: h) (simp_all add: free_expr algebra_simps)

lemma or_free_built:
  assumes "built h1 t sd (sum_list (map blocks cs)) r" "list_all expr_ok cs"
    and "live h1 = live h + sum_list (map blocks cs)" "outcomes h = [] \<longrightarrow> outcomes h1 = []"
  shows "\<exists>r'. or_free cs r = Some r' \<and> built h t sd 0 r'"
proof -
  obtain op h2 where r: "r = (op, h2)" by (cases r)
  show ?thesis
    using assms r fold_free[OF assms(2), of h2] by (cases op) (auto simp: or_free_def built_def)
qed

lemma built_None: "built h None sd k (None, h)"
  by (simp add: built_def)

lemma builtE:
  assumes "built h t sd 0 r"
  obtains h' where "r = (None, h')" "outcomes h = [] \<longrightarrow> outcomes h' = []" "live h' = live h" "t = None \<or> outcomes h \<noteq> []"
  | op h' where "r = (Some op, h')" "outcomes h = [] \<longrightarrow> outcomes h' = []" "t = Some (op_data_type op)"
      "expr_ok op" "side (common op) = sd" "live h' = live h + blocks op"
  using assms by (cases r; cases "fst r") (auto simp: built_def)

lemma context_name:
  assumes "take 5 s \<in> {ctx_prefix, app_prefix}"
  shows "dropWhile (\<lambda>c. c \<noteq> dot) s = dot # drop 5 s"
proof -
  have "s = ctx_prefix @ drop 5 s \<or> s = app_prefix @ drop 5 s"
    using assms by (metis append_take_drop_id insertE singletonD)
  moreover have "dropWhile (\<lambda>c. c \<noteq> dot) (ctx_prefix @ r) = dot # r" "dropWhile (\<lambda>c. c \<noteq> dot) (app_prefix @ r) = dot # r" for r
    by simp_all
  ultimately show ?thesis by metis
qed

lemma generate_unary:
  assumes "\<exists>r. generate_ir_recursive h n sd = Some r \<and> built h (ast_type n) sd 0 r"
  shows "\<exists>r. make_unary_op h ty n sd = Some r \<and> built h (ast_type (NODE_UNARY_OP ty n)) sd 0 r"
proof (cases "ty \<in> {AST_UNARY_PLUS, AST_UNARY_MINUS, AST_UNARY_NOT}")
  case False
  then have "ty = AST_UNARY_UNKNOWN \<or> ty = AST_UNARY_BIN_NOT" by (cases ty) auto
  then show ?thesis by (auto simp: built_None split: option.splits)
next
  case ty: True
  obtain r where r: "generate_ir_recursive h n sd = Some r" "built h (ast_type n) sd 0 r" using assms by blast
  from r(2) show ?thesis
  proof (cases rule: builtE)
    case (1 h')
    with r(1) ty show ?thesis by (auto simp: built_def)
  next
    case (2 op h')
    let ?t = "if op_data_type op = IR_DATA_STRING then None else Some (op_data_type op)"
    have "built h' ?t sd (sum_list (map blocks [op])) (make_op_unary h' ty (signedness (common op)) op sd)"
      using built_unary[OF 2(4,5) ty] by simp
    from or_free_built[OF this, of h] 2 obtain r' where
      "or_free [op] (make_op_unary h' ty (signedness (common op)) op sd) = Some r'" "built h ?t sd 0 r'"
      by auto
    with r(1) 2 ty show ?thesis
      by (auto simp: make_op_unary_plus_def make_op_unary_minus_def make_op_unary_not_def
          simp del: split_paired_Ex split: if_splits)
  qed
qed

lemma generate_binary:
  assumes l: "\<exists>r. generate_ir_recursive h l IR_LEFT = Some r \<and> built h (ast_type l) IR_LEFT 0 r"
    and r: "\<And>h sd. \<exists>x. generate_ir_recursive h r sd = Some x \<and> built h (ast_type r) sd 0 x"
  shows "\<exists>x. make_op h ty l r sd = Some x \<and> built h (ast_type (NODE_OP ty l r)) sd 0 x"
proof (cases "comparator ty \<or> logical ty")
  case False
  then have "ast_type (NODE_OP ty l r) = None" by (auto split: option.splits)
  with False show ?thesis by (simp add: built_None)
next
  case ty: True
  let ?sd = "if comparator ty then IR_RIGHT else IR_LEFT"
  obtain x where x: "generate_ir_recursive h l IR_LEFT = Some x" "built h (ast_type l) IR_LEFT 0 x" using l by blast
  from x(2) show ?thesis
  proof (cases rule: builtE)
    case (1 h')
    with x(1) ty show ?thesis by (auto simp: built_def)
  next
    case lop: (2 lop h1)
    obtain y where y: "generate_ir_recursive h1 r ?sd = Some y" "built h1 (ast_type r) ?sd 0 y" using r by blast
    from y(2) show ?thesis
    proof (cases rule: builtE)
      case (1 h')
      with x(1) y(1) ty lop free_expr[OF lop(4)] show ?thesis by (auto simp: built_def split: option.splits)
    next
      case rop: (2 rop h2)
      note b = built_binary[OF lop(4) rop(4) lop(5) rop(5) ty, of h2 sd]
      have "\<exists>x. or_free [rop, lop] (make_binary h2 ty lop rop sd) = Some x \<and>
          built h (ast_type (NODE_OP ty l r)) sd 0 x"
        by (rule or_free_built[of h2]) (use b lop rop in \<open>simp_all add: add.commute\<close>)
      with x(1) y(1) lop(1) rop(1) ty show ?thesis by simp
    qed
  qed
qed

lemma generate_built:
  "complete n \<Longrightarrow> \<exists>r. generate_ir_recursive h n sd = Some r \<and> built h (ast_type n) sd 0 r"
  "complete (NODE_EXPRESSION e) \<Longrightarrow> \<exists>r. make_expression h e sd = Some r \<and> built h (exp_type e) sd 0 r"
proof (induction n and e arbitrary: h sd and h sd)
  case (NODE_OP ty l r)
  then show ?case using generate_binary[of h l r ty sd] by simp
next
  case (NODE_UNARY_OP ty n)
  then show ?case using generate_unary[of h n sd ty] by simp
next
  case (AST_EXP_GLOBAL_IDENTIFIER p q s n)
  show ?case
  proof (cases "take 5 s \<in> {ctx_prefix, app_prefix}")
    case True
    then show ?thesis using context_name[OF True] built_load(5)[of h sd s]
      by (cases "make_op_load_get_context_ref h s sd") (auto simp: built_None)
  next
    case False
    then show ?thesis by (auto simp: built_None)
  qed
qed (auto simp: built_load built_None simp del: split_paired_Ex)

lemma generate_root:
  assumes "complete n"
  shows "\<exists>op h'. generate_ir_recursive h (NODE_ROOT n) sd = Some (op, h') \<and>
    (case op of
       None \<Rightarrow> live h' = live h \<and> (ast_type (NODE_ROOT n) = None \<or> outcomes h \<noteq> [])
     | Some op \<Rightarrow> root_ok op \<and> ast_type (NODE_ROOT n) = Some (op_data_type op) \<and> live h' = live h + blocks op \<and>
         (outcomes h = [] \<longrightarrow> outcomes h' = []))"
proof -
  obtain r where r: "generate_ir_recursive h n sd = Some r" "built h (ast_type n) sd 0 r"
    using generate_built(1)[OF assms] by blast
  from r(2) show ?thesis
  proof (cases rule: builtE)
    case (1 h')
    with r(1) show ?thesis by auto
  next
    case (2 op h1)
    obtain ok h2 where z: "zmalloc h1 = (ok, h2)" by (cases "zmalloc h1")
    show ?thesis
      using 2 r(1) z zmalloc_outcome[OF z] expr_ok_type[OF 2(4)] free_expr[OF 2(4)]
      by (cases "op_data_type op"; cases ok) (auto simp: make_op_root_def or_free_def)
  qed
qed

lemma ir_generate_total:
  assumes "ast ctx = NODE_ROOT n" "complete n"
  shows "\<exists>ret ctx' h'. filter_visitor_ir_generate ctx h = Some (ret, ctx', h')"
proof -
  obtain op h' where "generate_ir_recursive h (ast ctx) IR_LEFT = Some (op, h')"
    using generate_root[OF assms(2), of h IR_LEFT] unfolding assms(1)[symmetric] by blast
  then show ?thesis by (cases op) (simp_all add: filter_visitor_ir_generate_def)
qed

section \<open>Properties\<close>

text \<open>
  C13: the generated representation is well typed, and the generator accepts exactly the typed
  expressions. For every complete tree the visitor returns 0 and leaves a root whose operations are
  well typed and whose data type is the type of the tree, or it returns \<open>-EINVAL\<close> and leaves the
  context alone; with allocations that succeed, it returns 0 exactly when the tree has a type.
\<close>

theorem filter_ir_generate_typed:
  assumes "ast ctx = NODE_ROOT n" "complete n"
  shows "\<exists>ret ctx' h'. filter_visitor_ir_generate ctx h = Some (ret, ctx', h') \<and>
    (if ret = 0 then \<exists>op. ctx' = ctx\<lparr>ir_root := Some op\<rparr> \<and> root_ok op \<and> ast_type (ast ctx) = Some (op_data_type op)
     else ret = - EINVAL \<and> ctx' = ctx) \<and>
    (outcomes h = [] \<longrightarrow> (ret = 0 \<longleftrightarrow> ast_type (ast ctx) \<noteq> None))"
proof -
  obtain op h' where g: "generate_ir_recursive h (ast ctx) IR_LEFT = Some (op, h')"
    "case op of
       None \<Rightarrow> live h' = live h \<and> (ast_type (ast ctx) = None \<or> outcomes h \<noteq> [])
     | Some op \<Rightarrow> root_ok op \<and> ast_type (ast ctx) = Some (op_data_type op) \<and> live h' = live h + blocks op \<and>
         (outcomes h = [] \<longrightarrow> outcomes h' = [])"
    using generate_root[OF assms(2), of h IR_LEFT] unfolding assms(1)[symmetric] by blast
  show ?thesis
  proof (cases op)
    case None
    with g show ?thesis by (auto simp: filter_visitor_ir_generate_def intro!: exI[of _ "- EINVAL"])
  next
    case (Some op)
    with g show ?thesis by (auto simp: filter_visitor_ir_generate_def intro!: exI[of _ "0 :: int"])
  qed
qed

abbreviation field :: "byte list \<Rightarrow> filter_node" where
  "field s \<equiv> NODE_EXPRESSION (AST_EXP_IDENTIFIER AST_LINK_UNKNOWN AST_LINK_UNKNOWN s NODE_NULL)"

definition sample_filter :: filter_node where
  "sample_filter = NODE_ROOT (NODE_OP AST_OP_AND
     (NODE_OP AST_OP_EQ (field [97]) (NODE_EXPRESSION (AST_EXP_CONSTANT 5))) (field [98]))"

definition sample_ctx :: filter_parser_ctx where
  "sample_ctx = \<lparr>ast = sample_filter, ir_root = None\<rparr>"

lemma sample_shape: "\<exists>n. ast sample_ctx = NODE_ROOT n \<and> complete n" "ast_type (ast sample_ctx) = Some IR_DATA_NUMERIC"
  by (simp_all add: sample_ctx_def sample_filter_def comparator_def logical_def type_mismatch_def)

theorem filter_ir_generate_typed_witness:
  "\<exists>op h'. filter_visitor_ir_generate sample_ctx \<lparr>outcomes = [], live = 0\<rparr> =
      Some (0, sample_ctx\<lparr>ir_root := Some op\<rparr>, h') \<and> root_ok op"
proof -
  obtain n where "ast sample_ctx = NODE_ROOT n" "complete n" using sample_shape(1) by blast
  from filter_ir_generate_typed[OF this, of "\<lparr>outcomes = [], live = 0\<rparr>"] sample_shape(2) show ?thesis
    by (auto simp del: ast_type.simps root_ok.simps)
qed

text \<open>
  C19: the generator never leaks. Whatever allocations fail, after an error nothing that it allocated
  is left, and after a success releasing the representation releases everything it allocated.
\<close>

theorem filter_ir_generate_ownership:
  assumes "ast ctx = NODE_ROOT n" "complete n" "filter_visitor_ir_generate ctx h = Some (ret, ctx', h')"
  shows "if ret = 0 then \<exists>h''. filter_ir_free ctx' h' = Some (ctx'\<lparr>ir_root := None\<rparr>, h'') \<and> live h'' = live h
    else live h' = live h"
  using generate_root[OF assms(2), of h IR_LEFT] assms(1,3)
  by (auto simp: filter_visitor_ir_generate_def filter_ir_free_def free_root
      simp del: ast_type.simps generate_ir_recursive.simps filter_free_ir_recursive.simps split: option.splits)

theorem filter_ir_generate_ownership_witness:
  "\<exists>ret ctx' h'. filter_visitor_ir_generate sample_ctx \<lparr>outcomes = [True, True, False], live = 7\<rparr> =
      Some (ret, ctx', h') \<and> (if ret = 0 then True else live h' = 7)"
proof -
  obtain n where n: "ast sample_ctx = NODE_ROOT n" "complete n" using sample_shape(1) by blast
  obtain ret ctx' h' where r: "filter_visitor_ir_generate sample_ctx \<lparr>outcomes = [True, True, False], live = 7\<rparr> =
      Some (ret, ctx', h')"
    using ir_generate_total[OF n] by blast
  from filter_ir_generate_ownership[OF n r] r show ?thesis by (auto split: if_splits)
qed

end
