(* ===== verification/Filter_Check.thy ===== *)
theory Filter_Check
  imports Filter_IR
begin

text \<open>
  The passes over the intermediate representation between its generation and the bytecode:
  \<open>filter-visitor-ir-check-binary-op-nesting.c\<close>, \<open>filter-visitor-ir-normalize-glob-patterns.c\<close>,
  \<open>filter-visitor-ir-validate-string.c\<close> and \<open>filter-visitor-ir-validate-globbing.c\<close>. Each pass is proved
  to accept exactly the representations of a specification.
\<close>

unbundle bit_operations_syntax

section \<open>Nesting of binary operators\<close>

fun check_bin_op_nesting_recursive :: "ir_op \<Rightarrow> int \<Rightarrow> int" where
  "check_bin_op_nesting_recursive (IR_OP_UNKNOWN c) nesting = - EINVAL"
| "check_bin_op_nesting_recursive (IR_OP_ROOT c child) nesting = check_bin_op_nesting_recursive child nesting"
| "check_bin_op_nesting_recursive (IR_OP_LOAD c l) nesting = 0"
| "check_bin_op_nesting_recursive (IR_OP_UNARY c ty child) nesting = check_bin_op_nesting_recursive child nesting"
| "check_bin_op_nesting_recursive (IR_OP_BINARY c ty left right) nesting =
     (if nesting > 0 then - EINVAL
      else let ret = check_bin_op_nesting_recursive left (nesting + 1) in
        if ret \<noteq> 0 then ret else check_bin_op_nesting_recursive right (nesting + 1))"
| "check_bin_op_nesting_recursive (IR_OP_LOGICAL c ty left right) nesting =
     (let ret = check_bin_op_nesting_recursive left nesting in
      if ret \<noteq> 0 then ret else check_bin_op_nesting_recursive right nesting)"

definition filter_visitor_ir_check_binary_op_nesting :: "'a filter_parser_ctx_scheme \<Rightarrow> int run" where
  "filter_visitor_ir_check_binary_op_nesting ctx = do {
     op \<leftarrow> ir_root ctx;
     Some (check_bin_op_nesting_recursive op 0)
   }"

section \<open>Normalization of patterns\<close>

fun normalize_glob_patterns :: "ir_op \<Rightarrow> (int \<times> ir_op) run" where
  "normalize_glob_patterns (IR_OP_UNKNOWN c) = Some (- EINVAL, IR_OP_UNKNOWN c)"
| "normalize_glob_patterns (IR_OP_ROOT c child) = do {
     (ret, child) \<leftarrow> normalize_glob_patterns child;
     Some (ret, IR_OP_ROOT c child)
   }"
| "normalize_glob_patterns (IR_OP_LOAD c l) =
     (if data_type c = IR_DATA_STRING then
        (case l of
           Load_string ty string \<Rightarrow>
             if ty = IR_LOAD_STRING_TYPE_GLOB_STAR_END \<or> ty = IR_LOAD_STRING_TYPE_GLOB_STAR then do {
               m \<leftarrow> strutils_normalize_star_glob_pattern (str_cells string) (Some 0);
               string \<leftarrow> c_string_at m 0;
               Some (0, IR_OP_LOAD c (Load_string ty string))
             }
             else Some (0, IR_OP_LOAD c l)
         | _ \<Rightarrow> crash)
      else Some (0, IR_OP_LOAD c l))"
| "normalize_glob_patterns (IR_OP_UNARY c ty child) = do {
     (ret, child) \<leftarrow> normalize_glob_patterns child;
     Some (ret, IR_OP_UNARY c ty child)
   }"
| "normalize_glob_patterns (IR_OP_BINARY c ty left right) = do {
     (ret, left) \<leftarrow> normalize_glob_patterns left;
     if ret \<noteq> 0 then Some (ret, IR_OP_BINARY c ty left right)
     else do {
       (ret, right) \<leftarrow> normalize_glob_patterns right;
       Some (ret, IR_OP_BINARY c ty left right)
     }
   }"
| "normalize_glob_patterns (IR_OP_LOGICAL c ty left right) = do {
     (ret, left) \<leftarrow> normalize_glob_patterns left;
     if ret \<noteq> 0 then Some (ret, IR_OP_LOGICAL c ty left right)
     else do {
       (ret, right) \<leftarrow> normalize_glob_patterns right;
       Some (ret, IR_OP_LOGICAL c ty left right)
     }
   }"

definition filter_visitor_ir_normalize_glob_patterns ::
  "'a filter_parser_ctx_scheme \<Rightarrow> (int \<times> 'a filter_parser_ctx_scheme) run"
where
  "filter_visitor_ir_normalize_glob_patterns ctx = do {
     op \<leftarrow> ir_root ctx;
     (ret, op) \<leftarrow> normalize_glob_patterns op;
     Some (ret, ctx\<lparr>ir_root := Some op\<rparr>)
   }"

section \<open>Escapes in literals\<close>

datatype parse_char_result = PARSE_CHAR_UNKNOWN | PARSE_CHAR_WILDCARD | PARSE_CHAR_NORMAL

text \<open>The result and the position after the call; the end of the list is the terminator.\<close>

fun parse_char :: "byte list \<Rightarrow> parse_char_result \<times> byte list" where
  "parse_char [] = (PARSE_CHAR_NORMAL, [])"
| "parse_char (c # s) =
     (if c = backslash then
        (if s \<noteq> [] \<and> (hd s = backslash \<or> hd s = star) then (PARSE_CHAR_NORMAL, s) else (PARSE_CHAR_UNKNOWN, s))
      else if c = star then (PARSE_CHAR_WILDCARD, c # s)
      else (PARSE_CHAR_NORMAL, c # s))"

lemma parse_char_decreases: "(res, s') = parse_char s \<Longrightarrow> s \<noteq> [] \<Longrightarrow> length s' - 1 < length s"
  by (cases s) (auto split: if_splits)

function validate_chars :: "byte list \<Rightarrow> int" where
  "validate_chars str =
     (if str = [] then 0
      else let (res, str') = parse_char str in
        if res = PARSE_CHAR_UNKNOWN then - EINVAL else validate_chars (tl str'))"
  by pat_completeness auto
termination
  by (relation "measure length") (use parse_char_decreases in \<open>simp_all add: less_diff_conv2\<close>)

declare validate_chars.simps [simp del]

fun validate_string :: "ir_op \<Rightarrow> int run" where
  "validate_string (IR_OP_UNKNOWN c) = Some (- EINVAL)"
| "validate_string (IR_OP_ROOT c child) = validate_string child"
| "validate_string (IR_OP_LOAD c l) =
     (if data_type c = IR_DATA_STRING then
        (case l of Load_string ty string \<Rightarrow> Some (validate_chars string) | _ \<Rightarrow> crash)
      else Some 0)"
| "validate_string (IR_OP_UNARY c ty child) = validate_string child"
| "validate_string (IR_OP_BINARY c ty left right) = do {
     ret \<leftarrow> validate_string left;
     if ret \<noteq> 0 then Some ret else validate_string right
   }"
| "validate_string (IR_OP_LOGICAL c ty left right) = do {
     ret \<leftarrow> validate_string left;
     if ret \<noteq> 0 then Some ret else validate_string right
   }"

definition filter_visitor_ir_validate_string :: "'a filter_parser_ctx_scheme \<Rightarrow> int run" where
  "filter_visitor_ir_validate_string ctx = do { op \<leftarrow> ir_root ctx; validate_string op }"

section \<open>Globbing\<close>

text \<open>
  Whether the type field of a string load reads as \<open>IR_LOAD_STRING_TYPE_GLOB_STAR\<close> (2). The code reads
  it without looking at the data type: in a numeric load it is the low half of the value, in a
  reference the low half of the address of a block, which is aligned and therefore never 2.
\<close>

fun reads_glob_star :: "ir_op_load \<Rightarrow> bool" where
  "reads_glob_star (Load_string ty s) \<longleftrightarrow> ty = IR_LOAD_STRING_TYPE_GLOB_STAR"
| "reads_glob_star (Load_num v) \<longleftrightarrow> v AND 0xFFFFFFFF = 2"
| "reads_glob_star (Load_flt v) \<longleftrightarrow> v AND 0xFFFFFFFF = 2"
| "reads_glob_star (Load_ref s) \<longleftrightarrow> False"

fun load_glob_star :: "ir_op \<Rightarrow> bool" where
  "load_glob_star (IR_OP_LOAD c l) = reads_glob_star l"
| "load_glob_star _ = False"

fun string_load :: "ir_op \<Rightarrow> ir_load_string_type option" where
  "string_load (IR_OP_LOAD c (Load_string ty s)) = (if data_type c = IR_DATA_STRING then Some ty else None)"
| "string_load _ = None"

fun validate_globbing :: "ir_op \<Rightarrow> int" where
  "validate_globbing (IR_OP_UNKNOWN c) = - EINVAL"
| "validate_globbing (IR_OP_ROOT c child) = validate_globbing child"
| "validate_globbing (IR_OP_LOAD c l) = 0"
| "validate_globbing (IR_OP_UNARY c ty child) = validate_globbing child"
| "validate_globbing (IR_OP_BINARY c ty left right) =
     (if (case (string_load left, string_load right) of
            (Some l, Some r) \<Rightarrow>
              l = IR_LOAD_STRING_TYPE_GLOB_STAR \<and> r \<noteq> IR_LOAD_STRING_TYPE_PLAIN \<or>
              r = IR_LOAD_STRING_TYPE_GLOB_STAR \<and> l \<noteq> IR_LOAD_STRING_TYPE_PLAIN
          | _ \<Rightarrow> False)
      then -1
      else if (string_load left \<noteq> None \<or> string_load right \<noteq> None) \<and>
              (load_glob_star left \<or> load_glob_star right) \<and> ty \<noteq> AST_OP_EQ \<and> ty \<noteq> AST_OP_NE
      then -1
      else let ret = validate_globbing left in
        if ret \<noteq> 0 then ret else validate_globbing right)"
| "validate_globbing (IR_OP_LOGICAL c ty left right) =
     (let ret = validate_globbing left in
      if ret \<noteq> 0 then ret else validate_globbing right)"

definition filter_visitor_ir_validate_globbing :: "'a filter_parser_ctx_scheme \<Rightarrow> int run" where
  "filter_visitor_ir_validate_globbing ctx = do { op \<leftarrow> ir_root ctx; Some (validate_globbing op) }"

section \<open>What the passes accept\<close>

text \<open>The number of comparisons on a path from the root to a load.\<close>

fun comparison_depth :: "ir_op \<Rightarrow> nat" where
  "comparison_depth (IR_OP_ROOT c n) = comparison_depth n"
| "comparison_depth (IR_OP_UNARY c ty n) = comparison_depth n"
| "comparison_depth (IR_OP_BINARY c ty l r) = Suc (max (comparison_depth l) (comparison_depth r))"
| "comparison_depth (IR_OP_LOGICAL c ty l r) = max (comparison_depth l) (comparison_depth r)"
| "comparison_depth _ = 0"

lemma nesting_iff:
  "expr_ok op \<Longrightarrow> 0 \<le> k \<Longrightarrow> check_bin_op_nesting_recursive op k = 0 \<longleftrightarrow>
    int (comparison_depth op) + k \<le> 1 \<or> comparison_depth op = 0"
proof (induction op arbitrary: k)
  case (IR_OP_BINARY c ty l r)
  then show ?case by (auto simp: Let_def)
qed (auto simp: Let_def)

lemma nesting_result: "check_bin_op_nesting_recursive op k \<in> {0, - EINVAL}"
  by (induction op arbitrary: k) (auto simp: Let_def)

text \<open>Strings in which a backslash only escapes a backslash or a star.\<close>

fun well_escaped :: "byte list \<Rightarrow> bool" where
  "well_escaped [] = True"
| "well_escaped (c # s) =
     (if c = backslash then (case s of [] \<Rightarrow> False | d # s' \<Rightarrow> (d = backslash \<or> d = star) \<and> well_escaped s')
      else well_escaped s)"

lemma validate_chars_iff: "validate_chars s = (if well_escaped s then 0 else - EINVAL)"
proof (induction s rule: well_escaped.induct)
  case 1
  show ?case by (subst validate_chars.simps) simp
next
  case (2 c s)
  then show ?case by (subst validate_chars.simps) (auto split: list.splits)
qed

text \<open>The literals of an operation, and the comparisons in it with their operands.\<close>

fun literals :: "ir_op \<Rightarrow> byte list set" where
  "literals (IR_OP_ROOT c n) = literals n"
| "literals (IR_OP_LOAD c l) = (case l of Load_string ty s \<Rightarrow> {s} | _ \<Rightarrow> {})"
| "literals (IR_OP_UNARY c ty n) = literals n"
| "literals (IR_OP_BINARY c ty l r) = literals l \<union> literals r"
| "literals (IR_OP_LOGICAL c ty l r) = literals l \<union> literals r"
| "literals (IR_OP_UNKNOWN c) = {}"

fun comparisons :: "ir_op \<Rightarrow> (op_type \<times> ir_op \<times> ir_op) set" where
  "comparisons (IR_OP_ROOT c n) = comparisons n"
| "comparisons (IR_OP_UNARY c ty n) = comparisons n"
| "comparisons (IR_OP_BINARY c ty l r) = insert (ty, l, r) (comparisons l \<union> comparisons r)"
| "comparisons (IR_OP_LOGICAL c ty l r) = comparisons l \<union> comparisons r"
| "comparisons _ = {}"

lemma validate_string_iff:
  "expr_ok op \<Longrightarrow> validate_string op = Some (if \<forall>s \<in> literals op. well_escaped s then 0 else - EINVAL)"
  by (induction op) (auto simp: validate_chars_iff split: ir_op_load.splits)

text \<open>
  The rule for a comparison: a full pattern is not compared with another pattern, and is compared with
  anything by equality only.
\<close>

definition glob_rule :: "op_type \<Rightarrow> ir_load_string_type option \<Rightarrow> ir_load_string_type option \<Rightarrow> bool" where
  "glob_rule ty l r \<longleftrightarrow>
     (l = Some IR_LOAD_STRING_TYPE_GLOB_STAR \<longrightarrow> r = None \<or> r = Some IR_LOAD_STRING_TYPE_PLAIN) \<and>
     (r = Some IR_LOAD_STRING_TYPE_GLOB_STAR \<longrightarrow> l = None \<or> l = Some IR_LOAD_STRING_TYPE_PLAIN) \<and>
     (l = Some IR_LOAD_STRING_TYPE_GLOB_STAR \<or> r = Some IR_LOAD_STRING_TYPE_GLOB_STAR \<longrightarrow>
        ty = AST_OP_EQ \<or> ty = AST_OP_NE)"

lemma string_load_type: "expr_ok op \<Longrightarrow> string_load op = Some ty \<Longrightarrow> op_data_type op = IR_DATA_STRING"
  by (cases op rule: string_load.cases) (auto split: if_splits)

text \<open>In a well-typed comparison with a string the type field is read from string loads only.\<close>

lemma load_glob_star_string:
  assumes "expr_ok l" "expr_ok r" "\<not> type_mismatch (op_data_type l) (op_data_type r)" "string_load r \<noteq> None"
  shows "load_glob_star l \<longleftrightarrow> string_load l = Some IR_LOAD_STRING_TYPE_GLOB_STAR"
  using assms string_load_type[OF assms(2)]
  by (cases l rule: string_load.cases) (auto simp: type_mismatch_def)

lemma type_mismatch_sym: "type_mismatch t u \<longleftrightarrow> type_mismatch u t"
  by (auto simp: type_mismatch_def)

lemma glob_rule_tests:
  assumes "expr_ok l" "expr_ok r" "\<not> type_mismatch (op_data_type l) (op_data_type r)"
  shows "glob_rule ty (string_load l) (string_load r) \<longleftrightarrow>
    \<not> (case (string_load l, string_load r) of
         (Some l, Some r) \<Rightarrow>
           l = IR_LOAD_STRING_TYPE_GLOB_STAR \<and> r \<noteq> IR_LOAD_STRING_TYPE_PLAIN \<or>
           r = IR_LOAD_STRING_TYPE_GLOB_STAR \<and> l \<noteq> IR_LOAD_STRING_TYPE_PLAIN
       | _ \<Rightarrow> False) \<and>
    \<not> ((string_load l \<noteq> None \<or> string_load r \<noteq> None) \<and>
       (load_glob_star l \<or> load_glob_star r) \<and> ty \<noteq> AST_OP_EQ \<and> ty \<noteq> AST_OP_NE)"
proof -
  have self: "string_load op = Some t \<Longrightarrow> load_glob_star op \<longleftrightarrow> t = IR_LOAD_STRING_TYPE_GLOB_STAR" for op t
    by (cases op rule: string_load.cases) (auto split: if_splits)
  have "\<not> type_mismatch (op_data_type r) (op_data_type l)" using assms(3) by (simp add: type_mismatch_sym)
  note other = load_glob_star_string[OF assms] load_glob_star_string[OF assms(2,1) this]
  show ?thesis
  proof (cases "string_load l"; cases "string_load r")
    assume "string_load l = None" "string_load r = None"
    then show ?thesis by (simp add: glob_rule_def)
  next
    fix t assume "string_load l = None" "string_load r = Some t"
    with other self[of r] show ?thesis by (simp add: glob_rule_def)
  next
    fix t assume "string_load l = Some t" "string_load r = None"
    with other self[of l] show ?thesis by (simp add: glob_rule_def)
  next
    fix t u assume "string_load l = Some t" "string_load r = Some u"
    with self[of l] self[of r] show ?thesis by (auto simp: glob_rule_def)
  qed
qed

lemma validate_globbing_iff:
  "expr_ok op \<Longrightarrow> validate_globbing op =
    (if \<forall>(ty, l, r) \<in> comparisons op. glob_rule ty (string_load l) (string_load r) then 0 else -1)"
proof (induction op)
  case (IR_OP_BINARY c ty l r)
  then have ok: "expr_ok l" "expr_ok r" "\<not> type_mismatch (op_data_type l) (op_data_type r)" by auto
  have if_if: "(if a then x else if b then x else y) = (if \<not> (\<not> a \<and> \<not> b) then x else y)" for a b and x y :: int
    by simp
  have "validate_globbing (IR_OP_BINARY c ty l r) =
      (if \<not> glob_rule ty (string_load l) (string_load r) then -1
       else let ret = validate_globbing l in if ret \<noteq> 0 then ret else validate_globbing r)"
    by (simp only: validate_globbing.simps glob_rule_tests[OF ok] if_if)
  with IR_OP_BINARY ok show ?case by (simp add: Let_def ball_Un)
qed (auto simp: Let_def)

text \<open>The same for whole representations.\<close>

lemma root_checks:
  assumes "root_ok op"
  shows "check_bin_op_nesting_recursive op 0 = (if comparison_depth op \<le> 1 then 0 else - EINVAL)"
    and "validate_string op = Some (if \<forall>s \<in> literals op. well_escaped s then 0 else - EINVAL)"
    and "validate_globbing op =
      (if \<forall>(ty, l, r) \<in> comparisons op. glob_rule ty (string_load l) (string_load r) then 0 else -1)"
proof -
  obtain c n where op: "op = IR_OP_ROOT c n" "expr_ok n" using assms by (cases op) auto
  show "check_bin_op_nesting_recursive op 0 = (if comparison_depth op \<le> 1 then 0 else - EINVAL)"
    using nesting_iff[OF op(2), of 0] nesting_result[of n 0] op(1) by auto
  show "validate_string op = Some (if \<forall>s \<in> literals op. well_escaped s then 0 else - EINVAL)"
    using validate_string_iff[OF op(2)] op(1) by simp
  show "validate_globbing op =
      (if \<forall>(ty, l, r) \<in> comparisons op. glob_rule ty (string_load l) (string_load r) then 0 else -1)"
    using validate_globbing_iff[OF op(2)] op(1) by simp
qed

section \<open>Properties\<close>

text \<open>
  C17: the three checks accept exactly the filters they are meant to. On a well-typed root they always
  return; the nesting check succeeds if and only if no comparison is inside another, the string check
  if and only if every backslash of a literal escapes a backslash or a star, and the globbing check if
  and only if every comparison obeys the rule for full patterns, although it reads the type field of
  loads that are no strings.
\<close>

theorem filter_checks_exact:
  assumes "ir_root ctx = Some op" "root_ok op"
  shows "filter_visitor_ir_check_binary_op_nesting ctx = Some (if comparison_depth op \<le> 1 then 0 else - EINVAL) \<and>
    filter_visitor_ir_validate_string ctx = Some (if \<forall>s \<in> literals op. well_escaped s then 0 else - EINVAL) \<and>
    filter_visitor_ir_validate_globbing ctx =
      Some (if \<forall>(ty, l, r) \<in> comparisons op. glob_rule ty (string_load l) (string_load r) then 0 else -1)"
  using assms by (simp add: filter_visitor_ir_check_binary_op_nesting_def filter_visitor_ir_validate_string_def
      filter_visitor_ir_validate_globbing_def root_checks)

definition sample_glob :: ir_op where
  "sample_glob = IR_OP_ROOT \<lparr>data_type = IR_DATA_NUMERIC, signedness = IR_SIGNED, side = IR_LEFT\<rparr>
     (IR_OP_BINARY \<lparr>data_type = IR_DATA_NUMERIC, signedness = IR_SIGNED, side = IR_LEFT\<rparr> AST_OP_LT
        (IR_OP_LOAD \<lparr>data_type = IR_DATA_FIELD_REF, signedness = IR_SIGN_DYN, side = IR_LEFT\<rparr> (Load_ref [97]))
        (IR_OP_LOAD \<lparr>data_type = IR_DATA_STRING, signedness = IR_SIGN_UNKNOWN, side = IR_RIGHT\<rparr>
           (Load_string IR_LOAD_STRING_TYPE_GLOB_STAR [42, 98])))"

theorem filter_checks_exact_witness:
  "filter_visitor_ir_check_binary_op_nesting \<lparr>ast = NODE_NULL, ir_root = Some sample_glob\<rparr> = Some 0 \<and>
   filter_visitor_ir_validate_globbing \<lparr>ast = NODE_NULL, ir_root = Some sample_glob\<rparr> = Some (-1)"
proof -
  have "root_ok sample_glob" by (simp add: sample_glob_def comparator_def type_mismatch_def)
  from filter_checks_exact[of "\<lparr>ast = NODE_NULL, ir_root = Some sample_glob\<rparr>", OF _ this] show ?thesis
    by (simp add: sample_glob_def glob_rule_def)
qed

end
