(* ===== verification/Filter_Bytecode.thy ===== *)
theory Filter_Bytecode
  imports Filter_Check Count_Order
begin

text \<open>
  Filter bytecode: \<open>filter-bytecode.h\<close> and \<open>filter-visitor-generate-bytecode.c\<close>. The growing buffer is
  modelled at 32 bits with its allocated length, the stores as writes inside the allocation; the
  visitors are translated one by one. The specification is a compiler to a list of instructions with
  absolute jump targets; the generated bytes are proved to be its encoding.

  Sizes: the header in front of the data takes 52 bytes (a 32-bit allocation length and the packed
  \<open>struct lttng_filter_bytecode\<close> of 48 bytes). Integers are little-endian.
\<close>

unbundle bit_operations_syntax

section \<open>Opcodes\<close>

text \<open>The operations that the generator emits; the others are the specialized ones of the tracers.\<close>

datatype filter_op =
    FILTER_OP_UNKNOWN | FILTER_OP_RETURN | FILTER_OP_MUL | FILTER_OP_DIV | FILTER_OP_MOD
  | FILTER_OP_PLUS | FILTER_OP_MINUS | FILTER_OP_RSHIFT | FILTER_OP_LSHIFT | FILTER_OP_BIN_AND
  | FILTER_OP_BIN_OR | FILTER_OP_BIN_XOR | FILTER_OP_EQ | FILTER_OP_NE | FILTER_OP_GT
  | FILTER_OP_LT | FILTER_OP_GE | FILTER_OP_LE | FILTER_OP_UNARY_MINUS | FILTER_OP_UNARY_NOT
  | FILTER_OP_AND | FILTER_OP_OR | FILTER_OP_LOAD_FIELD_REF | FILTER_OP_LOAD_STRING
  | FILTER_OP_LOAD_S64 | FILTER_OP_LOAD_DOUBLE | FILTER_OP_CAST_TO_S64
  | FILTER_OP_CAST_DOUBLE_TO_S64 | FILTER_OP_GET_CONTEXT_REF | FILTER_OP_LOAD_STAR_GLOB_STRING

fun opcode :: "filter_op \<Rightarrow> u8" where
  "opcode FILTER_OP_UNKNOWN = 0"
| "opcode FILTER_OP_RETURN = 1"
| "opcode FILTER_OP_MUL = 2"
| "opcode FILTER_OP_DIV = 3"
| "opcode FILTER_OP_MOD = 4"
| "opcode FILTER_OP_PLUS = 5"
| "opcode FILTER_OP_MINUS = 6"
| "opcode FILTER_OP_RSHIFT = 7"
| "opcode FILTER_OP_LSHIFT = 8"
| "opcode FILTER_OP_BIN_AND = 9"
| "opcode FILTER_OP_BIN_OR = 10"
| "opcode FILTER_OP_BIN_XOR = 11"
| "opcode FILTER_OP_EQ = 12"
| "opcode FILTER_OP_NE = 13"
| "opcode FILTER_OP_GT = 14"
| "opcode FILTER_OP_LT = 15"
| "opcode FILTER_OP_GE = 16"
| "opcode FILTER_OP_LE = 17"
| "opcode FILTER_OP_UNARY_MINUS = 49"
| "opcode FILTER_OP_UNARY_NOT = 50"
| "opcode FILTER_OP_AND = 57"
| "opcode FILTER_OP_OR = 58"
| "opcode FILTER_OP_LOAD_FIELD_REF = 59"
| "opcode FILTER_OP_LOAD_STRING = 64"
| "opcode FILTER_OP_LOAD_S64 = 65"
| "opcode FILTER_OP_LOAD_DOUBLE = 66"
| "opcode FILTER_OP_CAST_TO_S64 = 67"
| "opcode FILTER_OP_CAST_DOUBLE_TO_S64 = 68"
| "opcode FILTER_OP_GET_CONTEXT_REF = 70"
| "opcode FILTER_OP_LOAD_STAR_GLOB_STRING = 76"

section \<open>The buffer\<close>

abbreviation LTTNG_FILTER_MAX_LEN :: u32 where "LTTNG_FILTER_MAX_LEN \<equiv> 65536"
abbreviation INIT_ALLOC_SIZE :: u32 where "INIT_ALLOC_SIZE \<equiv> 4"
abbreviation sizeof_alloc :: u32 where "sizeof_alloc \<equiv> 52"

text \<open>\<open>bc_data\<close> is the part of the allocation after the header.\<close>

record filter_bytecode =
  bc_alloc_len :: u32
  bc_len :: u32
  bc_reloc_table_offset :: u32
  bc_data :: "byte list"

definition bytecode_get_len :: "filter_bytecode \<Rightarrow> u32" where
  "bytecode_get_len fb = bc_len fb"

definition lttng_fls :: "u32 \<Rightarrow> int" where
  "lttng_fls val =
     (if val = 0 then 0
      else let s = (val, 32);
               s = fls_step 0xFFFF0000 16 s;
               s = fls_step 0xFF000000 8 s;
               s = fls_step 0xF0000000 4 s;
               s = fls_step 0xC0000000 2 s
           in if fst s AND 0x80000000 = 0 then int (snd s) - 1 else int (snd s))"

definition get_count_order :: "u32 \<Rightarrow> int" where
  "get_count_order count =
     (let order = lttng_fls count - 1 in
      if count AND (count - 1) \<noteq> 0 then order + 1 else order)"

definition bytecode_init :: "heap \<Rightarrow> int \<times> filter_bytecode option \<times> heap" where
  "bytecode_init h =
     (let alloc_len = sizeof_alloc + INIT_ALLOC_SIZE;
          (ok, h) = zmalloc h in
      if \<not> ok then (- ENOMEM, None, h)
      else (0, Some \<lparr>bc_alloc_len = alloc_len, bc_len = 0, bc_reloc_table_offset = 0,
                     bc_data = replicate (unat INIT_ALLOC_SIZE) 0\<rparr>, h))"

text \<open>\<open>realloc\<close> of a live block: the ledger does not change.\<close>

definition c_realloc :: "heap \<Rightarrow> bool \<times> heap" where
  "c_realloc h = (case outcomes h of [] \<Rightarrow> (True, h) | b # bs \<Rightarrow> (b, h\<lparr>outcomes := bs\<rparr>))"

definition offset_align :: "u32 \<Rightarrow> u32 \<Rightarrow> u32 run" where
  "offset_align align_drift alignment = do {
     c_assert (\<not> (alignment = 0 \<or> alignment AND (alignment - 1) \<noteq> 0));
     Some ((alignment - align_drift) AND (alignment - 1))
   }"

definition bytecode_reserve ::
  "heap \<Rightarrow> filter_bytecode \<Rightarrow> u32 \<Rightarrow> u32 \<Rightarrow> (int \<times> filter_bytecode \<times> heap) run"
where
  "bytecode_reserve h fb align len = do {
     padding \<leftarrow> offset_align (bc_len fb) align;
     let new_len = bc_len fb + padding + len;
     let new_alloc_len = sizeof_alloc + new_len;
     let old_alloc_len = bc_alloc_len fb;
     if new_len > LTTNG_FILTER_MAX_LEN then Some (- EINVAL, fb, h)
     else do {
       (ret, fb, h) \<leftarrow>
         (if new_alloc_len > old_alloc_len then do {
            let order = get_count_order new_alloc_len;
            c_assert (0 \<le> order \<and> order < 32);
            let new_alloc_len = max (push_bit (nat order) 1) (push_bit 1 old_alloc_len);
            let (ok, h) = c_realloc h;
            if \<not> ok then Some (- ENOMEM, fb, h)
            else Some (0, fb\<lparr>bc_data := bc_data fb @ replicate (unat (new_alloc_len - old_alloc_len)) 0,
                             bc_alloc_len := new_alloc_len\<rparr>, h)
          }
          else Some (0, fb, h));
       if ret < 0 then Some (ret, fb, h)
       else do {
         let fb = fb\<lparr>bc_len := bc_len fb + padding\<rparr>;
         let ret = int (unat (bc_len fb));
         Some (ret, fb\<lparr>bc_len := bc_len fb + len\<rparr>, h)
       }
     }
   }"

text \<open>A \<open>memcpy\<close> into the data.\<close>

definition put :: "filter_bytecode \<Rightarrow> nat \<Rightarrow> byte list \<Rightarrow> filter_bytecode run" where
  "put fb offset bs =
     (if offset + length bs \<le> length (bc_data fb)
      then Some (fb\<lparr>bc_data := take offset (bc_data fb) @ bs @ drop (offset + length bs) (bc_data fb)\<rparr>)
      else crash)"

definition bytecode_push ::
  "heap \<Rightarrow> filter_bytecode \<Rightarrow> byte list \<Rightarrow> u32 \<Rightarrow> (int \<times> filter_bytecode \<times> heap) run"
where
  "bytecode_push h fb bs align = do {
     (offset, fb, h) \<leftarrow> bytecode_reserve h fb align (of_nat (length bs));
     if offset < 0 then Some (offset, fb, h)
     else do { fb \<leftarrow> put fb (nat offset) bs; Some (0, fb, h) }
   }"

text \<open>The last component of the result is the location of the skip offset.\<close>

definition bytecode_push_logical ::
  "heap \<Rightarrow> filter_bytecode \<Rightarrow> byte list \<Rightarrow> u32 \<Rightarrow> (int \<times> filter_bytecode \<times> heap \<times> u16) run"
where
  "bytecode_push_logical h fb bs align = do {
     (offset, fb, h) \<leftarrow> bytecode_reserve h fb align (of_nat (length bs));
     if offset < 0 then Some (offset, fb, h, 0)
     else do { fb \<leftarrow> put fb (nat offset) bs; Some (0, fb, h, of_nat (nat offset + 1)) }
   }"

definition bytecode_patch :: "filter_bytecode \<Rightarrow> byte list \<Rightarrow> u16 \<Rightarrow> (int \<times> filter_bytecode) run" where
  "bytecode_patch fb bs offset =
     (if (ucast offset :: u32) \<ge> bc_len fb then Some (- EINVAL, fb)
      else do { fb \<leftarrow> put fb (unat offset) bs; Some (0, fb) })"

section \<open>Visitors\<close>

record filter_ctx = filter_parser_ctx +
  bytecode :: "filter_bytecode option"
  bytecode_reloc :: "filter_bytecode option"

text \<open>A push on one of the two buffers of the context.\<close>

definition push_bytecode :: "filter_ctx \<Rightarrow> heap \<Rightarrow> byte list \<Rightarrow> (int \<times> filter_ctx \<times> heap) run" where
  "push_bytecode ctx h bs = do {
     fb \<leftarrow> bytecode ctx;
     (ret, fb, h) \<leftarrow> bytecode_push h fb bs 1;
     Some (ret, ctx\<lparr>bytecode := Some fb\<rparr>, h)
   }"

definition push_reloc :: "filter_ctx \<Rightarrow> heap \<Rightarrow> byte list \<Rightarrow> (int \<times> filter_ctx \<times> heap) run" where
  "push_reloc ctx h bs = do {
     fb \<leftarrow> bytecode_reloc ctx;
     (ret, fb, h) \<leftarrow> bytecode_push h fb bs 1;
     Some (ret, ctx\<lparr>bytecode_reloc := Some fb\<rparr>, h)
   }"

text \<open>The instruction is built in a temporary block that is released whatever the push returns.\<close>

definition push_load :: "filter_ctx \<Rightarrow> heap \<Rightarrow> byte list \<Rightarrow> (int \<times> filter_ctx \<times> heap) run" where
  "push_load ctx h insn =
     (let (ok, h) = zmalloc h in
      if \<not> ok then Some (- ENOMEM, ctx, h)
      else do {
        (ret, ctx, h) \<leftarrow> push_bytecode ctx h insn;
        Some (ret, ctx, c_free h)
      })"

text \<open>The lengths of strings are computed at 32 bits; the copy of a longer string overflows its block.\<close>

definition visit_node_load :: "filter_ctx \<Rightarrow> heap \<Rightarrow> ir_common \<Rightarrow> ir_op_load \<Rightarrow> (int \<times> filter_ctx \<times> heap) run" where
  "visit_node_load ctx h c l =
     (case data_type c of
        IR_DATA_UNKNOWN \<Rightarrow> Some (- EINVAL, ctx, h)
      | IR_DATA_STRING \<Rightarrow>
          (case l of
             Load_string ty string \<Rightarrow> do {
               c_assert (length string + 2 < 2 ^ 32);
               push_load ctx h (opcode (case ty of
                   IR_LOAD_STRING_TYPE_GLOB_STAR \<Rightarrow> FILTER_OP_LOAD_STAR_GLOB_STRING
                 | _ \<Rightarrow> FILTER_OP_LOAD_STRING) # string @ [0])
             }
           | _ \<Rightarrow> crash)
      | IR_DATA_NUMERIC \<Rightarrow>
          (case l of
             Load_num v \<Rightarrow> push_load ctx h (opcode FILTER_OP_LOAD_S64 # bytes_u64 v)
           | _ \<Rightarrow> crash)
      | IR_DATA_FLOAT \<Rightarrow>
          (case l of
             Load_flt v \<Rightarrow> push_load ctx h (opcode FILTER_OP_LOAD_DOUBLE # bytes_u64 v)
           | _ \<Rightarrow> crash)
      | _ \<Rightarrow>
          (case l of
             Load_ref ref \<Rightarrow>
               let (ok, h) = zmalloc h in
               if \<not> ok then Some (- ENOMEM, ctx, h)
               else do {
                 let insn = opcode (if data_type c = IR_DATA_FIELD_REF then FILTER_OP_LOAD_FIELD_REF
                                    else FILTER_OP_GET_CONTEXT_REF) # bytes_u16 (-1);
                 fb \<leftarrow> bytecode ctx;
                 let reloc_offset_u32 = bytecode_get_len fb;
                 if reloc_offset_u32 > LTTNG_FILTER_MAX_LEN - 1 then Some (- EINVAL, ctx, c_free h)
                 else do {
                   let reloc_offset = (ucast reloc_offset_u32 :: u16);
                   (ret, ctx, h) \<leftarrow> push_bytecode ctx h insn;
                   if ret \<noteq> 0 then Some (ret, ctx, c_free h)
                   else do {
                     (ret, ctx, h) \<leftarrow> push_reloc ctx h (bytes_u16 reloc_offset);
                     if ret \<noteq> 0 then Some (ret, ctx, c_free h)
                     else do {
                       let len = (of_nat (length ref + 1) :: u32);
                       (ret, ctx, h) \<leftarrow> push_reloc ctx h (take (unat len) (ref @ [0]));
                       Some (ret, ctx, c_free h)
                     }
                   }
                 }
               }
           | _ \<Rightarrow> crash))"

fun binary_opcode :: "op_type \<Rightarrow> filter_op option" where
  "binary_opcode AST_OP_UNKNOWN = None"
| "binary_opcode AST_OP_AND = None"
| "binary_opcode AST_OP_OR = None"
| "binary_opcode AST_OP_MUL = Some FILTER_OP_MUL"
| "binary_opcode AST_OP_DIV = Some FILTER_OP_DIV"
| "binary_opcode AST_OP_MOD = Some FILTER_OP_MOD"
| "binary_opcode AST_OP_PLUS = Some FILTER_OP_PLUS"
| "binary_opcode AST_OP_MINUS = Some FILTER_OP_MINUS"
| "binary_opcode AST_OP_RSHIFT = Some FILTER_OP_RSHIFT"
| "binary_opcode AST_OP_LSHIFT = Some FILTER_OP_LSHIFT"
| "binary_opcode AST_OP_BIN_AND = Some FILTER_OP_BIN_AND"
| "binary_opcode AST_OP_BIN_OR = Some FILTER_OP_BIN_OR"
| "binary_opcode AST_OP_BIN_XOR = Some FILTER_OP_BIN_XOR"
| "binary_opcode AST_OP_EQ = Some FILTER_OP_EQ"
| "binary_opcode AST_OP_NE = Some FILTER_OP_NE"
| "binary_opcode AST_OP_GT = Some FILTER_OP_GT"
| "binary_opcode AST_OP_LT = Some FILTER_OP_LT"
| "binary_opcode AST_OP_GE = Some FILTER_OP_GE"
| "binary_opcode AST_OP_LE = Some FILTER_OP_LE"

text \<open>The cast of an operand of a logical operator, when its type needs one.\<close>

definition cast_operand :: "ir_data_type \<Rightarrow> filter_op option" where
  "cast_operand t =
     (if t = IR_DATA_FIELD_REF \<or> t = IR_DATA_GET_CONTEXT_REF then Some FILTER_OP_CAST_TO_S64
      else if t = IR_DATA_FLOAT then Some FILTER_OP_CAST_DOUBLE_TO_S64
      else None)"

definition push_cast :: "filter_ctx \<Rightarrow> heap \<Rightarrow> ir_data_type \<Rightarrow> (int \<times> filter_ctx \<times> heap) run" where
  "push_cast ctx h t =
     (case cast_operand t of None \<Rightarrow> Some (0, ctx, h) | Some op \<Rightarrow> push_bytecode ctx h [opcode op])"

function recursive_visit_gen_bytecode :: "filter_ctx \<Rightarrow> heap \<Rightarrow> ir_op \<Rightarrow> (int \<times> filter_ctx \<times> heap) run"
  and visit_node_root :: "filter_ctx \<Rightarrow> heap \<Rightarrow> ir_op \<Rightarrow> (int \<times> filter_ctx \<times> heap) run"
  and visit_node_unary :: "filter_ctx \<Rightarrow> heap \<Rightarrow> unary_op_type \<Rightarrow> ir_op \<Rightarrow> (int \<times> filter_ctx \<times> heap) run"
  and visit_node_binary :: "filter_ctx \<Rightarrow> heap \<Rightarrow> op_type \<Rightarrow> ir_op \<Rightarrow> ir_op \<Rightarrow> (int \<times> filter_ctx \<times> heap) run"
  and visit_node_logical :: "filter_ctx \<Rightarrow> heap \<Rightarrow> op_type \<Rightarrow> ir_op \<Rightarrow> ir_op \<Rightarrow> (int \<times> filter_ctx \<times> heap) run"
where
  "recursive_visit_gen_bytecode ctx h (IR_OP_UNKNOWN c) = Some (- EINVAL, ctx, h)"
| "recursive_visit_gen_bytecode ctx h (IR_OP_ROOT c child) = visit_node_root ctx h child"
| "recursive_visit_gen_bytecode ctx h (IR_OP_LOAD c l) = visit_node_load ctx h c l"
| "recursive_visit_gen_bytecode ctx h (IR_OP_UNARY c ty child) = visit_node_unary ctx h ty child"
| "recursive_visit_gen_bytecode ctx h (IR_OP_BINARY c ty left right) = visit_node_binary ctx h ty left right"
| "recursive_visit_gen_bytecode ctx h (IR_OP_LOGICAL c ty left right) = visit_node_logical ctx h ty left right"
| "visit_node_root ctx h child = do {
     (ret, ctx, h) \<leftarrow> recursive_visit_gen_bytecode ctx h child;
     if ret \<noteq> 0 then Some (ret, ctx, h) else push_bytecode ctx h [opcode FILTER_OP_RETURN]
   }"
| "visit_node_unary ctx h ty child = do {
     (ret, ctx, h) \<leftarrow> recursive_visit_gen_bytecode ctx h child;
     if ret \<noteq> 0 then Some (ret, ctx, h)
     else (case ty of
         AST_UNARY_PLUS \<Rightarrow> Some (0, ctx, h)
       | AST_UNARY_MINUS \<Rightarrow> push_bytecode ctx h [opcode FILTER_OP_UNARY_MINUS]
       | AST_UNARY_NOT \<Rightarrow> push_bytecode ctx h [opcode FILTER_OP_UNARY_NOT]
       | _ \<Rightarrow> Some (- EINVAL, ctx, h))
   }"
| "visit_node_binary ctx h ty left right = do {
     (ret, ctx, h) \<leftarrow> recursive_visit_gen_bytecode ctx h left;
     if ret \<noteq> 0 then Some (ret, ctx, h)
     else do {
       (ret, ctx, h) \<leftarrow> recursive_visit_gen_bytecode ctx h right;
       if ret \<noteq> 0 then Some (ret, ctx, h)
       else (case binary_opcode ty of
           None \<Rightarrow> Some (- EINVAL, ctx, h)
         | Some op \<Rightarrow> push_bytecode ctx h [opcode op])
     }
   }"
| "visit_node_logical ctx h ty left right = do {
     (ret, ctx, h) \<leftarrow> recursive_visit_gen_bytecode ctx h left;
     if ret \<noteq> 0 then Some (ret, ctx, h)
     else do {
       (ret, ctx, h) \<leftarrow> push_cast ctx h (op_data_type left);
       if ret \<noteq> 0 then Some (ret, ctx, h)
       else if ty \<noteq> AST_OP_AND \<and> ty \<noteq> AST_OP_OR then Some (- EINVAL, ctx, h)
       else do {
         fb \<leftarrow> bytecode ctx;
         (ret, fb, h, skip_offset_loc) \<leftarrow> bytecode_push_logical h fb
             (opcode (if ty = AST_OP_AND then FILTER_OP_AND else FILTER_OP_OR) # bytes_u16 (-1)) 1;
         let ctx = ctx\<lparr>bytecode := Some fb\<rparr>;
         if ret \<noteq> 0 then Some (ret, ctx, h)
         else do {
           (ret, ctx, h) \<leftarrow> recursive_visit_gen_bytecode ctx h right;
           if ret \<noteq> 0 then Some (ret, ctx, h)
           else do {
             (ret, ctx, h) \<leftarrow> push_cast ctx h (op_data_type right);
             if ret \<noteq> 0 then Some (ret, ctx, h)
             else do {
               fb \<leftarrow> bytecode ctx;
               let target_loc = (ucast (bytecode_get_len fb) :: u16);
               (ret, fb) \<leftarrow> bytecode_patch fb (bytes_u16 target_loc) skip_offset_loc;
               Some (ret, ctx\<lparr>bytecode := Some fb\<rparr>, h)
             }
           }
         }
       }
     }
   }"
  by pat_completeness auto
termination
  by (relation "measure (\<lambda>x. case x of
        Inl (Inl (ctx, h, op)) \<Rightarrow> 2 * size op
      | Inl (Inr (ctx, h, n)) \<Rightarrow> 2 * size n + 1
      | Inr (Inl (ctx, h, ty, n)) \<Rightarrow> 2 * size n + 1
      | Inr (Inr (Inl (ctx, h, ty, l, r))) \<Rightarrow> 2 * size l + 2 * size r + 1
      | Inr (Inr (Inr (ctx, h, ty, l, r))) \<Rightarrow> 2 * size l + 2 * size r + 1)") simp_all

definition filter_bytecode_free :: "filter_ctx option \<Rightarrow> heap \<Rightarrow> filter_ctx option \<times> heap" where
  "filter_bytecode_free ctx h =
     (case ctx of
        None \<Rightarrow> (None, h)
      | Some ctx \<Rightarrow>
          (Some (ctx\<lparr>bytecode := None, bytecode_reloc := None\<rparr>),
           c_free_opt (bytecode_reloc ctx) (c_free_opt (bytecode ctx) h)))"

text \<open>
  The context keeps the buffers of a call whose last push fails; the error path of the other failures
  releases them.
\<close>

definition filter_visitor_bytecode_generate :: "filter_ctx \<Rightarrow> heap \<Rightarrow> (int \<times> filter_ctx \<times> heap) run" where
  "filter_visitor_bytecode_generate ctx h = do {
     let (ret, fb, h) = bytecode_init h;
     let ctx = ctx\<lparr>bytecode := fb\<rparr>;
     if ret \<noteq> 0 then Some (ret, ctx, h)
     else do {
       let (ret, fb, h) = bytecode_init h;
       let ctx = ctx\<lparr>bytecode_reloc := fb\<rparr>;
       (ret, ctx, h) \<leftarrow>
         (if ret \<noteq> 0 then Some (ret, ctx, h)
          else do { root \<leftarrow> ir_root ctx; recursive_visit_gen_bytecode ctx h root });
       if ret \<noteq> 0 then do {
         let (ctx, h) = filter_bytecode_free (Some ctx) h;
         ctx \<leftarrow> ctx;
         Some (ret, ctx, h)
       }
       else do {
         fb \<leftarrow> bytecode ctx;
         let ctx = ctx\<lparr>bytecode := Some (fb\<lparr>bc_reloc_table_offset := bytecode_get_len fb\<rparr>)\<rparr>;
         rb \<leftarrow> bytecode_reloc ctx;
         c_assert (unat (bytecode_get_len rb) \<le> length (bc_data rb));
         push_bytecode ctx h (take (unat (bytecode_get_len rb)) (bc_data rb))
       }
     }
   }"

end
