(* ===== verification/Filter_Codegen.thy ===== *)
theory Filter_Codegen
  imports Filter_Bytecode
begin

text \<open>
  Correctness of the filter bytecode generator: the buffer as a growing byte sequence, the compiler to
  instructions that specifies the visitors, the encoding of instructions, and the theorem that the
  visitors write the encoding of the compiled code and the table of its references.
\<close>

unbundle bit_operations_syntax

section \<open>Growth\<close>

lemma lttng_fls_eq: "lttng_fls x = int (fls_u32 x)"
  by (auto simp: lttng_fls_def fls_u32_def fls_step_def Let_def)

lemma top_bit_set:
  fixes x :: u32
  assumes "2 ^ n \<le> unat x" "unat x < 2 ^ Suc n"
  shows "bit x n"
proof -
  have "unat x div 2 ^ n = 1" using assms by (intro div_nat_eqI) auto
  then have "bit (unat x) n" unfolding bit_iff_odd by simp
  then show ?thesis by (simp add: bit_unsigned_iff)
qed

lemma and_pred_pos:
  fixes x :: u32
  assumes "2 ^ n < unat x" "unat x < 2 ^ Suc n"
  shows "x AND (x - 1) \<noteq> 0"
proof -
  have "x \<noteq> 0" using assms(1) by auto
  then have "unat (x - 1) = unat x - 1" by (rule unat_minus_1)
  then have "bit x n" "bit (x - 1) n" using assms by (auto intro!: top_bit_set)
  then have "bit (x AND (x - 1)) n" by (simp add: bit_and_iff)
  then show ?thesis by auto
qed

text \<open>The next power of two of a length below 2^31 does not overflow, and is below twice the length.\<close>

lemma count_order_grow:
  assumes "c \<noteq> 0" "unat c < 2 ^ 31"
  shows "0 \<le> get_count_order c \<and> get_count_order c < 32 \<and> unat c \<le> 2 ^ nat (get_count_order c) \<and>
    2 ^ nat (get_count_order c) < 2 * unat c"
proof -
  let ?r = "fls_u32 c"
  have r: "0 < ?r" "2 ^ (?r - 1) \<le> unat c" "unat c < 2 ^ ?r" using fls_u32_bounds[OF assms(1)] by auto
  then obtain q where q: "?r = Suc q" by (cases ?r) auto
  have "(2 :: nat) ^ q < 2 ^ 31" using r(2) q assms(2) by simp
  then have q31: "q < 31" by (simp only: power_strict_increasing_iff)
  show ?thesis
  proof (cases "c AND (c - 1) = 0")
    case True
    then have "unat c = 2 ^ q" using and_pred_pos[of q c] r q by (cases "unat c = 2 ^ q") auto
    then show ?thesis using True q q31 by (simp add: get_count_order_def lttng_fls_eq)
  next
    case False
    have "unat c \<noteq> 2 ^ q"
    proof
      assume c: "unat c = 2 ^ q"
      have "c = of_nat (unat c)" by simp
      then have "c = 2 ^ q" unfolding c by simp
      moreover have "(2 ^ q :: u32) AND mask q = 0" by (rule bit_word_eqI) (auto simp: bit_simps)
      ultimately have "c AND (c - 1) = 0" by (simp add: mask_eq_exp_minus_1)
      with False show False by simp
    qed
    with r q have "2 ^ q < unat c" by simp
    then show ?thesis using False q q31 r by (simp add: get_count_order_def lttng_fls_eq nat_add_distrib)
  qed
qed

section \<open>The buffer holds a byte sequence\<close>

definition holds :: "filter_bytecode \<Rightarrow> byte list \<Rightarrow> bool" where
  "holds fb P \<longleftrightarrow> unat (bc_len fb) = length P \<and> length P \<le> 65536 \<and> length P \<le> length (bc_data fb) \<and>
     take (length P) (bc_data fb) = P \<and> unat (bc_alloc_len fb) = 52 + length (bc_data fb) \<and>
     length (bc_data fb) < 2 ^ 18"

lemma bytecode_init_holds:
  "bytecode_init h = (ret, fb, h') \<Longrightarrow>
    (ret = 0 \<and> live h' = live h + 1 \<and> (\<exists>b. fb = Some b \<and> holds b [] \<and> bc_reloc_table_offset b = 0) \<or>
     ret = - ENOMEM \<and> fb = None \<and> live h' = live h \<and> outcomes h \<noteq> []) \<and>
    (outcomes h = [] \<longrightarrow> outcomes h' = [])"
  by (auto simp: bytecode_init_def Let_def holds_def split: prod.splits if_splits dest!: zmalloc_outcome)

lemma c_realloc_outcome: "c_realloc h = (ok, h') \<Longrightarrow> live h' = live h \<and> (outcomes h = [] \<longrightarrow> ok \<and> outcomes h' = [])"
  by (auto simp: c_realloc_def split: list.splits)

lemma offset_align_1: "offset_align x 1 = Some 0"
  by (simp add: offset_align_def)

text \<open>
  Outcome of an operation that adds \<open>bs\<close>: it succeeds, or it fails and leaves the buffer as it was
  because the result is too long or memory is exhausted.
\<close>

definition grown :: "heap \<Rightarrow> filter_bytecode \<Rightarrow> byte list \<Rightarrow> nat \<Rightarrow> int \<times> filter_bytecode \<times> heap \<Rightarrow> bool" where
  "grown h fb P n r \<longleftrightarrow> (case r of (ret, fb', h') \<Rightarrow>
     live h' = live h \<and> (outcomes h = [] \<longrightarrow> outcomes h' = []) \<and>
     bc_reloc_table_offset fb' = bc_reloc_table_offset fb \<and>
     (if ret < 0 then fb' = fb \<and> (ret = - EINVAL \<and> 65536 < length P + n \<or> ret = - ENOMEM \<and> outcomes h \<noteq> [])
      else ret = int (length P) \<and> length P + n \<le> 65536 \<and> unat (bc_len fb') = length P + n \<and>
        length P + n \<le> length (bc_data fb') \<and> take (length P) (bc_data fb') = P \<and>
        unat (bc_alloc_len fb') = 52 + length (bc_data fb') \<and> length (bc_data fb') < 2 ^ 18))"

lemma new_len:
  assumes "holds fb P" "n < 2 ^ 31"
  shows "unat (bc_len fb + of_nat n) = length P + n" "unat (52 + (bc_len fb + of_nat n)) = 52 + (length P + n)"
    "uint (bc_len fb) = int (length P)"
proof -
  have n: "unat (of_nat n :: u32) = n" using assms(2) by (intro unat_of_nat_u32) simp
  then show l: "unat (bc_len fb + of_nat n) = length P + n"
    using assms by (subst unat_plus_if') (simp add: holds_def)
  show "unat (52 + (bc_len fb + of_nat n)) = 52 + (length P + n)"
    using assms l by (subst unat_plus_if') (simp add: holds_def)
  have "uint (bc_len fb) = int (unat (bc_len fb))" by simp
  then show "uint (bc_len fb) = int (length P)" using assms(1) by (simp add: holds_def del: of_nat_unat)
qed

lemma reserve_fits:
  assumes "holds fb P" "length P + n \<le> length (bc_data fb)" "length P + n \<le> 65536"
  shows "\<exists>r. bytecode_reserve h fb 1 (of_nat n) = Some r \<and> grown h fb P n r"
proof -
  have "n < 2 ^ 31" using assms(3) by simp
  from new_len[OF assms(1) this] assms show ?thesis
    by (simp add: bytecode_reserve_def offset_align_1 grown_def holds_def word_less_nat_alt)
qed

lemma reserve_too_long:
  assumes "holds fb P" "65536 < length P + n" "n < 2 ^ 31"
  shows "\<exists>r. bytecode_reserve h fb 1 (of_nat n) = Some r \<and> grown h fb P n r"
  using new_len[OF assms(1,3)] assms
  by (simp add: bytecode_reserve_def offset_align_1 grown_def holds_def word_less_nat_alt)

lemma reserve_grows:
  assumes "holds fb P" "length (bc_data fb) < length P + n" "length P + n \<le> 65536"
  shows "\<exists>r. bytecode_reserve h fb 1 (of_nat n) = Some r \<and> grown h fb P n r"
proof -
  let ?c = "52 + (bc_len fb + of_nat n)" and ?old = "bc_alloc_len fb"
  let ?o = "get_count_order ?c"
  let ?new = "max (push_bit (nat ?o) 1) (push_bit 1 ?old) :: u32"
  have n31: "n < 2 ^ 31" using assms(3) by simp
  note nl = new_len[OF assms(1) n31]
  have old: "unat ?old = 52 + length (bc_data fb)" using assms(1) by (simp add: holds_def)
  have c0: "?c \<noteq> 0"
  proof
    assume "?c = 0"
    then have "unat ?c = 0" by (simp only: unat_0)
    with nl(2) show False by simp
  qed
  have o: "0 \<le> ?o" "?o < 32" "unat ?c \<le> 2 ^ nat ?o" "2 ^ nat ?o < 2 * unat ?c"
    using count_order_grow[OF c0] nl(2) assms(3) by auto
  have p1: "unat (push_bit (nat ?o) 1 :: u32) = 2 ^ nat ?o"
    using o(1,2) by (simp add: unsigned_push_bit_eq push_bit_nat_def take_bit_nat_eq_self nat_less_iff
        del: push_bit_of_1)
  have p2: "unat (push_bit 1 ?old) = 2 * unat ?old"
    using old assms by (simp add: unat_word_ariths)
  have new: "unat ?new = max (2 ^ nat ?o) (2 * unat ?old)"
    using p1 p2 by (simp add: max_def word_le_nat_alt)
  then have ge: "unat ?c \<le> unat ?new" "unat ?old \<le> unat ?new" "unat ?new < 2 ^ 18"
    using o(3,4) nl(2) old assms by auto
  then have diff: "unat (?new - ?old) = unat ?new - unat ?old" by (simp add: unat_sub word_le_nat_alt)
  obtain ok h' where r: "c_realloc h = (ok, h')" by (cases "c_realloc h")
  note ro = c_realloc_outcome[OF r]
  have gt: "?c > ?old" "\<not> bc_len fb + of_nat n > 65536"
    using nl old assms by (auto simp: word_less_nat_alt)
  show ?thesis
  proof (cases ok)
    case False
    then show ?thesis
      using gt r ro o(1,2) by (auto simp: bytecode_reserve_def offset_align_1 grown_def Let_def)
  next
    case True
    define N where "N = ?new"
    have "bytecode_reserve h fb 1 (of_nat n) = Some (int (length P),
        fb\<lparr>bc_data := bc_data fb @ replicate (unat (N - ?old)) 0, bc_alloc_len := N,
           bc_len := bc_len fb + of_nat n\<rparr>, h')"
      using gt r True o(1,2) nl(3) by (simp add: bytecode_reserve_def offset_align_1 Let_def N_def)
    moreover have "unat (N - ?old) = unat N - (52 + length (bc_data fb))" "52 + (length P + n) \<le> unat N"
      "unat N < 2 ^ 18" using diff old ge nl(2) by (simp_all add: N_def)
    ultimately show ?thesis using ro True nl(1) assms by (auto simp: grown_def holds_def)
  qed
qed

lemma reserve_grown:
  assumes "holds fb P" "n < 2 ^ 31"
  shows "\<exists>r. bytecode_reserve h fb 1 (of_nat n) = Some r \<and> grown h fb P n r"
  using reserve_fits[OF assms(1)] reserve_too_long[OF assms(1) _ assms(2)] reserve_grows[OF assms(1)]
  by (meson not_le)

text \<open>Why a store can fail: the sequence would be too long, or memory is exhausted.\<close>

definition store_error :: "heap \<Rightarrow> int \<Rightarrow> nat \<Rightarrow> bool" where
  "store_error h ret n \<longleftrightarrow> ret = - EINVAL \<and> 65536 < n \<or> ret = - ENOMEM \<and> outcomes h \<noteq> []"

definition pushed :: "heap \<Rightarrow> filter_bytecode \<Rightarrow> byte list \<Rightarrow> int \<times> filter_bytecode \<times> heap \<Rightarrow> bool" where
  "pushed h fb P r \<longleftrightarrow> (case r of (ret, fb', h') \<Rightarrow>
     live h' = live h \<and> (outcomes h = [] \<longrightarrow> outcomes h' = []) \<and>
     bc_reloc_table_offset fb' = bc_reloc_table_offset fb \<and>
     (if ret = 0 then holds fb' P else fb' = fb \<and> store_error h ret (length P)))"

lemma put_holds:
  assumes "unat (bc_len fb) = length P + length bs" "length P + length bs \<le> 65536"
    and "length P + length bs \<le> length (bc_data fb)" "take (length P) (bc_data fb) = P"
    and "unat (bc_alloc_len fb) = 52 + length (bc_data fb)" "length (bc_data fb) < 2 ^ 18"
  shows "\<exists>fb'. put fb (length P) bs = Some fb' \<and> holds fb' (P @ bs) \<and>
    bc_reloc_table_offset fb' = bc_reloc_table_offset fb"
  using assms by (auto simp: put_def holds_def)

lemma push_pushed:
  assumes "holds fb P" "length bs < 2 ^ 31"
  shows "\<exists>r. bytecode_push h fb bs 1 = Some r \<and> pushed h fb (P @ bs) r"
proof -
  obtain ret fb' h' where r: "bytecode_reserve h fb 1 (of_nat (length bs)) = Some (ret, fb', h')"
    and g: "grown h fb P (length bs) (ret, fb', h')"
    using reserve_grown[OF assms, of h] by auto
  show ?thesis
  proof (cases "ret < 0")
    case True
    with r g show ?thesis by (auto simp: bytecode_push_def grown_def pushed_def store_error_def)
  next
    case False
    with g obtain fb'' where "put fb' (length P) bs = Some fb''" "holds fb'' (P @ bs)"
      "bc_reloc_table_offset fb'' = bc_reloc_table_offset fb'"
      using put_holds[of fb' P bs] by (auto simp: grown_def)
    with False r g show ?thesis by (auto simp: bytecode_push_def grown_def pushed_def)
  qed
qed

lemma push_logical_pushed:
  assumes "holds fb P" "length bs < 2 ^ 31"
  shows "\<exists>ret fb' h' loc. bytecode_push_logical h fb bs 1 = Some (ret, fb', h', loc) \<and>
    pushed h fb (P @ bs) (ret, fb', h') \<and> (ret = 0 \<longrightarrow> loc = of_nat (length P + 1))"
proof -
  obtain ret fb' h' where r: "bytecode_reserve h fb 1 (of_nat (length bs)) = Some (ret, fb', h')"
    and g: "grown h fb P (length bs) (ret, fb', h')"
    using reserve_grown[OF assms, of h] by auto
  show ?thesis
  proof (cases "ret < 0")
    case True
    with r g show ?thesis by (auto simp: bytecode_push_logical_def grown_def pushed_def store_error_def)
  next
    case False
    with g obtain fb'' where "put fb' (length P) bs = Some fb''" "holds fb'' (P @ bs)"
      "bc_reloc_table_offset fb'' = bc_reloc_table_offset fb'"
      using put_holds[of fb' P bs] by (auto simp: grown_def)
    with False r g show ?thesis by (auto simp: bytecode_push_logical_def grown_def pushed_def)
  qed
qed

lemma patch_holds:
  assumes "holds fb (A @ old @ B)" "length bs = length old" "old \<noteq> []" "length A < 65536"
  shows "\<exists>fb'. bytecode_patch fb bs (of_nat (length A)) = Some (0, fb') \<and> holds fb' (A @ bs @ B) \<and>
    bc_reloc_table_offset fb' = bc_reloc_table_offset fb"
proof -
  have a: "unat (of_nat (length A) :: u16) = length A" using assms(4) by (simp add: unat_of_nat)
  then have u: "unat (ucast (of_nat (length A) :: u16) :: u32) = length A"
    using assms(4) by (simp add: unsigned_ucast_eq take_bit_nat_eq_self)
  obtain R where R: "bc_data fb = A @ old @ B @ R"
    using assms(1) append_take_drop_id[of "length (A @ old @ B)" "bc_data fb"]
    by (metis append_assoc holds_def)
  have "0 < length old" using assms(3) by simp
  then show ?thesis
    using assms(1,2) a u R by (simp add: bytecode_patch_def put_def holds_def word_le_nat_alt)
qed

section \<open>Instructions\<close>

text \<open>
  Instructions without operand, loads with their immediate bytes, and logical operators with the
  absolute offset they skip to.
\<close>

datatype insn = Op filter_op | Imm filter_op "byte list" | Jump filter_op nat

fun encode :: "insn \<Rightarrow> byte list" where
  "encode (Op op) = [opcode op]"
| "encode (Imm op bs) = opcode op # bs"
| "encode (Jump op t) = opcode op # bytes_u16 (of_nat t)"

definition code :: "insn list \<Rightarrow> byte list" where
  "code is = concat (map encode is)"

lemma code_simps [simp]:
  "code [] = []" "code (i # is) = encode i @ code is" "code (is @ js) = code is @ code js"
  by (simp_all add: code_def)

fun cast_code :: "ir_op \<Rightarrow> insn list" where
  "cast_code op = (case cast_operand (op_data_type op) of None \<Rightarrow> [] | Some c \<Rightarrow> [Op c])"

fun load_code :: "ir_common \<Rightarrow> ir_op_load \<Rightarrow> insn" where
  "load_code c (Load_string ty s) =
     Imm (if ty = IR_LOAD_STRING_TYPE_GLOB_STAR then FILTER_OP_LOAD_STAR_GLOB_STRING else FILTER_OP_LOAD_STRING) (s @ [0])"
| "load_code c (Load_num v) = Imm FILTER_OP_LOAD_S64 (bytes_u64 v)"
| "load_code c (Load_flt v) = Imm FILTER_OP_LOAD_DOUBLE (bytes_u64 v)"
| "load_code c (Load_ref s) =
     Imm (if data_type c = IR_DATA_FIELD_REF then FILTER_OP_LOAD_FIELD_REF else FILTER_OP_GET_CONTEXT_REF) (bytes_u16 (-1))"

text \<open>The code of an operation that starts at offset \<open>k\<close>.\<close>

fun compile :: "nat \<Rightarrow> ir_op \<Rightarrow> insn list" where
  "compile k (IR_OP_UNKNOWN c) = []"
| "compile k (IR_OP_ROOT c n) = compile k n @ [Op FILTER_OP_RETURN]"
| "compile k (IR_OP_LOAD c l) = [load_code c l]"
| "compile k (IR_OP_UNARY c ty n) = compile k n @
     (case ty of AST_UNARY_MINUS \<Rightarrow> [Op FILTER_OP_UNARY_MINUS] | AST_UNARY_NOT \<Rightarrow> [Op FILTER_OP_UNARY_NOT] | _ \<Rightarrow> [])"
| "compile k (IR_OP_BINARY c ty l r) =
     (let cl = compile k l; cr = compile (k + length (code cl)) r in
      cl @ cr @ (case binary_opcode ty of None \<Rightarrow> [] | Some op \<Rightarrow> [Op op]))"
| "compile k (IR_OP_LOGICAL c ty l r) =
     (let cl = compile k l @ cast_code l; k' = k + length (code cl) + 3; cr = compile k' r @ cast_code r in
      cl @ [Jump (if ty = AST_OP_AND then FILTER_OP_AND else FILTER_OP_OR) (k' + length (code cr))] @ cr)"

text \<open>The references of an operation that starts at offset \<open>k\<close>: where they are and their names.\<close>

fun references :: "nat \<Rightarrow> ir_op \<Rightarrow> (nat \<times> byte list) list" where
  "references k (IR_OP_UNKNOWN c) = []"
| "references k (IR_OP_ROOT c n) = references k n"
| "references k (IR_OP_LOAD c l) = (case l of Load_ref s \<Rightarrow> [(k, s)] | _ \<Rightarrow> [])"
| "references k (IR_OP_UNARY c ty n) = references k n"
| "references k (IR_OP_BINARY c ty l r) =
     references k l @ references (k + length (code (compile k l))) r"
| "references k (IR_OP_LOGICAL c ty l r) =
     references k l @ references (k + length (code (compile k l @ cast_code l)) + 3) r"

definition table :: "(nat \<times> byte list) list \<Rightarrow> byte list" where
  "table rs = concat (map (\<lambda>(k, s). bytes_u16 (of_nat k) @ s @ [0]) rs)"

lemma table_simps [simp]:
  "table [] = []" "table (x # rs) = bytes_u16 (of_nat (fst x)) @ snd x @ [0] @ table rs"
  "table (rs @ rs') = table rs @ table rs'"
  by (simp_all add: table_def split: prod.splits)

text \<open>Operations whose strings are below 2 GiB.\<close>

fun short_strings :: "ir_op \<Rightarrow> bool" where
  "short_strings (IR_OP_UNKNOWN c) = True"
| "short_strings (IR_OP_ROOT c n) = short_strings n"
| "short_strings (IR_OP_LOAD c l) =
     (case l of Load_string ty s \<Rightarrow> length s + 2 < 2 ^ 31 | Load_ref s \<Rightarrow> length s + 2 < 2 ^ 31 | _ \<Rightarrow> True)"
| "short_strings (IR_OP_UNARY c ty n) = short_strings n"
| "short_strings (IR_OP_BINARY c ty l r) = (short_strings l \<and> short_strings r)"
| "short_strings (IR_OP_LOGICAL c ty l r) = (short_strings l \<and> short_strings r)"

section \<open>Sequences of stores\<close>

definition ctx_holds :: "filter_ctx \<Rightarrow> byte list \<Rightarrow> byte list \<Rightarrow> bool" where
  "ctx_holds ctx P R \<longleftrightarrow> (\<exists>fb rb. bytecode ctx = Some fb \<and> holds fb P \<and>
     bytecode_reloc ctx = Some rb \<and> holds rb R)"

text \<open>The visitor's result when it was to leave the code \<open>P\<close> and the table \<open>R\<close>.\<close>

definition emitted :: "filter_ctx \<Rightarrow> heap \<Rightarrow> byte list \<Rightarrow> byte list \<Rightarrow> int \<times> filter_ctx \<times> heap \<Rightarrow> bool" where
  "emitted ctx h P R r \<longleftrightarrow> (case r of (ret, ctx', h') \<Rightarrow>
     live h' = live h \<and> (outcomes h = [] \<longrightarrow> outcomes h' = []) \<and>
     ast ctx' = ast ctx \<and> ir_root ctx' = ir_root ctx \<and>
     (if ret = 0 then ctx_holds ctx' P R
      else (\<exists>Q S. ctx_holds ctx' Q S) \<and> store_error h ret (max (length P) (length R))))"

lemma emitted_done: "ctx_holds ctx P R \<Longrightarrow> emitted ctx h P R (0, ctx, h)"
  by (simp add: emitted_def)

lemma ctx_holds_update:
  "bytecode_reloc ctx = Some rb \<Longrightarrow> holds rb R \<Longrightarrow> holds fb P \<Longrightarrow> ctx_holds (ctx\<lparr>bytecode := Some fb\<rparr>) P R"
  "bytecode ctx = Some fb \<Longrightarrow> holds fb P \<Longrightarrow> holds rb R \<Longrightarrow> ctx_holds (ctx\<lparr>bytecode_reloc := Some rb\<rparr>) P R"
  by (simp_all add: ctx_holds_def)

lemma emitted_push:
  assumes "ctx_holds ctx P R" "length bs < 2 ^ 31"
  shows "\<exists>r. push_bytecode ctx h bs = Some r \<and> emitted ctx h (P @ bs) R r"
proof -
  obtain fb rb where b: "bytecode ctx = Some fb" "holds fb P" "bytecode_reloc ctx = Some rb" "holds rb R"
    using assms(1) by (auto simp: ctx_holds_def)
  obtain ret fb' h' where "bytecode_push h fb bs 1 = Some (ret, fb', h')" "pushed h fb (P @ bs) (ret, fb', h')"
    using push_pushed[OF b(2) assms(2), of h] by auto
  with b show ?thesis
    by (auto simp: push_bytecode_def pushed_def emitted_def store_error_def intro: ctx_holds_update)
qed

lemma emitted_push_reloc:
  assumes "ctx_holds ctx P R" "length bs < 2 ^ 31"
  shows "\<exists>r. push_reloc ctx h bs = Some r \<and> emitted ctx h P (R @ bs) r"
proof -
  obtain fb rb where b: "bytecode ctx = Some fb" "holds fb P" "bytecode_reloc ctx = Some rb" "holds rb R"
    using assms(1) by (auto simp: ctx_holds_def)
  obtain ret rb' h' where "bytecode_push h rb bs 1 = Some (ret, rb', h')" "pushed h rb (R @ bs) (ret, rb', h')"
    using push_pushed[OF b(4) assms(2), of h] by auto
  with b show ?thesis
    by (auto simp: push_reloc_def pushed_def emitted_def store_error_def intro: ctx_holds_update)
qed

lemma emitted_seq:
  assumes "\<exists>r. f = Some r \<and> emitted ctx h P1 R1 r"
    and "\<And>ctx1 h1. ctx_holds ctx1 P1 R1 \<Longrightarrow> \<exists>r. g ctx1 h1 = Some r \<and> emitted ctx1 h1 P2 R2 r"
    and "length P1 \<le> length P2" "length R1 \<le> length R2"
  shows "\<exists>r. (do { (ret, ctx, h) \<leftarrow> f; if ret \<noteq> 0 then Some (ret, ctx, h) else g ctx h }) = Some r \<and>
    emitted ctx h P2 R2 r"
proof -
  obtain ret ctx1 h1 where f: "f = Some (ret, ctx1, h1)" "emitted ctx h P1 R1 (ret, ctx1, h1)"
    using assms(1) by auto
  show ?thesis
  proof (cases "ret = 0")
    case True
    then have "ctx_holds ctx1 P1 R1" using f(2) by (simp add: emitted_def)
    then obtain r where "g ctx1 h1 = Some r" "emitted ctx1 h1 P2 R2 r" using assms(2) by blast
    with f True show ?thesis by (auto simp: emitted_def store_error_def split: if_splits)
  next
    case False
    with f assms(3,4) show ?thesis by (auto simp: emitted_def store_error_def)
  qed
qed

lemma emitted_cast:
  "ctx_holds ctx P R \<Longrightarrow> \<exists>r. push_cast ctx h (op_data_type op) = Some r \<and> emitted ctx h (P @ code (cast_code op)) R r"
  using emitted_push[of ctx P R "[_]" h]
  by (auto simp: push_cast_def emitted_done simp del: split_paired_Ex split: option.splits)

text \<open>A temporary block around stores.\<close>

lemma emitted_release:
  assumes "zmalloc h = (True, h1)" "emitted ctx h1 P R (ret, ctx', h')"
  shows "emitted ctx h P R (ret, ctx', c_free h')"
  using zmalloc_outcome[OF assms(1)] assms(2) by (auto simp: emitted_def store_error_def split: if_splits)

lemma emitted_no_memory:
  assumes "zmalloc h = (False, h1)" "ctx_holds ctx Q S"
  shows "emitted ctx h P R (- ENOMEM, ctx, h1)"
  using zmalloc_outcome[OF assms(1)] assms(2) by (auto simp: emitted_def store_error_def)

lemma emitted_load:
  assumes "ctx_holds ctx P R" "length bs < 2 ^ 31"
  shows "\<exists>r. push_load ctx h bs = Some r \<and> emitted ctx h (P @ bs) R r"
proof (cases "zmalloc h")
  case (Pair ok h1)
  show ?thesis
  proof (cases ok)
    case True
    obtain ret ctx' h' where "push_bytecode ctx h1 bs = Some (ret, ctx', h')" "emitted ctx h1 (P @ bs) R (ret, ctx', h')"
      using emitted_push[OF assms, of h1] by auto
    with True Pair emitted_release show ?thesis by (auto simp: push_load_def)
  next
    case False
    with Pair emitted_no_memory[of h h1 ctx P R] assms(1) show ?thesis by (auto simp: push_load_def)
  qed
qed

lemma ctx_holds_len:
  assumes "ctx_holds ctx P R" "bytecode ctx = Some fb"
  shows "unat (bytecode_get_len fb) = length P" "(ucast (bytecode_get_len fb) :: u16) = of_nat (length P)"
proof -
  show l: "unat (bytecode_get_len fb) = length P" using assms by (auto simp: ctx_holds_def holds_def bytecode_get_len_def)
  have "(ucast (bytecode_get_len fb) :: u16) = of_nat (unat (bytecode_get_len fb))" by simp
  then show "(ucast (bytecode_get_len fb) :: u16) = of_nat (length P)" using l by simp
qed

lemma emitted_ref:
  assumes ctx: "ctx_holds ctx P R" and ref: "length ref + 2 < 2 ^ 31"
    and c: "data_type c = IR_DATA_FIELD_REF \<or> data_type c = IR_DATA_GET_CONTEXT_REF"
  shows "\<exists>r. visit_node_load ctx h c (Load_ref ref) = Some r \<and>
    emitted ctx h (P @ encode (load_code c (Load_ref ref))) (R @ table [(length P, ref)]) r"
proof (cases "zmalloc h")
  case (Pair ok h1)
  obtain fb where fb: "bytecode ctx = Some fb" using ctx by (auto simp: ctx_holds_def)
  note len = ctx_holds_len[OF ctx fb]
  let ?insn = "encode (load_code c (Load_ref ref))" and ?k = "bytes_u16 (of_nat (length P))"
  have rl: "take (unat (of_nat (length ref + 1) :: u32)) (ref @ [0]) = ref @ [0]"
    using ref by (subst unat_of_nat_u32) auto
  consider "\<not> ok" | "ok" "65535 < length P" | "ok" "length P \<le> 65535" by linarith
  then show ?thesis
  proof cases
    case 1
    with Pair emitted_no_memory[of h h1 ctx P R] ctx c show ?thesis by (auto simp: visit_node_load_def)
  next
    case 2
    then have "visit_node_load ctx h c (Load_ref ref) = Some (- EINVAL, ctx, c_free h1)"
      using Pair c fb len(1) by (auto simp: visit_node_load_def word_less_nat_alt)
    with 2 ctx Pair zmalloc_outcome[OF Pair] show ?thesis by (auto simp: emitted_def store_error_def)
  next
    case 3
    let ?block = "do {
      (ret, ctx, h) \<leftarrow> push_bytecode ctx h1 ?insn;
      if ret \<noteq> 0 then Some (ret, ctx, h)
      else do {
        (ret, ctx, h) \<leftarrow> push_reloc ctx h ?k;
        if ret \<noteq> 0 then Some (ret, ctx, h) else push_reloc ctx h (ref @ [0])
      }
    }"
    have "\<exists>r. ?block = Some r \<and> emitted ctx h1 (P @ ?insn) (R @ table [(length P, ref)]) r"
    proof (rule emitted_seq[OF emitted_push[OF ctx, of ?insn h1]])
      show "\<exists>r. (do { (ret, ctx, h) \<leftarrow> push_reloc ctx1 h2 ?k;
          if ret \<noteq> 0 then Some (ret, ctx, h) else push_reloc ctx h (ref @ [0]) }) = Some r \<and>
          emitted ctx1 h2 (P @ ?insn) (R @ table [(length P, ref)]) r"
        if "ctx_holds ctx1 (P @ ?insn) R" for ctx1 h2
        by (rule emitted_seq[OF emitted_push_reloc[OF that, of ?k h2]])
          (use ref emitted_push_reloc[of _ "P @ ?insn" "R @ ?k" "ref @ [0]"] in auto)
    qed auto
    then obtain ret ctx' h' where b: "?block = Some (ret, ctx', h')"
      "emitted ctx h1 (P @ ?insn) (R @ table [(length P, ref)]) (ret, ctx', h')" by auto
    have "visit_node_load ctx h c (Load_ref ref) = Option.bind ?block (\<lambda>(ret, ctx, h). Some (ret, ctx, c_free h))"
      using 3 Pair c fb len rl
      by (auto simp: visit_node_load_def word_less_nat_alt Let_def split: bind_splits prod.splits)
    with b emitted_release[OF _ b(2)] Pair 3(1) show ?thesis by auto
  qed
qed

text \<open>What the visitor of an operation must leave when it starts from the code \<open>P\<close> and the table \<open>R\<close>.\<close>

abbreviation compiled :: "ir_op \<Rightarrow> byte list \<Rightarrow> byte list" where
  "compiled op P \<equiv> P @ code (compile (length P) op)"

abbreviation tabled :: "ir_op \<Rightarrow> byte list \<Rightarrow> byte list \<Rightarrow> byte list" where
  "tabled op P R \<equiv> R @ table (references (length P) op)"

lemma visit_load:
  assumes "ctx_holds ctx P R" "expr_ok (IR_OP_LOAD c l)" "short_strings (IR_OP_LOAD c l)"
  shows "\<exists>r. visit_node_load ctx h c l = Some r \<and>
    emitted ctx h (compiled (IR_OP_LOAD c l) P) (tabled (IR_OP_LOAD c l) P R) r"
proof (cases l)
  case (Load_string ty s)
  have "\<exists>r. push_load ctx h (encode (load_code c l)) = Some r \<and> emitted ctx h (P @ encode (load_code c l)) R r"
    using emitted_load[OF assms(1)] assms(3) Load_string by simp
  then show ?thesis using assms Load_string
    by (auto simp: visit_node_load_def simp del: split_paired_Ex split: ir_load_string_type.splits)
next
  case (Load_num v)
  then show ?thesis using assms emitted_load[OF assms(1), of "opcode FILTER_OP_LOAD_S64 # bytes_u64 v" h]
    by (auto simp: visit_node_load_def simp del: split_paired_Ex)
next
  case (Load_flt v)
  then show ?thesis using assms emitted_load[OF assms(1), of "opcode FILTER_OP_LOAD_DOUBLE # bytes_u64 v" h]
    by (auto simp: visit_node_load_def simp del: split_paired_Ex)
next
  case (Load_ref ref)
  then show ?thesis using assms emitted_ref[OF assms(1), of ref c h] by simp
qed

lemma visit_unary:
  assumes "ctx_holds ctx P R" "ty \<in> {AST_UNARY_PLUS, AST_UNARY_MINUS, AST_UNARY_NOT}"
    and "\<exists>r. recursive_visit_gen_bytecode ctx h n = Some r \<and> emitted ctx h (compiled n P) (tabled n P R) r"
  shows "\<exists>r. visit_node_unary ctx h ty n = Some r \<and>
    emitted ctx h (compiled (IR_OP_UNARY c ty n) P) (tabled (IR_OP_UNARY c ty n) P R) r"
  unfolding visit_node_unary.simps
proof (rule emitted_seq[OF assms(3)])
  fix ctx1 h1 assume c1: "ctx_holds ctx1 (compiled n P) (tabled n P R)"
  show "\<exists>r. (case ty of AST_UNARY_PLUS \<Rightarrow> Some (0, ctx1, h1)
       | AST_UNARY_MINUS \<Rightarrow> push_bytecode ctx1 h1 [opcode FILTER_OP_UNARY_MINUS]
       | AST_UNARY_NOT \<Rightarrow> push_bytecode ctx1 h1 [opcode FILTER_OP_UNARY_NOT]
       | _ \<Rightarrow> Some (- EINVAL, ctx1, h1)) = Some r \<and>
      emitted ctx1 h1 (compiled (IR_OP_UNARY c ty n) P) (tabled (IR_OP_UNARY c ty n) P R) r"
    using assms(2) emitted_push[OF c1, of "[_]" h1] emitted_done[OF c1]
    by (auto simp del: split_paired_Ex)
qed auto

lemma visit_binary:
  assumes "ctx_holds ctx P R" "comparator ty"
    and l: "\<exists>r. recursive_visit_gen_bytecode ctx h l = Some r \<and> emitted ctx h (compiled l P) (tabled l P R) r"
    and r: "\<And>ctx h P R. ctx_holds ctx P R \<Longrightarrow>
      \<exists>x. recursive_visit_gen_bytecode ctx h r = Some x \<and> emitted ctx h (compiled r P) (tabled r P R) x"
  shows "\<exists>x. visit_node_binary ctx h ty l r = Some x \<and>
    emitted ctx h (compiled (IR_OP_BINARY c ty l r) P) (tabled (IR_OP_BINARY c ty l r) P R) x"
proof -
  obtain op where op: "binary_opcode ty = Some op" using assms(2) by (auto simp: comparator_def)
  let ?P = "compiled (IR_OP_BINARY c ty l r) P" and ?R = "tabled (IR_OP_BINARY c ty l r) P R"
  show ?thesis
    unfolding visit_node_binary.simps
  proof (rule emitted_seq[OF l])
    fix ctx1 h1 assume c1: "ctx_holds ctx1 (compiled l P) (tabled l P R)"
    show "\<exists>x. (do { (ret, ctx, h) \<leftarrow> recursive_visit_gen_bytecode ctx1 h1 r;
        if ret \<noteq> 0 then Some (ret, ctx, h)
        else case binary_opcode ty of None \<Rightarrow> Some (- EINVAL, ctx, h) | Some op \<Rightarrow> push_bytecode ctx h [opcode op] }) =
        Some x \<and> emitted ctx1 h1 ?P ?R x"
    proof (rule emitted_seq[OF r[OF c1]])
      fix ctx2 h2 assume c2: "ctx_holds ctx2 (compiled r (compiled l P)) (tabled r (compiled l P) (tabled l P R))"
      show "\<exists>x. (case binary_opcode ty of None \<Rightarrow> Some (- EINVAL, ctx2, h2) | Some op \<Rightarrow> push_bytecode ctx2 h2 [opcode op]) =
          Some x \<and> emitted ctx2 h2 ?P ?R x"
        using emitted_push[OF c2, of "[opcode op]" h2] op by (simp add: Let_def add.assoc)
    qed (auto simp: Let_def op)
  qed (auto simp: Let_def)
qed

lemma emitted_from:
  assumes "emitted ctx1 h1 P R r" "ast ctx1 = ast ctx" "ir_root ctx1 = ir_root ctx" "live h1 = live h"
    and "outcomes h = [] \<longrightarrow> outcomes h1 = []"
  shows "emitted ctx h P R r"
  using assms by (auto simp: emitted_def store_error_def split: if_splits)

text \<open>The last step of a logical operator: the skip offset is patched with the end of the code.\<close>

lemma emitted_patch:
  assumes "ctx_holds ctx (A @ op # bytes_u16 w @ B) R" "length A + 1 < 65536"
  shows "\<exists>r. (do {
      fb \<leftarrow> bytecode ctx;
      let target_loc = (ucast (bytecode_get_len fb) :: u16);
      (ret, fb) \<leftarrow> bytecode_patch fb (bytes_u16 target_loc) (of_nat (length A + 1));
      Some (ret, ctx\<lparr>bytecode := Some fb\<rparr>, h)
    }) = Some r \<and> emitted ctx h (A @ op # bytes_u16 (of_nat (length A + 3 + length B)) @ B) R r"
proof -
  obtain fb rb where b: "bytecode ctx = Some fb" "holds fb (A @ op # bytes_u16 w @ B)"
    "bytecode_reloc ctx = Some rb" "holds rb R"
    using assms(1) by (auto simp: ctx_holds_def)
  have t: "(ucast (bytecode_get_len fb) :: u16) = of_nat (length A + 3 + length B)"
    using ctx_holds_len(2)[OF assms(1) b(1)] by (simp add: add.commute add.left_commute)
  let ?t = "bytes_u16 (of_nat (length A + 3 + length B))"
  have "holds fb ((A @ [op]) @ bytes_u16 w @ B)" using b(2) by simp
  moreover have "bytes_u16 w \<noteq> []" by (metis length_bytes(1) list.size(3) zero_neq_numeral length_0_conv)
  ultimately obtain fb' where fb': "bytecode_patch fb ?t (of_nat (length A + 1)) = Some (0, fb')"
    "holds fb' (A @ op # ?t @ B)"
    using patch_holds[of fb "A @ [op]" "bytes_u16 w" B ?t] assms(2) by auto
  have "emitted ctx h (A @ op # ?t @ B) R (0, ctx\<lparr>bytecode := Some fb'\<rparr>, h)"
    using ctx_holds_update(1)[OF b(3,4) fb'(2)] by (simp add: emitted_def)
  with fb'(1) b(1) t show ?thesis by (simp del: of_nat_add)
qed

text \<open>The part of the visitor of logical operators after the instruction itself.\<close>

definition visit_right :: "ir_op \<Rightarrow> u16 \<Rightarrow> filter_ctx \<Rightarrow> heap \<Rightarrow> (int \<times> filter_ctx \<times> heap) run" where
  "visit_right r loc ctx h = do {
     (ret, ctx, h) \<leftarrow> recursive_visit_gen_bytecode ctx h r;
     if ret \<noteq> 0 then Some (ret, ctx, h)
     else do {
       (ret, ctx, h) \<leftarrow> push_cast ctx h (op_data_type r);
       if ret \<noteq> 0 then Some (ret, ctx, h)
       else do {
         fb \<leftarrow> bytecode ctx;
         let target_loc = (ucast (bytecode_get_len fb) :: u16);
         (ret, fb) \<leftarrow> bytecode_patch fb (bytes_u16 target_loc) loc;
         Some (ret, ctx\<lparr>bytecode := Some fb\<rparr>, h)
       }
     }
   }"

lemma emitted_right:
  assumes ctx: "ctx_holds ctx (A @ op # bytes_u16 w) S" and fits: "length A + 1 < 65536"
    and r: "\<And>ctx h P R. ctx_holds ctx P R \<Longrightarrow>
      \<exists>x. recursive_visit_gen_bytecode ctx h r = Some x \<and> emitted ctx h (compiled r P) (tabled r P R) x"
    and B: "B = code (compile (length A + 3) r @ cast_code r)"
  shows "\<exists>x. visit_right r (of_nat (length A + 1)) ctx h = Some x \<and>
    emitted ctx h (A @ op # bytes_u16 (of_nat (length A + 3 + length B)) @ B) (S @ table (references (length A + 3) r)) x"
    (is "\<exists>x. _ \<and> emitted _ _ ?P ?R x")
proof -
  let ?A = "A @ op # bytes_u16 w"
  have lenA: "length ?A = length A + 3" by simp
  have len: "length (compiled r ?A) \<le> length ?P" "length (compiled r ?A @ code (cast_code r)) \<le> length ?P"
    unfolding B lenA by simp_all
  show ?thesis
    unfolding visit_right_def
  proof (rule emitted_seq[OF r[OF ctx]])
    fix ctx1 h1 assume c1: "ctx_holds ctx1 (compiled r ?A) (tabled r ?A S)"
    show "\<exists>x. (do {
        (ret, ctx, h) \<leftarrow> push_cast ctx1 h1 (op_data_type r);
        if ret \<noteq> 0 then Some (ret, ctx, h)
        else do {
          fb \<leftarrow> bytecode ctx;
          let target_loc = (ucast (bytecode_get_len fb) :: u16);
          (ret, fb) \<leftarrow> bytecode_patch fb (bytes_u16 target_loc) (of_nat (length A + 1));
          Some (ret, ctx\<lparr>bytecode := Some fb\<rparr>, h)
        }
      }) = Some x \<and> emitted ctx1 h1 ?P ?R x"
    proof (rule emitted_seq[OF emitted_cast[OF c1]])
      fix ctx2 h2 assume "ctx_holds ctx2 (compiled r ?A @ code (cast_code r)) (tabled r ?A S)"
      then have "ctx_holds ctx2 (A @ op # bytes_u16 w @ B) ?R" unfolding B lenA by simp
      from emitted_patch[OF this fits] show "\<exists>x. (do {
          fb \<leftarrow> bytecode ctx2;
          let target_loc = (ucast (bytecode_get_len fb) :: u16);
          (ret, fb) \<leftarrow> bytecode_patch fb (bytes_u16 target_loc) (of_nat (length A + 1));
          Some (ret, ctx2\<lparr>bytecode := Some fb\<rparr>, h2)
        }) = Some x \<and> emitted ctx2 h2 ?P ?R x" .
    qed (use len in \<open>auto simp: lenA\<close>)
  qed (use len in \<open>auto simp: lenA\<close>)
qed

text \<open>From the logical instruction on: \<open>A\<close> is the code of the left operand with its cast.\<close>

lemma emitted_logical:
  assumes ctx: "ctx_holds ctx A S"
    and r: "\<And>ctx h P R. ctx_holds ctx P R \<Longrightarrow>
      \<exists>x. recursive_visit_gen_bytecode ctx h r = Some x \<and> emitted ctx h (compiled r P) (tabled r P R) x"
    and B: "B = code (compile (length A + 3) r @ cast_code r)"
  shows "\<exists>x. (do {
      fb \<leftarrow> bytecode ctx;
      (ret, fb, h, loc) \<leftarrow> bytecode_push_logical h fb (op # bytes_u16 (-1)) 1;
      let ctx = ctx\<lparr>bytecode := Some fb\<rparr>;
      if ret \<noteq> 0 then Some (ret, ctx, h) else visit_right r loc ctx h
    }) = Some x \<and>
    emitted ctx h (A @ op # bytes_u16 (of_nat (length A + 3 + length B)) @ B) (S @ table (references (length A + 3) r)) x"
    (is "\<exists>x. _ \<and> emitted _ _ ?P ?R x")
proof -
  let ?A = "A @ op # bytes_u16 (-1)"
  obtain fb rb where b: "bytecode ctx = Some fb" "holds fb A" "bytecode_reloc ctx = Some rb" "holds rb S"
    using ctx by (auto simp: ctx_holds_def)
  obtain ret fb' h1 loc where p: "bytecode_push_logical h fb (op # bytes_u16 (-1)) 1 = Some (ret, fb', h1, loc)"
    "pushed h fb ?A (ret, fb', h1)" "ret = 0 \<longrightarrow> loc = of_nat (length A + 1)"
    using push_logical_pushed[OF b(2), of "op # bytes_u16 (-1)" h] by auto
  let ?ctx = "ctx\<lparr>bytecode := Some fb'\<rparr>"
  show ?thesis
  proof (cases "ret = 0")
    case False
    then have "emitted ctx h ?P ?R (ret, ?ctx, h1)"
      using p(2) b by (auto simp: emitted_def pushed_def store_error_def intro: ctx_holds_update)
    with False p(1) b(1) show ?thesis by (simp add: Let_def)
  next
    case True
    have c1: "ctx_holds ?ctx ?A S" and h1: "live h1 = live h" "outcomes h = [] \<longrightarrow> outcomes h1 = []"
      and fits: "length A + 1 < 65536"
      using p(2) True b(3,4) by (auto simp: pushed_def holds_def intro!: ctx_holds_update)
    obtain x where x: "visit_right r (of_nat (length A + 1)) ?ctx h1 = Some x" "emitted ?ctx h1 ?P ?R x"
      using emitted_right[OF c1 fits r B, of h1] by blast
    have "emitted ctx h ?P ?R x" by (rule emitted_from[OF x(2)]) (use h1 in auto)
    with x(1) p(1,3) True b(1) show ?thesis by (simp add: Let_def del: of_nat_add of_nat_Suc)
  qed
qed

lemma visit_node_logical_right:
  "visit_node_logical ctx h ty l r = do {
     (ret, ctx, h) \<leftarrow> recursive_visit_gen_bytecode ctx h l;
     if ret \<noteq> 0 then Some (ret, ctx, h)
     else do {
       (ret, ctx, h) \<leftarrow> push_cast ctx h (op_data_type l);
       if ret \<noteq> 0 then Some (ret, ctx, h)
       else if ty \<noteq> AST_OP_AND \<and> ty \<noteq> AST_OP_OR then Some (- EINVAL, ctx, h)
       else do {
         fb \<leftarrow> bytecode ctx;
         (ret, fb, h, loc) \<leftarrow> bytecode_push_logical h fb
             (opcode (if ty = AST_OP_AND then FILTER_OP_AND else FILTER_OP_OR) # bytes_u16 (-1)) 1;
         let ctx = ctx\<lparr>bytecode := Some fb\<rparr>;
         if ret \<noteq> 0 then Some (ret, ctx, h) else visit_right r loc ctx h
       }
     }
   }"
  by (simp only: visit_node_logical.simps visit_right_def)

lemma visit_logical:
  assumes "ctx_holds ctx P R" "logical ty"
    and l: "\<exists>r. recursive_visit_gen_bytecode ctx h l = Some r \<and> emitted ctx h (compiled l P) (tabled l P R) r"
    and r: "\<And>ctx h P R. ctx_holds ctx P R \<Longrightarrow>
      \<exists>x. recursive_visit_gen_bytecode ctx h r = Some x \<and> emitted ctx h (compiled r P) (tabled r P R) x"
  shows "\<exists>x. visit_node_logical ctx h ty l r = Some x \<and>
    emitted ctx h (compiled (IR_OP_LOGICAL c ty l r) P) (tabled (IR_OP_LOGICAL c ty l r) P R) x"
proof -
  let ?A = "compiled l P @ code (cast_code l)"
  let ?B = "code (compile (length ?A + 3) r @ cast_code r)"
  let ?op = "opcode (if ty = AST_OP_AND then FILTER_OP_AND else FILTER_OP_OR)"
  let ?P = "?A @ ?op # bytes_u16 (of_nat (length ?A + 3 + length ?B)) @ ?B"
  let ?R = "tabled l P R @ table (references (length ?A + 3) r)"
  have PR: "compiled (IR_OP_LOGICAL c ty l r) P = ?P" "tabled (IR_OP_LOGICAL c ty l r) P R = ?R"
    by (simp_all add: Let_def add.assoc)
  have ty': "\<not> (ty \<noteq> AST_OP_AND \<and> ty \<noteq> AST_OP_OR)" using assms(2) by (auto simp: logical_def)
  show ?thesis
    unfolding PR visit_node_logical_right
  proof (rule emitted_seq[OF l])
    fix ctx1 h1 assume c1: "ctx_holds ctx1 (compiled l P) (tabled l P R)"
    show "\<exists>x. (do {
       (ret, ctx, h) \<leftarrow> push_cast ctx1 h1 (op_data_type l);
       if ret \<noteq> 0 then Some (ret, ctx, h)
       else if ty \<noteq> AST_OP_AND \<and> ty \<noteq> AST_OP_OR then Some (- EINVAL, ctx, h)
       else do {
         fb \<leftarrow> bytecode ctx;
         (ret, fb, h, loc) \<leftarrow> bytecode_push_logical h fb (?op # bytes_u16 (-1)) 1;
         let ctx = ctx\<lparr>bytecode := Some fb\<rparr>;
         if ret \<noteq> 0 then Some (ret, ctx, h) else visit_right r loc ctx h
       } }) = Some x \<and> emitted ctx1 h1 ?P ?R x"
      unfolding if_not_P[OF ty']
      by (rule emitted_seq[OF emitted_cast[OF c1]]) (rule emitted_logical[OF _ r refl], auto)
  qed auto
qed

section \<open>The generator\<close>

lemma visit_expr:
  "expr_ok op \<Longrightarrow> short_strings op \<Longrightarrow> ctx_holds ctx P R \<Longrightarrow>
    \<exists>r. recursive_visit_gen_bytecode ctx h op = Some r \<and> emitted ctx h (compiled op P) (tabled op P R) r"
proof (induction op arbitrary: ctx h P R)
  case (IR_OP_LOAD c l)
  then show ?case using visit_load by simp
next
  case (IR_OP_UNARY c ty n)
  then show ?case using visit_unary[OF IR_OP_UNARY.prems(3), of ty h n c] by simp
next
  case (IR_OP_BINARY c ty l r)
  then show ?case using visit_binary[OF IR_OP_BINARY.prems(3), of ty h l r c] by simp
next
  case (IR_OP_LOGICAL c ty l r)
  then show ?case using visit_logical[OF IR_OP_LOGICAL.prems(3), of ty h l r c] by simp
qed simp_all

lemma visit_root:
  assumes "root_ok op" "short_strings op" "ctx_holds ctx P R"
  shows "\<exists>r. recursive_visit_gen_bytecode ctx h op = Some r \<and> emitted ctx h (compiled op P) (tabled op P R) r"
proof -
  obtain c n where op: "op = IR_OP_ROOT c n" "expr_ok n" using assms(1) by (cases op) auto
  have n: "short_strings n" using assms(2) op by simp
  have "\<exists>r. visit_node_root ctx h n = Some r \<and> emitted ctx h (compiled op P) (tabled op P R) r"
    unfolding visit_node_root.simps
  proof (rule emitted_seq[OF visit_expr[OF op(2) n assms(3)]])
    fix ctx1 h1 assume "ctx_holds ctx1 (compiled n P) (tabled n P R)"
    from emitted_push[OF this, of "[opcode FILTER_OP_RETURN]" h1]
    show "\<exists>r. push_bytecode ctx1 h1 [opcode FILTER_OP_RETURN] = Some r \<and>
        emitted ctx1 h1 (compiled op P) (tabled op P R) r" by (simp add: op(1))
  qed (auto simp: op(1))
  then show ?thesis by (simp add: op(1))
qed

text \<open>The bytes that a filter compiles to.\<close>

abbreviation filter_code :: "ir_op \<Rightarrow> byte list" where
  "filter_code op \<equiv> code (compile 0 op)"

abbreviation filter_table :: "ir_op \<Rightarrow> byte list" where
  "filter_table op \<equiv> table (references 0 op)"

definition generated :: "filter_ctx \<Rightarrow> heap \<Rightarrow> ir_op \<Rightarrow> int \<times> filter_ctx \<times> heap \<Rightarrow> bool" where
  "generated ctx h op r \<longleftrightarrow> (case r of (ret, ctx', h') \<Rightarrow>
     ast ctx' = ast ctx \<and> ir_root ctx' = ir_root ctx \<and>
     (if ret = 0 then
        (\<exists>fb rb. bytecode ctx' = Some fb \<and> holds fb (filter_code op @ filter_table op) \<and>
           unat (bc_reloc_table_offset fb) = length (filter_code op) \<and> bytecode_reloc ctx' = Some rb) \<and>
        live h' = live h + 2
      else store_error h ret (length (filter_code op @ filter_table op)) \<and>
        (bytecode ctx' = None \<and> live h' = live h \<and>
         store_error h ret (max (length (filter_code op)) (length (filter_table op))) \<or>
         (\<exists>fb rb. bytecode ctx' = Some fb \<and> bytecode_reloc ctx' = Some rb) \<and> live h' = live h + 2 \<and>
         length (filter_code op) \<le> 65536 \<and> length (filter_table op) \<le> 65536)))"

lemma generate_final:
  assumes "ctx_holds ctx C T"
  shows "\<exists>ret ctx' h'. (do {
      fb \<leftarrow> bytecode ctx;
      let ctx = ctx\<lparr>bytecode := Some (fb\<lparr>bc_reloc_table_offset := bytecode_get_len fb\<rparr>)\<rparr>;
      rb \<leftarrow> bytecode_reloc ctx;
      c_assert (unat (bytecode_get_len rb) \<le> length (bc_data rb));
      push_bytecode ctx h (take (unat (bytecode_get_len rb)) (bc_data rb))
    }) = Some (ret, ctx', h') \<and> live h' = live h \<and> ast ctx' = ast ctx \<and> ir_root ctx' = ir_root ctx \<and>
    length C \<le> 65536 \<and> length T \<le> 65536 \<and>
    (\<exists>fb rb. bytecode ctx' = Some fb \<and> bytecode_reloc ctx' = Some rb \<and>
      (if ret = 0 then holds fb (C @ T) \<and> unat (bc_reloc_table_offset fb) = length C
       else store_error h ret (length (C @ T))))"
proof -
  obtain fb rb where b: "bytecode ctx = Some fb" "holds fb C" "bytecode_reloc ctx = Some rb" "holds rb T"
    using assms by (auto simp: ctx_holds_def)
  let ?fb = "fb\<lparr>bc_reloc_table_offset := bytecode_get_len fb\<rparr>"
  have t: "take (unat (bytecode_get_len rb)) (bc_data rb) = T" "unat (bytecode_get_len rb) \<le> length (bc_data rb)"
    "length T < 2 ^ 31" using b(4) by (auto simp: holds_def bytecode_get_len_def)
  have fb: "holds ?fb C" "unat (bc_reloc_table_offset ?fb) = length C"
    using b(2) by (auto simp: holds_def bytecode_get_len_def)
  obtain ret fb' h' where p: "bytecode_push h ?fb T 1 = Some (ret, fb', h')" "pushed h ?fb (C @ T) (ret, fb', h')"
    using push_pushed[OF fb(1) t(3), of h] by auto
  have "length C \<le> 65536" "length T \<le> 65536" using b by (auto simp: holds_def)
  with p b t fb(2) show ?thesis
    by (auto simp: push_bytecode_def pushed_def Let_def)
qed

lemma bytecode_generate:
  assumes "ir_root ctx = Some op" "root_ok op" "short_strings op"
  shows "\<exists>r. filter_visitor_bytecode_generate ctx h = Some r \<and> generated ctx h op r"
proof -
  let ?C = "filter_code op" and ?T = "filter_table op"
  obtain ret1 fb h1 where i1: "bytecode_init h = (ret1, fb, h1)" by (cases "bytecode_init h")
  obtain ret2 rb h2 where i2: "bytecode_init h1 = (ret2, rb, h2)" by (cases "bytecode_init h1")
  note b1 = bytecode_init_holds[OF i1] and b2 = bytecode_init_holds[OF i2]
  consider "ret1 \<noteq> 0" | "ret1 = 0" "ret2 \<noteq> 0" | "ret1 = 0" "ret2 = 0" by blast
  then show ?thesis
  proof cases
    case 1
    with i1 b1 show ?thesis
      by (auto simp: filter_visitor_bytecode_generate_def generated_def store_error_def)
  next
    case 2
    with i1 i2 b1 b2 show ?thesis
      by (auto simp: filter_visitor_bytecode_generate_def generated_def store_error_def filter_bytecode_free_def Let_def)
  next
    case 3
    let ?ctx = "ctx\<lparr>bytecode := fb, bytecode_reloc := rb\<rparr>"
    have c: "ctx_holds ?ctx [] []" and h2: "live h2 = live h + 2" "outcomes h = [] \<longrightarrow> outcomes h2 = []"
      using 3 b1 b2 by (auto simp: ctx_holds_def)
    obtain ret ctx1 h3 where v: "recursive_visit_gen_bytecode ?ctx h2 op = Some (ret, ctx1, h3)"
      "emitted ?ctx h2 ?C ?T (ret, ctx1, h3)"
      using visit_root[OF assms(2,3) c, of h2] by auto
    show ?thesis
    proof (cases "ret = 0")
      case False
      obtain fb' rb' where "bytecode ctx1 = Some fb'" "bytecode_reloc ctx1 = Some rb'"
        using v(2) False by (auto simp: emitted_def ctx_holds_def)
      with False 3 i1 i2 v h2 assms(1) show ?thesis
        by (auto simp: filter_visitor_bytecode_generate_def generated_def filter_bytecode_free_def emitted_def
            store_error_def Let_def c_free_opt_def)
    next
      case True
      then have "ctx_holds ctx1 ?C ?T" using v(2) by (simp add: emitted_def)
      from generate_final[OF this, of h3] obtain ret' ctx' h' where f: "(do {
          fb \<leftarrow> bytecode ctx1;
          let ctx = ctx1\<lparr>bytecode := Some (fb\<lparr>bc_reloc_table_offset := bytecode_get_len fb\<rparr>)\<rparr>;
          rb \<leftarrow> bytecode_reloc ctx;
          c_assert (unat (bytecode_get_len rb) \<le> length (bc_data rb));
          push_bytecode ctx h3 (take (unat (bytecode_get_len rb)) (bc_data rb))
        }) = Some (ret', ctx', h')" "live h' = live h3" "ast ctx' = ast ctx1" "ir_root ctx' = ir_root ctx1"
        "length ?C \<le> 65536" "length ?T \<le> 65536"
        "\<exists>fb rb. bytecode ctx' = Some fb \<and> bytecode_reloc ctx' = Some rb \<and>
          (if ret' = 0 then holds fb (?C @ ?T) \<and> unat (bc_reloc_table_offset fb) = length ?C
           else store_error h3 ret' (length (?C @ ?T)))" by blast
      have "filter_visitor_bytecode_generate ctx h = Some (ret', ctx', h')"
        using True 3 i1 i2 v(1) f(1) assms(1) by (simp add: filter_visitor_bytecode_generate_def Let_def)
      moreover have "generated ctx h op (ret', ctx', h')"
        using f(2-7) v(2) h2 True by (auto simp: generated_def emitted_def store_error_def split: if_splits)
      ultimately show ?thesis by blast
    qed
  qed
qed

end
