(* ===== verification/Filter_Program.thy ===== *)
theory Filter_Program
  imports Filter_Codegen
begin

text \<open>
  What generated filter programs are: their jumps and their use of the two registers, the decoding of
  their bytes, and the whole compilation of a filter expression (\<open>generate_filter\<close> of
  \<open>src/lib/lttng-ctl/lttng-ctl.c\<close>).
\<close>

section \<open>Jumps and registers\<close>

text \<open>
  The number of values on the stack of the interpreter after an instruction: a load pushes one and
  needs a free register of the two, a binary operator combines both, the others work on the top.
\<close>

fun binary_filter_op :: "filter_op \<Rightarrow> bool" where
  "binary_filter_op op \<longleftrightarrow> op \<in> {FILTER_OP_MUL, FILTER_OP_DIV, FILTER_OP_MOD, FILTER_OP_PLUS, FILTER_OP_MINUS,
     FILTER_OP_RSHIFT, FILTER_OP_LSHIFT, FILTER_OP_BIN_AND, FILTER_OP_BIN_OR, FILTER_OP_BIN_XOR,
     FILTER_OP_EQ, FILTER_OP_NE, FILTER_OP_GT, FILTER_OP_LT, FILTER_OP_GE, FILTER_OP_LE}"

fun depth_after :: "nat \<Rightarrow> insn \<Rightarrow> nat option" where
  "depth_after d (Imm op bs) = (if d < 2 then Some (d + 1) else None)"
| "depth_after d (Op op) =
     (if binary_filter_op op then (if d = 2 then Some 1 else None) else if 1 \<le> d then Some d else None)"
| "depth_after d (Jump op t) = (if 1 \<le> d then Some (d - 1) else None)"

text \<open>
  Code at offset \<open>k\<close> that takes \<open>d\<close> values to \<open>d'\<close>. A jump skips a piece of code that gives back the value
  that the jump keeps, so that both ways arrive with the same number of values.
\<close>

inductive flows :: "nat \<Rightarrow> nat \<Rightarrow> insn list \<Rightarrow> nat \<Rightarrow> bool" where
  flows_nil: "flows k d [] d"
| flows_step: "depth_after d i = Some e \<Longrightarrow> \<forall>op t. i \<noteq> Jump op t \<Longrightarrow> flows (k + length (encode i)) e cs d' \<Longrightarrow>
    flows k d (i # cs) d'"
| flows_jump: "depth_after d (Jump op t) = Some e \<Longrightarrow> t = k + 3 + length (code zs) \<Longrightarrow> flows (k + 3) e zs d \<Longrightarrow>
    flows t d ws d' \<Longrightarrow> flows k d (Jump op t # zs @ ws) d'"

lemma flows_append: "flows k d cs e \<Longrightarrow> flows (k + length (code cs)) e js d' \<Longrightarrow> flows k d (cs @ js) d'"
proof (induction rule: flows.induct)
  case (flows_nil k d)
  then show ?case by simp
next
  case (flows_step d i e k cs d'')
  then show ?case by (auto intro!: flows.flows_step simp: add.assoc)
next
  case (flows_jump d op t e k zs ws d'')
  have "k + length (code (Jump op t # zs @ ws)) = t + length (code ws)" using flows_jump.hyps(2) by simp
  with flows_jump.IH(2) flows_jump.prems have "flows t d (ws @ js) d'" by (simp only:)
  with flows_jump show ?case using flows.flows_jump[of d op t e k zs "ws @ js" d'] by simp
qed

lemma flows_one: "depth_after d i = Some e \<Longrightarrow> \<forall>op t. i \<noteq> Jump op t \<Longrightarrow> flows k d [i] e"
  by (auto intro: flows.intros)

lemma flows_cast: "1 \<le> d \<Longrightarrow> flows k d (cast_code op) d"
  by (auto simp: cast_operand_def split: option.splits intro!: flows_one flows_nil)

lemma comparator_opcode:
  "comparator ty \<Longrightarrow> \<exists>op. binary_opcode ty = Some op \<and> binary_filter_op op"
  by (auto simp: comparator_def)

lemma compile_flows:
  "expr_ok op \<Longrightarrow> comparison_depth op + d \<le> 1 \<Longrightarrow> flows k d (compile k op) (Suc d)"
proof (induction op arbitrary: k d)
  case (IR_OP_LOAD c l)
  then show ?case by (cases l) (auto intro!: flows_one)
next
  case (IR_OP_UNARY c ty n)
  then show ?case by (auto intro!: flows_append flows_one flows_nil)
next
  case (IR_OP_BINARY c ty l r)
  then have d: "d = 0" "comparison_depth l = 0" "comparison_depth r = 0" by auto
  obtain op where "binary_opcode ty = Some op" "binary_filter_op op"
    using IR_OP_BINARY.prems(1) comparator_opcode by auto
  then have "flows j 2 [Op op] 1" for j by (intro flows_one) auto
  moreover have "flows j 1 (compile j r) 2" for j using IR_OP_BINARY(2,3) d by (auto simp: numeral_2_eq_2)
  moreover have "flows k 0 (compile k l) 1" using IR_OP_BINARY(1,3) d by auto
  ultimately have "flows k 0 (compile k l @ compile j r @ [Op op]) 1" if "j = k + length (code (compile k l))" for j
    using that by (metis flows_append)
  then show ?case using d \<open>binary_opcode ty = Some op\<close> by (simp add: Let_def)
next
  case (IR_OP_LOGICAL c ty l r)
  let ?cl = "compile k l @ cast_code l"
  let ?k = "k + length (code ?cl)"
  let ?cr = "compile (?k + 3) r @ cast_code r"
  have l: "flows k d (compile k l) (Suc d)" and r: "flows j d (compile j r) (Suc d)" for j
    using IR_OP_LOGICAL.IH(1)[of d k] IR_OP_LOGICAL.IH(2)[of d j] IR_OP_LOGICAL.prems by auto
  have cl: "flows k d ?cl (Suc d)" by (rule flows_append[OF l flows_cast]) simp
  have "flows (?k + 3) d ?cr (Suc d)" by (rule flows_append[OF r flows_cast]) simp
  then have "flows ?k (Suc d) (Jump x (?k + 3 + length (code ?cr)) # ?cr @ []) (Suc d)" for x
    by (intro flows_jump flows_nil) auto
  from flows_append[OF cl this] show ?case by (simp add: Let_def add.assoc)
qed simp_all

section \<open>Decoding\<close>

text \<open>A disassembler: the instruction that starts a byte sequence, and the rest.\<close>

definition filter_ops :: "filter_op list" where
  "filter_ops = [FILTER_OP_RETURN, FILTER_OP_MUL, FILTER_OP_DIV, FILTER_OP_MOD, FILTER_OP_PLUS, FILTER_OP_MINUS,
     FILTER_OP_RSHIFT, FILTER_OP_LSHIFT, FILTER_OP_BIN_AND, FILTER_OP_BIN_OR, FILTER_OP_BIN_XOR, FILTER_OP_EQ,
     FILTER_OP_NE, FILTER_OP_GT, FILTER_OP_LT, FILTER_OP_GE, FILTER_OP_LE, FILTER_OP_UNARY_MINUS,
     FILTER_OP_UNARY_NOT, FILTER_OP_AND, FILTER_OP_OR, FILTER_OP_LOAD_FIELD_REF, FILTER_OP_LOAD_STRING,
     FILTER_OP_LOAD_S64, FILTER_OP_LOAD_DOUBLE, FILTER_OP_CAST_TO_S64, FILTER_OP_CAST_DOUBLE_TO_S64,
     FILTER_OP_GET_CONTEXT_REF, FILTER_OP_LOAD_STAR_GLOB_STRING]"

definition op_of :: "u8 \<Rightarrow> filter_op option" where
  "op_of b = map_of (map (\<lambda>op. (opcode op, op)) filter_ops) b"

lemma op_of_opcode: "op \<noteq> FILTER_OP_UNKNOWN \<Longrightarrow> op_of (opcode op) = Some op"
  by (cases op) (simp_all add: op_of_def filter_ops_def)

text \<open>The length of the operand of an operation, none for a string.\<close>

fun operand_len :: "filter_op \<Rightarrow> nat option" where
  "operand_len op =
     (if op \<in> {FILTER_OP_LOAD_S64, FILTER_OP_LOAD_DOUBLE} then Some 8
      else if op \<in> {FILTER_OP_LOAD_FIELD_REF, FILTER_OP_GET_CONTEXT_REF, FILTER_OP_AND, FILTER_OP_OR} then Some 2
      else if op \<in> {FILTER_OP_LOAD_STRING, FILTER_OP_LOAD_STAR_GLOB_STRING} then None
      else Some 0)"

definition operand :: "filter_op \<Rightarrow> byte list \<Rightarrow> (byte list \<times> byte list) option" where
  "operand op bs =
     (case operand_len op of
        Some n \<Rightarrow> if n \<le> length bs then Some (take n bs, drop n bs) else None
      | None \<Rightarrow> (case dropWhile (\<lambda>b. b \<noteq> 0) bs of
                  [] \<Rightarrow> None
                | z # rest \<Rightarrow> Some (takeWhile (\<lambda>b. b \<noteq> 0) bs @ [z], rest)))"

definition decode_one :: "byte list \<Rightarrow> (insn \<times> byte list) option" where
  "decode_one bs = (case bs of
       [] \<Rightarrow> None
     | b # bs \<Rightarrow> do {
         op \<leftarrow> op_of b;
         (arg, rest) \<leftarrow> operand op bs;
         Some (if op = FILTER_OP_AND \<or> op = FILTER_OP_OR then Jump op (le_val arg)
               else if arg = [] then Op op
               else Imm op arg, rest)
       })"

lemma operand_shorter: "operand op bs = Some (arg, rest) \<Longrightarrow> length rest \<le> length bs"
proof (cases "operand_len op")
  case None
  assume a: "operand op bs = Some (arg, rest)"
  then obtain z where "dropWhile (\<lambda>b. b \<noteq> 0) bs = z # rest"
    using None by (auto simp: operand_def simp del: operand_len.simps split: list.splits)
  then show ?thesis using length_dropWhile_le[of "\<lambda>b. b \<noteq> 0" bs] by simp
qed (auto simp: operand_def simp del: operand_len.simps split: if_splits)

lemma decode_one_shorter: "decode_one bs = Some (i, rest) \<Longrightarrow> length rest < length bs"
  by (auto simp: decode_one_def less_Suc_eq_le split: list.splits bind_splits dest!: operand_shorter)

function decode :: "byte list \<Rightarrow> insn list option" where
  "decode bs =
     (if bs = [] then Some []
      else case decode_one bs of
        None \<Rightarrow> None
      | Some (i, rest) \<Rightarrow> map_option ((#) i) (decode rest))"
  by pat_completeness auto
termination
  by (relation "measure length") (auto dest!: decode_one_shorter)

declare decode.simps [simp del]

text \<open>Instructions that the decoder recognises.\<close>

fun insn_ok :: "insn \<Rightarrow> bool" where
  "insn_ok (Op op) \<longleftrightarrow> op \<noteq> FILTER_OP_UNKNOWN \<and> operand_len op = Some 0"
| "insn_ok (Imm op bs) \<longleftrightarrow> op \<noteq> FILTER_OP_UNKNOWN \<and> op \<noteq> FILTER_OP_AND \<and> op \<noteq> FILTER_OP_OR \<and> bs \<noteq> [] \<and>
     (case operand_len op of Some n \<Rightarrow> length bs = n | None \<Rightarrow> \<exists>s. bs = s @ [0] \<and> 0 \<notin> set s)"
| "insn_ok (Jump op t) \<longleftrightarrow> (op = FILTER_OP_AND \<or> op = FILTER_OP_OR) \<and> t < 65536"

lemma u16_value: "t < 65536 \<Longrightarrow> le_val (bytes_u16 (of_nat t)) = t"
  by (simp add: bytes_u16_def le_val_le unat_of_nat)

lemma decode_one_encode: "insn_ok i \<Longrightarrow> decode_one (encode i @ rest) = Some (i, rest)"
proof (cases i)
  case (Op op)
  have "insn_ok (Op op) \<Longrightarrow> op \<noteq> FILTER_OP_AND \<and> op \<noteq> FILTER_OP_OR" by auto
  with Op show "insn_ok i \<Longrightarrow> ?thesis"
    by (auto simp: decode_one_def op_of_opcode operand_def simp del: operand_len.simps)
next
  case (Imm op bs)
  assume ok: "insn_ok i"
  have "operand op (bs @ rest) = Some (bs, rest)"
  proof (cases "operand_len op")
    case None
    then obtain s where s: "bs = s @ [0]" "0 \<notin> set s" using ok Imm by auto
    have "dropWhile (\<lambda>b. b \<noteq> 0) (s @ 0 # rest) = 0 # rest" "takeWhile (\<lambda>b. b \<noteq> 0) (s @ 0 # rest) = s"
      using s(2) by (subst dropWhile_append2 takeWhile_append2; auto)+
    then show ?thesis using s None by (simp add: operand_def)
  qed (use ok Imm in \<open>auto simp: operand_def simp del: operand_len.simps\<close>)
  then show ?thesis using ok Imm by (simp add: decode_one_def op_of_opcode del: operand_len.simps)
next
  case (Jump op t)
  assume ok: "insn_ok i"
  then have "operand_len op = Some 2" "op \<noteq> FILTER_OP_UNKNOWN" using Jump by auto
  then have "op_of (opcode op) = Some op" "operand op (bytes_u16 (of_nat t) @ rest) = Some (bytes_u16 (of_nat t), rest)"
    by (simp_all add: op_of_opcode operand_def del: operand_len.simps)
  then show ?thesis using ok Jump by (simp add: decode_one_def u16_value del: opcode.simps)
qed

lemma decode_code: "list_all insn_ok is \<Longrightarrow> decode (code is) = Some is"
proof (induction "is")
  case Nil
  then show ?case by (subst decode.simps) simp
next
  case (Cons i cs)
  have "encode i \<noteq> []" by (cases i) auto
  with Cons show ?case by (subst decode.simps) (simp add: decode_one_encode)
qed

text \<open>Operations whose strings hold no terminator, as C strings do.\<close>

fun c_strings :: "ir_op \<Rightarrow> bool" where
  "c_strings (IR_OP_UNKNOWN c) = True"
| "c_strings (IR_OP_ROOT c n) = c_strings n"
| "c_strings (IR_OP_LOAD c l) = (case l of Load_string ty s \<Rightarrow> 0 \<notin> set s | Load_ref s \<Rightarrow> 0 \<notin> set s | _ \<Rightarrow> True)"
| "c_strings (IR_OP_UNARY c ty n) = c_strings n"
| "c_strings (IR_OP_BINARY c ty l r) = (c_strings l \<and> c_strings r)"
| "c_strings (IR_OP_LOGICAL c ty l r) = (c_strings l \<and> c_strings r)"

lemma cast_insn_ok: "list_all insn_ok (cast_code op)"
  by (simp add: cast_operand_def)

lemma comparator_insn_ok: "comparator ty \<Longrightarrow> \<exists>op. binary_opcode ty = Some op \<and> insn_ok (Op op)"
  by (cases ty) (simp_all add: comparator_def)

lemma compile_insn_ok:
  "expr_ok op \<Longrightarrow> c_strings op \<Longrightarrow> k + length (code (compile k op)) < 65536 \<Longrightarrow> list_all insn_ok (compile k op)"
proof (induction op arbitrary: k)
  case (IR_OP_LOAD c l)
  then show ?case by (cases l) (auto simp flip: length_0_conv)
next
  case (IR_OP_UNARY c ty n)
  then show ?case by (auto split: unary_op_type.splits)
next
  case (IR_OP_BINARY c ty l r)
  obtain op where op: "binary_opcode ty = Some op" "insn_ok (Op op)"
    using IR_OP_BINARY.prems(1) comparator_insn_ok by auto
  let ?k = "k + length (code (compile k l))"
  have "k + length (code (compile k l)) < 65536" "?k + length (code (compile ?k r)) < 65536"
    using IR_OP_BINARY.prems(3) by (auto simp: Let_def)
  with IR_OP_BINARY op show ?case by (auto simp: Let_def simp del: insn_ok.simps)
next
  case (IR_OP_LOGICAL c ty l r)
  let ?k = "k + length (code (compile k l @ cast_code l)) + 3"
  have "k + length (code (compile k l)) < 65536" "?k + length (code (compile ?k r)) < 65536"
    using IR_OP_LOGICAL.prems(3) by (auto simp: Let_def simp del: cast_code.simps)
  with IR_OP_LOGICAL cast_insn_ok show ?case by (auto simp: Let_def simp del: cast_code.simps)
qed simp_all

lemma references_bounds:
  "expr_ok op \<Longrightarrow> c_strings op \<Longrightarrow> (j, s) \<in> set (references k op) \<Longrightarrow> j < k + length (code (compile k op)) \<and> 0 \<notin> set s"
proof (induction op arbitrary: k)
  case (IR_OP_LOAD c l)
  then show ?case by (cases l) auto
next
  case (IR_OP_UNARY c ty n)
  then have "j < k + length (code (compile k n)) \<and> 0 \<notin> set s" by simp
  then show ?case by simp
next
  case (IR_OP_BINARY c ty l r)
  let ?k = "k + length (code (compile k l))"
  have "(j, s) \<in> set (references k l) \<or> (j, s) \<in> set (references ?k r)" using IR_OP_BINARY.prems(3) by simp
  then have "(j < ?k \<or> j < ?k + length (code (compile ?k r))) \<and> 0 \<notin> set s"
    using IR_OP_BINARY.IH(1)[of k] IR_OP_BINARY.IH(2)[of ?k] IR_OP_BINARY.prems(1,2) by auto
  then show ?case by (auto simp: Let_def)
next
  case (IR_OP_LOGICAL c ty l r)
  let ?k = "k + length (code (compile k l @ cast_code l)) + 3"
  have "(j, s) \<in> set (references k l) \<or> (j, s) \<in> set (references ?k r)" using IR_OP_LOGICAL.prems(3) by simp
  then have "(j < k + length (code (compile k l)) \<or> j < ?k + length (code (compile ?k r))) \<and> 0 \<notin> set s"
    using IR_OP_LOGICAL.IH(1)[of k] IR_OP_LOGICAL.IH(2)[of ?k] IR_OP_LOGICAL.prems(1,2) by auto
  then show ?case by (auto simp: Let_def simp del: cast_code.simps)
qed auto

text \<open>The reader of the table of references: pairs of an offset and a terminated name.\<close>

function parse_table :: "byte list \<Rightarrow> (nat \<times> byte list) list option" where
  "parse_table bs =
     (if bs = [] then Some []
      else if length bs < 2 then None
      else case dropWhile (\<lambda>b. b \<noteq> 0) (drop 2 bs) of
        [] \<Rightarrow> None
      | z # rest \<Rightarrow> map_option ((#) (le_val (take 2 bs), takeWhile (\<lambda>b. b \<noteq> 0) (drop 2 bs))) (parse_table rest))"
  by pat_completeness auto
termination
proof (relation "measure length")
  show "(rest, bs) \<in> measure length"
    if "bs \<noteq> []" "\<not> length bs < 2" "dropWhile (\<lambda>b. b \<noteq> 0) (drop 2 bs) = z # rest" for bs z and rest :: "byte list"
  proof -
    have "length (z # rest) \<le> length (drop 2 bs)"
      using length_dropWhile_le[of "\<lambda>b. b \<noteq> 0" "drop 2 bs"] that(3) by simp
    then show ?thesis using that(2) by auto
  qed
qed simp

declare parse_table.simps [simp del]

lemma parse_table_table: "\<forall>(j, s) \<in> set rs. j < 65536 \<and> 0 \<notin> set s \<Longrightarrow> parse_table (table rs) = Some rs"
proof (induction rs)
  case Nil
  then show ?case by (subst parse_table.simps) simp
next
  case (Cons x rs)
  obtain j s where x: "x = (j, s)" "j < 65536" "0 \<notin> set s" using Cons.prems by (cases x) auto
  have "dropWhile (\<lambda>b. b \<noteq> 0) (s @ 0 # table rs) = 0 # table rs" "takeWhile (\<lambda>b. b \<noteq> 0) (s @ 0 # table rs) = s"
    using x(3) by (subst dropWhile_append2 takeWhile_append2; auto)+
  with Cons x show ?case by (subst parse_table.simps) (simp add: u16_value)
qed

section \<open>Strings through the passes\<close>

fun node_strings :: "filter_node \<Rightarrow> byte list set"
  and exp_strings :: "filter_expression \<Rightarrow> byte list set"
where
  "node_strings NODE_NULL = {}"
| "node_strings NODE_UNKNOWN = {}"
| "node_strings (NODE_ROOT n) = node_strings n"
| "node_strings (NODE_EXPRESSION e) = exp_strings e"
| "node_strings (NODE_OP ty l r) = node_strings l \<union> node_strings r"
| "node_strings (NODE_UNARY_OP ty n) = node_strings n"
| "exp_strings AST_EXP_UNKNOWN = {}"
| "exp_strings (AST_EXP_STRING s) = {s}"
| "exp_strings (AST_EXP_CONSTANT v) = {}"
| "exp_strings (AST_EXP_FLOAT_CONSTANT v) = {}"
| "exp_strings (AST_EXP_IDENTIFIER p q s n) = insert s (node_strings n)"
| "exp_strings (AST_EXP_GLOBAL_IDENTIFIER p q s n) = insert s (node_strings n)"
| "exp_strings (AST_EXP_NESTED n) = node_strings n"

fun op_strings :: "ir_op \<Rightarrow> byte list set" where
  "op_strings (IR_OP_UNKNOWN c) = {}"
| "op_strings (IR_OP_ROOT c n) = op_strings n"
| "op_strings (IR_OP_LOAD c l) = (case l of Load_string ty s \<Rightarrow> {s} | Load_ref s \<Rightarrow> {s} | _ \<Rightarrow> {})"
| "op_strings (IR_OP_UNARY c ty n) = op_strings n"
| "op_strings (IR_OP_BINARY c ty l r) = op_strings l \<union> op_strings r"
| "op_strings (IR_OP_LOGICAL c ty l r) = op_strings l \<union> op_strings r"

lemma string_predicates:
  "c_strings op \<longleftrightarrow> (\<forall>s \<in> op_strings op. 0 \<notin> set s)"
  "short_strings op \<longleftrightarrow> (\<forall>s \<in> op_strings op. length s + 2 < 2 ^ 31)"
  "literals op \<subseteq> op_strings op"
  by (induction op) (auto split: ir_op_load.splits)

lemma first_link_strings: "is_identifier e \<Longrightarrow> first_link e = Inr e' \<Longrightarrow> exp_strings e' \<subseteq> exp_strings e"
proof (induction e rule: first_link.induct)
  case (1 post_op pre_op s prev)
  show ?case
  proof (cases prev)
    case (NODE_EXPRESSION e)
    then show ?thesis using 1 by (cases e) (auto simp: is_identifier_def)
  qed (use 1(4) in auto)
next
  case (2 post_op pre_op s prev)
  show ?case
  proof (cases prev)
    case (NODE_EXPRESSION e)
    then show ?thesis using 2 by (cases e) (auto simp: is_identifier_def)
  qed (use 2(4) in auto)
qed (simp_all add: is_identifier_def)

lemma set_parent_strings:
  "recursive_visit_set_parent n True = Some (Inr n') \<Longrightarrow> node_strings n' \<subseteq> node_strings n"
  "recursive_visit_set_parent (NODE_EXPRESSION e) True = Some (Inr n') \<Longrightarrow> node_strings n' \<subseteq> exp_strings e"
proof (induction n and e arbitrary: n' and n')
  case (AST_EXP_IDENTIFIER p q s n)
  then show ?case
    using first_link_strings[OF is_identifier_simps(1)[of p q s n]]
    by (auto simp: update_child_def simp del: first_link.simps split: sum.splits)
next
  case (AST_EXP_GLOBAL_IDENTIFIER p q s n)
  then show ?case
    using first_link_strings[OF is_identifier_simps(2)[of p q s n]]
    by (auto simp: update_child_def simp del: first_link.simps split: sum.splits)
qed (fastforce simp: bind_c_assert split: bind_splits sum.splits)+

text \<open>What a constructor of operations returns besides an error.\<close>

lemma make_strings:
  "make_op_load_string h s sd = (Some op, h') \<Longrightarrow> op_strings op = {s}"
  "make_op_load_numeric h v sd = (Some op, h') \<Longrightarrow> op_strings op = {}"
  "make_op_load_float h v sd = (Some op, h') \<Longrightarrow> op_strings op = {}"
  "make_op_load_field_ref h s sd = (Some op, h') \<Longrightarrow> op_strings op = {s}"
  "make_op_load_get_context_ref h s sd = (Some op, h') \<Longrightarrow> op_strings op = {s}"
  "make_op_root h n sd = (Some op, h') \<Longrightarrow> op_strings op = op_strings n"
  "make_op_unary h ty sg n sd = (Some op, h') \<Longrightarrow> op_strings op = op_strings n"
  by (auto simp: make_op_load_string_def make_op_load_numeric_def make_op_load_float_def
      make_op_load_field_ref_def make_op_load_get_context_ref_def make_op_root_def make_op_unary_def Let_def
      split: prod.splits if_splits ir_data_type.splits)

lemma make_binary_strings: "make_binary h ty l r sd = (Some op, h') \<Longrightarrow> op_strings op = op_strings l \<union> op_strings r"
  by (cases ty) (auto simp: make_binary_def make_op_binary_eq_def make_op_binary_ne_def
      make_op_binary_gt_def make_op_binary_lt_def make_op_binary_ge_def make_op_binary_le_def
      make_op_binary_logical_and_def make_op_binary_logical_or_def make_op_binary_compare_def
      make_op_binary_logical_def Let_def split: prod.splits if_splits)

lemma or_free_Some: "or_free cs r = Some (Some op, h') \<Longrightarrow> r = (Some op, h')"
  by (auto simp: or_free_def split: prod.splits option.splits bind_splits)

lemma generate_strings:
  "generate_ir_recursive h n sd = Some (Some op, h') \<Longrightarrow> op_strings op \<subseteq> node_strings n"
  "make_expression h e sd = Some (Some op, h') \<Longrightarrow> op_strings op \<subseteq> exp_strings e"
proof (induction n and e arbitrary: h sd op h' and h sd op h')
  case (NODE_OP ty l r)
  then show ?case
    by (auto split: if_splits bind_splits option.splits prod.splits dest!: or_free_Some make_binary_strings) blast+
next
  case (NODE_UNARY_OP ty n)
  then show ?case
    by (auto simp: make_op_unary_plus_def make_op_unary_minus_def make_op_unary_not_def
        split: if_splits bind_splits option.splits prod.splits unary_op_type.splits dest!: or_free_Some make_strings) blast+
next
  case (NODE_ROOT n)
  then show ?case
    by (auto split: bind_splits option.splits dest!: or_free_Some make_strings) blast+
qed (auto split: if_splits list.splits dest: make_strings)

section \<open>Compilation of a filter\<close>

abbreviation LTTNG_ERR_FILTER_INVAL :: int where "LTTNG_ERR_FILTER_INVAL \<equiv> 106"
abbreviation LTTNG_ERR_FILTER_NOMEM :: int where "LTTNG_ERR_FILTER_NOMEM \<equiv> 107"

text \<open>
  \<open>generate_filter\<close>. \<open>fmem\<close> and \<open>alloc\<close> tell whether the memory stream and the parser context could be
  created, \<open>parsed\<close> is the tree that the generated parser leaves in the context, if it accepts the
  expression. The ledger counts the blocks of the passes; those of the parser context are
  released with it. The result is the return value, the context and the length fields of the message.
\<close>

definition parse_error :: "filter_ctx \<Rightarrow> heap \<Rightarrow> (int \<times> filter_ctx option \<times> (u32 \<times> u32) option \<times> heap) run" where
  "parse_error ctx h = do {
     (ctx, h) \<leftarrow> filter_ir_free ctx h;
     Some (- LTTNG_ERR_FILTER_INVAL, None, None, h)
   }"

definition generate_filter ::
  "bool \<Rightarrow> bool \<Rightarrow> filter_node option \<Rightarrow> byte list \<Rightarrow> heap \<Rightarrow> (int \<times> filter_ctx option \<times> (u32 \<times> u32) option \<times> heap) run"
where
  "generate_filter fmem alloc parsed filter_expression h =
     (if \<not> fmem then Some (- LTTNG_ERR_FILTER_NOMEM, None, None, h)
      else if \<not> alloc then Some (- LTTNG_ERR_FILTER_NOMEM, None, None, h)
      else case parsed of
        None \<Rightarrow> parse_error \<lparr>ast = NODE_ROOT NODE_NULL, ir_root = None, bytecode = None, bytecode_reloc = None\<rparr> h
      | Some root \<Rightarrow> do {
          let ctx = \<lparr>ast = root, ir_root = None, bytecode = None, bytecode_reloc = None\<rparr>;
          r \<leftarrow> filter_visitor_set_parent (ast ctx);
          case r of
            Inl ret \<Rightarrow> parse_error ctx h
          | Inr root \<Rightarrow> do {
              let ctx = ctx\<lparr>ast := root\<rparr>;
              (ret, ctx, h) \<leftarrow> filter_visitor_ir_generate ctx h;
              if ret \<noteq> 0 then parse_error ctx h
              else do {
                ret \<leftarrow> filter_visitor_ir_check_binary_op_nesting ctx;
                if ret \<noteq> 0 then parse_error ctx h
                else do {
                  (ret, ctx) \<leftarrow> filter_visitor_ir_normalize_glob_patterns ctx;
                  if ret \<noteq> 0 then parse_error ctx h
                  else do {
                    ret \<leftarrow> filter_visitor_ir_validate_string ctx;
                    if ret \<noteq> 0 then parse_error ctx h
                    else do {
                      ret \<leftarrow> filter_visitor_ir_validate_globbing ctx;
                      if ret \<noteq> 0 then parse_error ctx h
                      else do {
                        (ret, ctx, h) \<leftarrow> filter_visitor_bytecode_generate ctx h;
                        if ret \<noteq> 0 then parse_error ctx h
                        else do {
                          fb \<leftarrow> bytecode ctx;
                          Some (0, Some ctx, Some (48 + bytecode_get_len fb, of_nat (length filter_expression + 1)), h)
                        }
                      }
                    }
                  }
                }
              }
            }
        })"

section \<open>Generated programs\<close>

lemma root_flows:
  assumes "root_ok op" "check_bin_op_nesting_recursive op 0 = 0"
  shows "flows 0 0 (compile 0 op) 1"
proof -
  obtain c n where op: "op = IR_OP_ROOT c n" "expr_ok n" using assms(1) by (cases op) auto
  then have "comparison_depth n + 0 \<le> 1" using nesting_iff[of n 0] assms(2) by auto
  from compile_flows[OF op(2) this] have "flows 0 0 (compile 0 n) 1" by simp
  moreover have "flows k 1 [Op FILTER_OP_RETURN] 1" for k by (intro flows_one) auto
  ultimately show ?thesis unfolding op(1) by (auto intro: flows_append)
qed

lemma root_decodes:
  assumes "root_ok op" "c_strings op" "length (filter_code op) \<le> 65536"
  shows "decode (filter_code op) = Some (compile 0 op)" "parse_table (filter_table op) = Some (references 0 op)"
proof -
  obtain c n where op: "op = IR_OP_ROOT c n" "expr_ok n" using assms(1) by (cases op) auto
  have n: "c_strings n" "0 + length (code (compile 0 n)) < 65536" using assms op by auto
  have "list_all insn_ok (compile 0 op)" using compile_insn_ok[OF op(2) n] op(1) by simp
  then show "decode (filter_code op) = Some (compile 0 op)" by (rule decode_code)
  have "\<forall>(j, s) \<in> set (references 0 op). j < 65536 \<and> 0 \<notin> set s"
    using references_bounds[OF op(2) n(1), of _ _ 0] n(2) op(1) by fastforce
  then show "parse_table (filter_table op) = Some (references 0 op)" by (rule parse_table_table)
qed

lemma holds_contents: "holds fb P \<Longrightarrow> take (unat (bc_len fb)) (bc_data fb) = P"
  by (simp add: holds_def)

section \<open>Properties\<close>

text \<open>
  C12: the bytecode generator implements the compiler to instructions. For every well-typed root with
  strings below 2 GiB the generator returns; when it returns 0, the buffer holds the encoding of the
  compiled instructions followed by the table of references, and the offset of the table is the
  length of the code; with allocations that succeed it returns 0 exactly when this takes at most
  65536 bytes, and \<open>-EINVAL\<close> otherwise.
\<close>

theorem filter_bytecode_refines:
  assumes "ir_root ctx = Some op" "root_ok op" "short_strings op"
  shows "\<exists>ret ctx' h'. filter_visitor_bytecode_generate ctx h = Some (ret, ctx', h') \<and>
    (ret = 0 \<longrightarrow> (\<exists>fb. bytecode ctx' = Some fb \<and>
       take (unat (bc_len fb)) (bc_data fb) = filter_code op @ filter_table op \<and>
       unat (bc_reloc_table_offset fb) = length (filter_code op))) \<and>
    (outcomes h = [] \<longrightarrow> ret = (if length (filter_code op @ filter_table op) \<le> 65536 then 0 else - EINVAL))"
proof -
  obtain ret ctx' h' where g: "filter_visitor_bytecode_generate ctx h = Some (ret, ctx', h')"
    "generated ctx h op (ret, ctx', h')" using bytecode_generate[OF assms, of h] by auto
  have "length (filter_code op @ filter_table op) \<le> 65536" if "ret = 0"
    using g(2) that by (auto simp: generated_def holds_def)
  with g show ?thesis by (auto simp: generated_def store_error_def holds_contents split: if_splits)
qed

definition sample_ir :: ir_op where
  "sample_ir = IR_OP_ROOT \<lparr>data_type = IR_DATA_NUMERIC, signedness = IR_SIGNED, side = IR_LEFT\<rparr>
     (IR_OP_LOGICAL \<lparr>data_type = IR_DATA_NUMERIC, signedness = IR_SIGNED, side = IR_LEFT\<rparr> AST_OP_AND
        (IR_OP_BINARY \<lparr>data_type = IR_DATA_NUMERIC, signedness = IR_SIGNED, side = IR_LEFT\<rparr> AST_OP_EQ
           (IR_OP_LOAD \<lparr>data_type = IR_DATA_FIELD_REF, signedness = IR_SIGN_DYN, side = IR_LEFT\<rparr> (Load_ref [97]))
           (IR_OP_LOAD \<lparr>data_type = IR_DATA_NUMERIC, signedness = IR_SIGNED, side = IR_RIGHT\<rparr> (Load_num 5)))
        (IR_OP_LOAD \<lparr>data_type = IR_DATA_FIELD_REF, signedness = IR_SIGN_DYN, side = IR_LEFT\<rparr> (Load_ref [98])))"

definition sample_ir_ctx :: filter_ctx where
  "sample_ir_ctx = \<lparr>ast = sample_filter, ir_root = Some sample_ir, bytecode = None, bytecode_reloc = None\<rparr>"

lemma sample_ir_facts:
  "ir_root sample_ir_ctx = Some sample_ir" "root_ok sample_ir" "short_strings sample_ir" "c_strings sample_ir"
  "length (filter_code sample_ir @ filter_table sample_ir) \<le> 65536" "check_bin_op_nesting_recursive sample_ir 0 = 0"
  by (simp_all add: sample_ir_ctx_def sample_ir_def comparator_def logical_def type_mismatch_def cast_operand_def)

theorem filter_bytecode_refines_witness:
  "\<exists>ctx' h' fb. filter_visitor_bytecode_generate sample_ir_ctx \<lparr>outcomes = [], live = 0\<rparr> = Some (0, ctx', h') \<and>
    bytecode ctx' = Some fb \<and>
    take (unat (bc_len fb)) (bc_data fb) = filter_code sample_ir @ filter_table sample_ir"
  using filter_bytecode_refines[OF sample_ir_facts(1-3), of "\<lparr>outcomes = [], live = 0\<rparr>"] sample_ir_facts(5)
  by auto

text \<open>
  C16: a generated program can be read back. The bytes before the offset of the table decode to the
  compiled instructions and no others, and the bytes from it on are the table of references.
\<close>

theorem filter_bytecode_decodes:
  assumes "ir_root ctx = Some op" "root_ok op" "short_strings op" "c_strings op"
    and "filter_visitor_bytecode_generate ctx h = Some (0, ctx', h')"
  shows "\<exists>fb. bytecode ctx' = Some fb \<and>
    (let bytes = take (unat (bc_len fb)) (bc_data fb); offset = unat (bc_reloc_table_offset fb) in
     decode (take offset bytes) = Some (compile 0 op) \<and> parse_table (drop offset bytes) = Some (references 0 op))"
proof -
  have "generated ctx h op (0, ctx', h')" using bytecode_generate[OF assms(1-3), of h] assms(5) by auto
  then obtain fb where fb: "bytecode ctx' = Some fb" "holds fb (filter_code op @ filter_table op)"
    "unat (bc_reloc_table_offset fb) = length (filter_code op)" by (auto simp: generated_def)
  have "length (filter_code op) \<le> 65536" using fb(2) by (auto simp: holds_def)
  with root_decodes[OF assms(2,4)] fb show ?thesis by (simp add: holds_contents del: take_take)
qed

theorem filter_bytecode_decodes_witness:
  "\<exists>ctx' h' fb. filter_visitor_bytecode_generate sample_ir_ctx \<lparr>outcomes = [], live = 0\<rparr> = Some (0, ctx', h') \<and>
    bytecode ctx' = Some fb \<and>
    decode (take (unat (bc_reloc_table_offset fb)) (take (unat (bc_len fb)) (bc_data fb))) = Some (compile 0 sample_ir)"
proof -
  obtain r where g: "filter_visitor_bytecode_generate sample_ir_ctx \<lparr>outcomes = [], live = 0\<rparr> = Some r"
    "generated sample_ir_ctx \<lparr>outcomes = [], live = 0\<rparr> sample_ir r"
    using bytecode_generate[OF sample_ir_facts(1-3)] by blast
  then obtain ctx' h' where r: "r = (0, ctx', h')"
    using sample_ir_facts(5) by (cases r) (auto simp: generated_def store_error_def split: if_splits)
  from filter_bytecode_decodes[OF sample_ir_facts(1-4) g(1)[unfolded r]] g(1) r show ?thesis
    by (auto simp: Let_def)
qed



section \<open>The whole compilation\<close>

text \<open>Strings without terminator inside that are below 2 GiB.\<close>

definition fine :: "byte list \<Rightarrow> bool" where
  "fine s \<longleftrightarrow> 0 \<notin> set s \<and> length s + 2 < 2 ^ 31"

lemma crush_fine: "fine s \<Longrightarrow> fine (crush False s)"
  using crush_length[of False s] crush_no_nul[of s False] by (auto simp: fine_def)

lemma fine_strings: "\<forall>s \<in> op_strings op. fine s \<Longrightarrow> c_strings op \<and> short_strings op \<and> (\<forall>s \<in> literals op. 0 \<notin> set s)"
  using string_predicates[of op] by (auto simp: fine_def)

text \<open>The effect of normalization.\<close>

fun normalized :: "ir_op \<Rightarrow> ir_op" where
  "normalized (IR_OP_UNKNOWN c) = IR_OP_UNKNOWN c"
| "normalized (IR_OP_ROOT c n) = IR_OP_ROOT c (normalized n)"
| "normalized (IR_OP_LOAD c (Load_string ty s)) =
     IR_OP_LOAD c (Load_string ty (if ty = IR_LOAD_STRING_TYPE_PLAIN then s else crush False s))"
| "normalized (IR_OP_LOAD c l) = IR_OP_LOAD c l"
| "normalized (IR_OP_UNARY c ty n) = IR_OP_UNARY c ty (normalized n)"
| "normalized (IR_OP_BINARY c ty l r) = IR_OP_BINARY c ty (normalized l) (normalized r)"
| "normalized (IR_OP_LOGICAL c ty l r) = IR_OP_LOGICAL c ty (normalized l) (normalized r)"

lemma normalize_literal:
  assumes "fine s"
  shows "Option.bind (strutils_normalize_star_glob_pattern (str_cells s) (Some 0)) (\<lambda>m. c_string_at m 0) = Some (crush False s)"
proof -
  have "c_string_at (str_cells s) 0 = Some s" using assms by (simp add: c_string_at_def fine_def)
  from normalize_string[OF this] show ?thesis by auto
qed

lemma normalize_normalized:
  "expr_ok op \<Longrightarrow> \<forall>s \<in> op_strings op. fine s \<Longrightarrow> normalize_glob_patterns op = Some (0, normalized op)"
proof (induction op rule: normalized.induct)
  case (3 c ty s)
  with normalize_literal[of s] show ?case by (cases ty) (auto simp: Option.bind_eq_Some_conv)
qed (auto simp: ball_Un)

lemma normalized_keeps:
  "common (normalized op) = common op" "comparison_depth (normalized op) = comparison_depth op"
  "blocks (normalized op) = blocks op"
  by (induction op rule: normalized.induct) auto

lemma normalized_ok: "expr_ok op \<Longrightarrow> expr_ok (normalized op)"
  by (induction op rule: normalized.induct) (auto simp: normalized_keeps)

lemma normalized_fine: "\<forall>s \<in> op_strings op. fine s \<Longrightarrow> \<forall>s \<in> op_strings (normalized op). fine s"
  by (induction op rule: normalized.induct) (auto simp: crush_fine)

lemma normalize_root:
  assumes "root_ok op" "\<forall>s \<in> op_strings op. fine s"
  shows "normalize_glob_patterns op = Some (0, normalized op)" "root_ok (normalized op)"
proof -
  obtain c n where op: "op = IR_OP_ROOT c n" "expr_ok n" using assms(1) by (cases op) auto
  show "normalize_glob_patterns op = Some (0, normalized op)"
    using normalize_normalized[OF op(2)] assms(2) op(1) by simp
  show "root_ok (normalized op)" using normalized_ok[OF op(2)] assms(1) op(1) by (auto simp: normalized_keeps)
qed

lemma parse_error_ir:
  "ir_root ctx = Some op \<Longrightarrow> root_ok op \<Longrightarrow>
    parse_error ctx h = Some (- LTTNG_ERR_FILTER_INVAL, None, None, h\<lparr>live := live h - blocks op\<rparr>)"
  by (simp add: parse_error_def filter_ir_free_def free_root)

lemma parse_error_no_ir:
  "ir_root ctx = None \<Longrightarrow> parse_error ctx h = Some (- LTTNG_ERR_FILTER_INVAL, None, None, h)"
  by (simp add: parse_error_def filter_ir_free_def)

text \<open>The contract of \<open>generate_filter\<close>.\<close>

definition program_ok :: "ir_op \<Rightarrow> filter_bytecode \<Rightarrow> bool" where
  "program_ok op fb \<longleftrightarrow>
     (let bytes = take (unat (bc_len fb)) (bc_data fb); offset = unat (bc_reloc_table_offset fb) in
      decode (take offset bytes) = Some (compile 0 op) \<and> parse_table (drop offset bytes) = Some (references 0 op)) \<and>
     flows 0 0 (compile 0 op) 1"

definition accepted :: "ir_op \<Rightarrow> bool" where
  "accepted op \<longleftrightarrow> root_ok op \<and> comparison_depth op \<le> 1 \<and> (\<forall>s \<in> literals op. well_escaped s) \<and>
     (\<forall>(ty, l, r) \<in> comparisons op. glob_rule ty (string_load l) (string_load r))"

definition filter_result :: "int \<Rightarrow> int \<times> filter_ctx option \<times> (u32 \<times> u32) option \<times> heap \<Rightarrow> bool" where
  "filter_result k r \<longleftrightarrow> (case r of (ret, ctx, lens, h') \<Rightarrow>
     if ret = 0 then \<exists>c op fb. ctx = Some c \<and> ir_root c = Some op \<and> bytecode c = Some fb \<and>
       accepted op \<and> program_ok op fb \<and> live h' = k + blocks op + 2
     else (ret = - LTTNG_ERR_FILTER_INVAL \<or> ret = - LTTNG_ERR_FILTER_NOMEM) \<and> ctx = None \<and>
       (live h' = k \<or> live h' = k + 2))"

lemma filter_result_error:
  "ir_root ctx = Some op \<Longrightarrow> root_ok op \<Longrightarrow> live h = k + blocks op \<Longrightarrow>
    \<exists>r. parse_error ctx h = Some r \<and> filter_result k r"
  by (simp add: parse_error_ir filter_result_def)

lemma program_generated:
  assumes "generated ctx h op (0, ctx', h')" "accepted op" "\<forall>s \<in> op_strings op. fine s"
  shows "\<exists>fb. bytecode ctx' = Some fb \<and> program_ok op fb"
proof -
  obtain fb where fb: "bytecode ctx' = Some fb" "holds fb (filter_code op @ filter_table op)"
    "unat (bc_reloc_table_offset fb) = length (filter_code op)" using assms(1) by (auto simp: generated_def)
  have "length (filter_code op) \<le> 65536" using fb(2) by (auto simp: holds_def)
  moreover have "root_ok op" "check_bin_op_nesting_recursive op 0 = 0"
    using assms(2) by (auto simp: accepted_def root_checks)
  ultimately have "program_ok op fb"
    using root_decodes[of op] root_flows[of op] fine_strings[OF assms(3)] fb
    by (simp add: program_ok_def holds_contents del: take_take)
  with fb(1) show ?thesis by simp
qed

text \<open>The passes from the validation of strings on.\<close>

lemma back_end:
  assumes "ir_root ctx = Some op" "root_ok op" "comparison_depth op \<le> 1" "\<forall>s \<in> op_strings op. fine s"
    "live h = k + blocks op"
  shows "\<exists>r. (do {
      ret \<leftarrow> filter_visitor_ir_validate_string ctx;
      if ret \<noteq> 0 then parse_error ctx h
      else do {
        ret \<leftarrow> filter_visitor_ir_validate_globbing ctx;
        if ret \<noteq> 0 then parse_error ctx h
        else do {
          (ret, ctx, h) \<leftarrow> filter_visitor_bytecode_generate ctx h;
          if ret \<noteq> 0 then parse_error ctx h
          else do {
            fb \<leftarrow> bytecode ctx;
            Some (0, Some ctx, Some (48 + bytecode_get_len fb, of_nat (length filter_expression + 1)), h)
          }
        }
      }
    }) = Some r \<and> filter_result k r"
proof -
  obtain ret ctx' h' where g: "filter_visitor_bytecode_generate ctx h = Some (ret, ctx', h')"
    "generated ctx h op (ret, ctx', h')"
    using bytecode_generate[OF assms(1,2), of h] fine_strings[OF assms(4)] by auto
  have ir: "ir_root ctx' = Some op" using g(2) assms(1) by (simp add: generated_def)
  note err = filter_result_error[OF assms(1,2,5)]
  show ?thesis
  proof (cases "accepted op")
    case False
    then show ?thesis
      using assms(1-3) err
      by (auto simp: filter_visitor_ir_validate_string_def filter_visitor_ir_validate_globbing_def
          root_checks[OF assms(2)] accepted_def simp del: split_paired_Ex)
  next
    case acc: True
    then have v: "filter_visitor_ir_validate_string ctx = Some 0" "filter_visitor_ir_validate_globbing ctx = Some 0"
      using assms(1) by (simp_all add: filter_visitor_ir_validate_string_def filter_visitor_ir_validate_globbing_def
          root_checks[OF assms(2)] accepted_def)
    show ?thesis
    proof (cases "ret = 0")
      case True
      with program_generated[of ctx h op ctx' h'] acc assms(4) g(2) obtain fb where
        "bytecode ctx' = Some fb" "program_ok op fb" by blast
      moreover have "live h' = live h + 2" using g(2) True by (simp add: generated_def)
      ultimately show ?thesis using v g(1) True acc ir assms(5) by (simp add: filter_result_def)
    next
      case False
      then have "live h' - blocks op = k \<or> live h' - blocks op = k + 2"
        using g(2) assms(5) by (auto simp: generated_def)
      with v g(1) False ir assms(5) show ?thesis
        by (simp add: parse_error_ir[OF ir assms(2)] filter_result_def)
    qed
  qed
qed

lemma set_parent_root:
  assumes "translation_unit ts root" "\<forall>s \<in> node_strings root. fine s"
  shows "\<exists>r. filter_visitor_set_parent root = Some r \<and>
    (case r of Inl e \<Rightarrow> True | Inr root' \<Rightarrow> \<exists>n. root' = NODE_ROOT n \<and> complete n \<and> (\<forall>s \<in> node_strings n. fine s))"
proof -
  obtain n where n: "binary_expression 9 ts n" "root = NODE_ROOT n" using assms(1) by (auto simp: translation_unit_def)
  obtain r where r: "recursive_visit_set_parent n True = Some r"
    using set_parent_result(1) grammar_shape(4)[OF n(1)] by blast
  show ?thesis
  proof (cases r)
    case (Inl e)
    with r n(2) show ?thesis by (auto simp: filter_visitor_set_parent_def)
  next
    case (Inr n')
    with set_parent_complete(1)[of n] set_parent_strings(1)[of n n'] r n assms(2) grammar_shape(4)[OF n(1)]
    show ?thesis by (auto simp: filter_visitor_set_parent_def)
  qed
qed

text \<open>The passes from the generation of the representation on.\<close>

lemma front_end:
  assumes "complete n" "\<forall>s \<in> node_strings n. fine s"
  shows "\<exists>ret ctx' h'. filter_visitor_ir_generate
      \<lparr>ast = NODE_ROOT n, ir_root = None, bytecode = None, bytecode_reloc = None\<rparr> h = Some (ret, ctx', h') \<and>
    (if ret = 0 then \<exists>op. ir_root ctx' = Some op \<and> root_ok op \<and> live h' = live h + blocks op \<and>
       (\<forall>s \<in> op_strings op. fine s)
     else ir_root ctx' = None \<and> live h' = live h)"
proof -
  obtain op h' where g: "generate_ir_recursive h (NODE_ROOT n) IR_LEFT = Some (op, h')"
    "case op of None \<Rightarrow> live h' = live h | Some op \<Rightarrow> root_ok op \<and> live h' = live h + blocks op"
    using generate_root[OF assms(1), of h IR_LEFT] by (auto split: option.splits)
  show ?thesis
  proof (cases op)
    case None
    with g show ?thesis by (simp add: filter_visitor_ir_generate_def)
  next
    case (Some x)
    then have "op_strings x \<subseteq> node_strings (NODE_ROOT n)" using generate_strings(1) g(1) by blast
    with g Some assms(2) show ?thesis by (auto simp: filter_visitor_ir_generate_def)
  qed
qed

text \<open>All passes on the parsed tree.\<close>

lemma passes:
  assumes "complete n" "\<forall>s \<in> node_strings n. fine s"
    "filter_visitor_set_parent root = Some (Inr (NODE_ROOT n))"
  shows "\<exists>r. generate_filter True True (Some root) filter_expression h = Some r \<and> filter_result (live h) r"
proof -
  obtain ret ctx h' where f: "filter_visitor_ir_generate
      \<lparr>ast = NODE_ROOT n, ir_root = None, bytecode = None, bytecode_reloc = None\<rparr> h = Some (ret, ctx, h')"
    "if ret = 0 then \<exists>op. ir_root ctx = Some op \<and> root_ok op \<and> live h' = live h + blocks op \<and>
       (\<forall>s \<in> op_strings op. fine s)
     else ir_root ctx = None \<and> live h' = live h"
    using front_end[OF assms(1,2), of h] by blast
  consider "ret \<noteq> 0" | op where "ret = 0" "ir_root ctx = Some op" "root_ok op" "live h' = live h + blocks op"
    "\<forall>s \<in> op_strings op. fine s" using f(2) by (metis (full_types))
  then show ?thesis
  proof cases
    case 1
    with assms(3) f show ?thesis by (simp add: generate_filter_def filter_result_def parse_error_no_ir)
  next
    case op: 2
    note norm = normalize_root[OF op(3,5)]
    show ?thesis
    proof (cases "comparison_depth op \<le> 1")
      case False
      with assms(3) f(1) op filter_result_error[OF op(2-4)] show ?thesis
        by (simp add: generate_filter_def filter_visitor_ir_check_binary_op_nesting_def root_checks)
    next
      case True
      from True assms(3) f(1) op norm
        back_end[of "ctx\<lparr>ir_root := Some (normalized op)\<rparr>", OF _ norm(2) _ normalized_fine[OF op(5)]]
      show ?thesis
        by (simp add: generate_filter_def filter_visitor_ir_check_binary_op_nesting_def root_checks
            filter_visitor_ir_normalize_glob_patterns_def normalized_keeps del: split_paired_Ex)
    qed
  qed
qed

text \<open>
  C11: compilation of filters is correct from the syntax tree to the bytecode. For every tree that the
  grammar derives and whose strings are below 2 GiB, \<open>generate_filter\<close> returns. On success the context
  holds a well-typed representation that obeys the three rules of the checks, and a program that decodes
  to its compilation and needs two registers; on failure the context is not handed over, one of the two
  documented errors is returned, and everything is released, up to the two buffers of the bytecode.
\<close>

theorem generate_filter_correct:
  assumes "translation_unit ts root" "\<forall>s \<in> node_strings root. fine s"
  shows "\<exists>r. generate_filter fmem alloc (Some root) filter_expression h = Some r \<and> filter_result (live h) r"
proof (cases "fmem \<and> alloc")
  case False
  then show ?thesis by (auto simp: generate_filter_def filter_result_def)
next
  case True
  obtain r where r: "filter_visitor_set_parent root = Some r" "case r of Inl e \<Rightarrow> True
    | Inr root' \<Rightarrow> \<exists>n. root' = NODE_ROOT n \<and> complete n \<and> (\<forall>s \<in> node_strings n. fine s)"
    using set_parent_root[OF assms] by blast
  show ?thesis
  proof (cases r)
    case (Inl e)
    with True r(1) show ?thesis by (simp add: generate_filter_def filter_result_def parse_error_no_ir)
  next
    case (Inr root')
    with True r passes show ?thesis by auto
  qed
qed

theorem generate_filter_correct_witness:
  "\<exists>r. generate_filter True True (Some sample_tree) [97, 61, 61, 53] \<lparr>outcomes = [], live = 0\<rparr> = Some r \<and> filter_result 0 r"
proof -
  have "\<forall>s \<in> node_strings sample_tree. fine s" by (simp add: sample_tree_def fine_def)
  from generate_filter_correct[OF sample_unit this, of True True "[97, 61, 61, 53]" "\<lparr>outcomes = [], live = 0\<rparr>"]
  show ?thesis by (simp del: split_paired_Ex)
qed

text \<open>A filter that is a single field with a name so long that code and table fit alone but not together.\<close>

definition long_name :: "byte list" where
  "long_name = replicate 65530 97"

lemma long_name_fine: "fine long_name" "length long_name = 65530"
  by (simp_all add: long_name_def fine_def)

lemma field_representation:
  "filter_visitor_ir_generate \<lparr>ast = NODE_ROOT (field s), ir_root = None, bytecode = None, bytecode_reloc = None\<rparr>
     \<lparr>outcomes = [], live = k\<rparr> =
   Some (0, \<lparr>ast = NODE_ROOT (field s), ir_root = Some (IR_OP_ROOT
       \<lparr>data_type = IR_DATA_FIELD_REF, signedness = IR_SIGN_DYN, side = IR_LEFT\<rparr>
       (IR_OP_LOAD \<lparr>data_type = IR_DATA_FIELD_REF, signedness = IR_SIGN_DYN, side = IR_LEFT\<rparr> (Load_ref s))),
     bytecode = None, bytecode_reloc = None\<rparr>, \<lparr>outcomes = [], live = k + 3\<rparr>)"
  by (simp add: filter_visitor_ir_generate_def make_op_load_field_ref_def make_op_root_def or_free_def zmalloc_def Let_def)

lemma field_sizes:
  defines "op s \<equiv> IR_OP_ROOT \<lparr>data_type = IR_DATA_FIELD_REF, signedness = IR_SIGN_DYN, side = IR_LEFT\<rparr>
    (IR_OP_LOAD \<lparr>data_type = IR_DATA_FIELD_REF, signedness = IR_SIGN_DYN, side = IR_LEFT\<rparr> (Load_ref s))"
  shows "length (filter_code (op s)) = 4" "length (filter_table (op s)) = length s + 3" "blocks (op s) = 3"
  by (simp_all add: op_def)


end
