(* ===== verification/Waiter.thy ===== *)
theory Waiter
  imports LTT_Prelude
begin

text \<open>
  \<open>src/common/waiter.c\<close>: a thread waits on a word until another one wakes it up. The two functions run
  concurrently; each access to the word is one step of the thread that makes it, and any
  interleaving of the steps is possible (the accesses are the atomic ones of liburcu, with barriers).
  The word lives in memory of the waiting thread, which is gone once it has returned.
\<close>

unbundle bit_operations_syntax

section \<open>State\<close>

abbreviation WAITER_WAITING :: u32 where "WAITER_WAITING \<equiv> 0"
abbreviation WAITER_WOKEN_UP :: u32 where "WAITER_WOKEN_UP \<equiv> 1"
abbreviation WAITER_RUNNING :: u32 where "WAITER_RUNNING \<equiv> 2"
abbreviation WAITER_TEARDOWN :: u32 where "WAITER_TEARDOWN \<equiv> 4"

abbreviation WAIT_ATTEMPTS :: nat where "WAIT_ATTEMPTS \<equiv> 1000"

text \<open>Where the two threads are: the access they make next.\<close>

datatype wait_pc =
    Busy_Wait nat \<comment> \<open>the first loop, with its counter\<close>
  | Futex_Wait \<comment> \<open>the call of \<open>futex\<close>\<close>
  | Sleeping \<comment> \<open>inside of the call\<close>
  | Set_Running
  | Busy_Teardown nat \<comment> \<open>the second loop, with its counter\<close>
  | Poll_Teardown
  | Final_Assert
  | Wait_Returned

datatype wake_pc =
    Wake_Assert
  | Set_Woken_Up
  | Test_Running
  | Futex_Wake
  | Set_Teardown
  | Wake_Returned

record waiter =
  wait_state :: u32
  waiting :: wait_pc
  waking :: wake_pc

definition lttng_waiter_init :: waiter where
  "lttng_waiter_init = \<lparr>wait_state = WAITER_WAITING, waiting = Busy_Wait 0, waking = Wake_Assert\<rparr>"

section \<open>Steps\<close>

text \<open>
  A step of the waiting thread. The kernel checks the word and puts the thread to sleep in one step;
  a sleeping thread stays where it is until it is woken up, unless a signal interrupts the call
  (\<open>interrupted\<close>), which is then made again.
\<close>

definition lttng_waiter_wait :: "bool \<Rightarrow> waiter \<Rightarrow> waiter run" where
  "lttng_waiter_wait interrupted w =
     (case waiting w of
        Busy_Wait i \<Rightarrow>
          if i < WAIT_ATTEMPTS
          then Some (w\<lparr>waiting := if wait_state w \<noteq> WAITER_WAITING then Set_Running else Busy_Wait (i + 1)\<rparr>)
          else Some (w\<lparr>waiting := Futex_Wait\<rparr>)
      | Futex_Wait \<Rightarrow> Some (w\<lparr>waiting := if wait_state w \<noteq> WAITER_WAITING then Set_Running else Sleeping\<rparr>)
      | Sleeping \<Rightarrow> Some (if interrupted then w\<lparr>waiting := Futex_Wait\<rparr> else w)
      | Set_Running \<Rightarrow> Some (w\<lparr>wait_state := wait_state w OR WAITER_RUNNING, waiting := Busy_Teardown 0\<rparr>)
      | Busy_Teardown i \<Rightarrow>
          Some (w\<lparr>waiting := if i < WAIT_ATTEMPTS \<and> wait_state w AND WAITER_TEARDOWN = 0
                            then Busy_Teardown (i + 1) else Poll_Teardown\<rparr>)
      | Poll_Teardown \<Rightarrow>
          Some (if wait_state w AND WAITER_TEARDOWN = 0 then w else w\<lparr>waiting := Final_Assert\<rparr>)
      | Final_Assert \<Rightarrow> do {
          c_assert (wait_state w AND WAITER_TEARDOWN \<noteq> 0);
          Some (w\<lparr>waiting := Wait_Returned\<rparr>)
        }
      | Wait_Returned \<Rightarrow> Some w)"

text \<open>A step of the waking thread; it crashes when the memory of the word is gone.\<close>

definition lttng_waiter_wake_up :: "waiter \<Rightarrow> waiter run" where
  "lttng_waiter_wake_up w =
     (if waking w = Wake_Returned then Some w
      else if waiting w = Wait_Returned then crash
      else case waking w of
        Wake_Assert \<Rightarrow> do {
          c_assert (wait_state w = WAITER_WAITING);
          Some (w\<lparr>waking := Set_Woken_Up\<rparr>)
        }
      | Set_Woken_Up \<Rightarrow> Some (w\<lparr>wait_state := WAITER_WOKEN_UP, waking := Test_Running\<rparr>)
      | Test_Running \<Rightarrow>
          Some (w\<lparr>waking := if wait_state w AND WAITER_RUNNING = 0 then Futex_Wake else Set_Teardown\<rparr>)
      | Futex_Wake \<Rightarrow>
          Some (w\<lparr>waiting := if waiting w = Sleeping then Set_Running else waiting w, waking := Set_Teardown\<rparr>)
      | Set_Teardown \<Rightarrow> Some (w\<lparr>wait_state := wait_state w OR WAITER_TEARDOWN, waking := Wake_Returned\<rparr>)
      | Wake_Returned \<Rightarrow> Some w)"

text \<open>A schedule: which thread makes the next step.\<close>

datatype turn = Waiting_Thread bool | Waking_Thread

fun run_waiter :: "turn list \<Rightarrow> waiter \<Rightarrow> waiter run" where
  "run_waiter [] w = Some w"
| "run_waiter (Waiting_Thread interrupted # ts) w = Option.bind (lttng_waiter_wait interrupted w) (run_waiter ts)"
| "run_waiter (Waking_Thread # ts) w = Option.bind (lttng_waiter_wake_up w) (run_waiter ts)"

inductive waiter_step :: "waiter \<Rightarrow> waiter \<Rightarrow> bool" where
  wait: "lttng_waiter_wait interrupted w = Some w' \<Longrightarrow> waiter_step w w'"
| wake: "lttng_waiter_wake_up w = Some w' \<Longrightarrow> waiter_step w w'"

inductive waiter_reachable :: "waiter \<Rightarrow> bool" where
  init: "waiter_reachable lttng_waiter_init"
| step: "waiter_reachable w \<Longrightarrow> waiter_step w w' \<Longrightarrow> waiter_reachable w'"

inductive_cases waiter_stepE: "waiter_step w w'"

section \<open>Invariant\<close>

text \<open>
  Before it has set its bit the waiting thread is in the first loop or in the call; the value of the word
  follows from the positions of the two threads.
\<close>

definition early :: "wait_pc \<Rightarrow> bool" where
  "early p \<longleftrightarrow> (\<exists>i. p = Busy_Wait i) \<or> p = Futex_Wait \<or> p = Sleeping"

definition late :: "wait_pc \<Rightarrow> bool" where
  "late p \<longleftrightarrow> (\<exists>i. p = Busy_Teardown i) \<or> p = Poll_Teardown"

definition waiter_inv :: "waiter \<Rightarrow> bool" where
  "waiter_inv w \<longleftrightarrow>
     (case waking w of
        Wake_Assert \<Rightarrow> wait_state w = 0 \<and> early (waiting w)
      | Set_Woken_Up \<Rightarrow> wait_state w = 0 \<and> early (waiting w)
      | Test_Running \<Rightarrow> wait_state w = 1 \<and> (early (waiting w) \<or> waiting w = Set_Running) \<or> wait_state w = 3 \<and> late (waiting w)
      | Futex_Wake \<Rightarrow> wait_state w = 1 \<and> (early (waiting w) \<or> waiting w = Set_Running) \<or> wait_state w = 3 \<and> late (waiting w)
      | Set_Teardown \<Rightarrow> wait_state w = 1 \<and> (early (waiting w) \<or> waiting w = Set_Running) \<and> waiting w \<noteq> Sleeping \<or>
          wait_state w = 3 \<and> late (waiting w)
      | Wake_Returned \<Rightarrow> wait_state w = 5 \<and> (early (waiting w) \<or> waiting w = Set_Running) \<and> waiting w \<noteq> Sleeping \<or>
          wait_state w = 7 \<and> (late (waiting w) \<or> waiting w = Final_Assert \<or> waiting w = Wait_Returned))"

lemma inv_init: "waiter_inv lttng_waiter_init"
  by (simp add: waiter_inv_def lttng_waiter_init_def early_def)

lemma inv_wait: "waiter_inv w \<Longrightarrow> \<exists>w'. lttng_waiter_wait interrupted w = Some w' \<and> waiter_inv w' \<and> waking w' = waking w"
  by (cases "waiting w"; cases "waking w")
    (auto simp: waiter_inv_def lttng_waiter_wait_def early_def late_def)

lemma inv_wake: "waiter_inv w \<Longrightarrow> \<exists>w'. lttng_waiter_wake_up w = Some w' \<and> waiter_inv w'"
  by (cases "waiting w"; cases "waking w")
    (auto simp: waiter_inv_def lttng_waiter_wake_up_def early_def late_def)

lemma reachable_inv: "waiter_reachable w \<Longrightarrow> waiter_inv w"
proof (induction rule: waiter_reachable.induct)
  case init
  show ?case by (rule inv_init)
next
  case (step w w')
  from step(2) show ?case
  proof (cases rule: waiter_step.cases)
    case (wait interrupted)
    with inv_wait[OF step(3), of interrupted] show ?thesis by auto
  next
    case wake
    with inv_wake[OF step(3)] show ?thesis by auto
  qed
qed

section \<open>Progress\<close>

text \<open>The steps the waking thread has left, and those of the waiting thread once the other one is done.\<close>

fun wake_left :: "wake_pc \<Rightarrow> nat" where
  "wake_left Wake_Assert = 5"
| "wake_left Set_Woken_Up = 4"
| "wake_left Test_Running = 3"
| "wake_left Futex_Wake = 2"
| "wake_left Set_Teardown = 1"
| "wake_left Wake_Returned = 0"

fun wait_left :: "wait_pc \<Rightarrow> nat" where
  "wait_left (Busy_Wait i) = 6"
| "wait_left Futex_Wait = 5"
| "wait_left Sleeping = 6"
| "wait_left Set_Running = 4"
| "wait_left (Busy_Teardown i) = 3"
| "wait_left Poll_Teardown = 2"
| "wait_left Final_Assert = 1"
| "wait_left Wait_Returned = 0"

lemma wake_progress: "waiter_inv w \<Longrightarrow> lttng_waiter_wake_up w = Some w' \<Longrightarrow> wake_left (waking w') \<le> wake_left (waking w) - 1"
  by (cases "waking w") (auto simp: waiter_inv_def lttng_waiter_wake_up_def split: if_splits bind_splits)

lemma wait_progress:
  "waiter_inv w \<Longrightarrow> waking w = Wake_Returned \<Longrightarrow> lttng_waiter_wait interrupted w = Some w' \<Longrightarrow>
     wait_left (waiting w') \<le> wait_left (waiting w) - 1"
  by (cases "waiting w") (auto simp: waiter_inv_def lttng_waiter_wait_def early_def late_def split: if_splits bind_splits)

lemma run_waiter_inv:
  "waiter_inv w \<Longrightarrow> \<exists>w'. run_waiter ts w = Some w' \<and> waiter_inv w' \<and>
     wake_left (waking w') \<le> wake_left (waking w) - count_list ts Waking_Thread"
proof (induction ts arbitrary: w)
  case (Cons t ts)
  show ?case
  proof (cases t)
    case (Waiting_Thread interrupted)
    obtain w1 where "lttng_waiter_wait interrupted w = Some w1" "waiter_inv w1" "waking w1 = waking w"
      using inv_wait[OF Cons.prems] by blast
    with Cons.IH[of w1] Waiting_Thread show ?thesis by auto
  next
    case Waking_Thread
    obtain w1 where w1: "lttng_waiter_wake_up w = Some w1" "waiter_inv w1" using inv_wake[OF Cons.prems] by blast
    with Cons.IH[of w1] obtain w' where w': "run_waiter ts w1 = Some w'" "waiter_inv w'"
      "wake_left (waking w') \<le> wake_left (waking w1) - count_list ts Waking_Thread" by blast
    with wake_progress[OF Cons.prems w1(1)] have "wake_left (waking w') \<le> wake_left (waking w) - (count_list ts Waking_Thread + 1)"
      by simp
    with w' w1 Waking_Thread show ?thesis by auto
  qed
qed simp

lemma run_waiter_ends:
  "waiter_inv w \<Longrightarrow> waking w = Wake_Returned \<Longrightarrow> \<exists>w'. run_waiter ts w = Some w' \<and> waking w' = Wake_Returned \<and>
     wait_left (waiting w') \<le> wait_left (waiting w) - (length ts - count_list ts Waking_Thread)"
proof (induction ts arbitrary: w)
  case (Cons t ts)
  have n: "count_list ts Waking_Thread \<le> length ts" by (rule count_le_length)
  show ?case
  proof (cases t)
    case (Waiting_Thread interrupted)
    obtain w1 where w1: "lttng_waiter_wait interrupted w = Some w1" "waiter_inv w1" "waking w1 = waking w"
      using inv_wait[OF Cons.prems(1)] by blast
    with Cons.IH[of w1] Cons.prems(2) obtain w' where w': "run_waiter ts w1 = Some w'" "waking w' = Wake_Returned"
      "wait_left (waiting w') \<le> wait_left (waiting w1) - (length ts - count_list ts Waking_Thread)" by auto
    with wait_progress[OF Cons.prems w1(1)] n
    have "wait_left (waiting w') \<le> wait_left (waiting w) - (Suc (length ts) - count_list ts Waking_Thread)" by simp
    with w' w1 Waiting_Thread show ?thesis by auto
  next
    case Waking_Thread
    with Cons show ?thesis by (auto simp: lttng_waiter_wake_up_def)
  qed
qed simp

lemma run_waiter_append: "run_waiter (ts @ ts') w = Option.bind (run_waiter ts w) (run_waiter ts')"
  by (induction ts w rule: run_waiter.induct) (auto split: bind_splits)

section \<open>Properties\<close>





end
