(* ===== verification/Spec2Isabelle.thy ===== *)
theory Spec2Isabelle
  imports Notification_Delivery Tracefile_Array Filter_Program Hash_Utils Waiter
begin

text \<open>
  Verification of parts of LTTng-tools 2.10 (src/).

  \<^bold>\<open>Conventions.\<close> A C function becomes a HOL function that passes its state. \<open>'a run\<close> is \<open>'a option\<close>:
  \<open>None\<close> (\<open>crash\<close>) is undefined behaviour, a failed \<open>assert\<close> or an abort; error codes are values inside
  \<open>Some\<close>. Machine integers are words. A memory object is a list of cells, each a byte or indeterminate
  (\<open>mem\<close>), and reads outside of it or of indeterminate cells crash. The heap is a ledger: the outcomes of
  the coming allocations (an empty list stands for success) and the number of live blocks, so that leaks
  and behaviour without memory are statements about it. Structures with function pointers keep them as
  values of a datatype. These conventions and the lemmas about them are in \<open>LTT_Prelude\<close>.

  \<^bold>\<open>Notifications (src/src/common).\<close>
  \<^item> \<open>Count_Order\<close>: \<open>fls_u32\<close>, \<open>fls_u64\<close> and the count orders of utils.c; they are the least exponents.
  \<^item> \<open>Dynamic_Buffer\<close>: dynamic-buffer.c and buffer-view.c. Invariant of the buffer under all sequences of
    operations, what each operation leaves in it, failure without effect.
  \<^item> \<open>Codec\<close>: the contracts of the wire formats as locales (a serializer, a codec, a framed pair); each
    component interprets them on its functions.
  \<^item> \<open>Double\<close>: the part of IEEE double arithmetic that conditions use, with correct rounding.
  \<^item> \<open>Condition\<close>, \<open>Evaluation\<close>, \<open>Trigger\<close>, \<open>Notification\<close>: condition.c, buffer-usage.c, evaluation.c, action.c,
    notify.c, trigger.c, notification.c. Round trips of the formats, ownership of blocks by the parsers,
    memory safety of the condition parser, and the defects found in them.
  \<^item> \<open>Unix_Socket\<close>: the transfers of unix.c over an environment that cuts, interrupts, blocks or fails the
    system calls. The blocking ones are complete, the non-blocking ones report partial transfers as complete.
  \<^item> \<open>Notification_Channel\<close>: the client side of the protocol, lib/lttng-ctl/channel.c, on top of the buffers,
    formats and sockets. Notifications arrive as they were serialized, commands end with their reply
    whatever is interleaved with it, and what happens when memory is short.
  \<^item> \<open>Hash_Utils\<close>: hashtable/utils.c; the hash of a string does not depend on its placement in memory.
  \<^item> \<open>Read_Write\<close>: readwrite.c; reads and writes are complete whatever the segmentation, but not when they are
    interrupted.
  \<^item> \<open>Waiter\<close>: waiter.c, by which a thread that sent a command waits for its end. The two functions are step
    functions that interleave in any order: no wake-up is lost, the memory is not touched after the waiting
    thread has returned, and both functions end. Unexpected errors of \<open>futex\<close> (on which the code aborts) and
    returns from it without a wake-up are left out.

  \<^bold>\<open>Notification thread (src/src/bin/lttng-sessiond/notification-thread*.c).\<close> The state of the thread is a
  record with its hash tables, the objects they point to (stores from addresses to records), the sockets
  and the ledger. The hash tables are those of liburcu, which is not part of the repository: they are a
  parameter, a record of operations on which \<open>lfht_laws\<close> states what a lookup, an addition, a unique
  addition, a deletion and an iteration do to the contents of a table.
  \<^item> \<open>Condition_Evaluation\<close>: hashes of conditions, support for them, and their evaluation on two samples, which
    is edge-triggered.
  \<^item> \<open>Notification_Thread\<close>: clients (connection, reception and dispatch of messages, subscriptions, outgoing
    queue, disconnection). \<open>Notification_Triggers\<close>: the commands of the other threads (channels and triggers
    that come and go), the samples of the consumers, and a round of the thread's loop.
  \<^item> \<open>Notification_Protocol\<close>: the library and the thread together. The handshake and a subscription, as the
    library sends them, are served in two rounds each and succeed on both sides.
  \<^item> \<open>Notification_Delivery\<close>: a sample from a consumer leads to exactly the notifications of the triggers whose
    threshold was crossed, on the sockets of the permitted clients.

  \<^bold>\<open>Relay daemon (src/src/bin/lttng-relayd/tracefile-array.c).\<close> \<open>Tracefile_Array\<close>: every operation, its
  refinement to a ring of segments, and lookups after any sequence of commits and rotations.

  \<^bold>\<open>Filter compiler (src/src/lib/lttng-ctl).\<close> A filter expression goes through the passes in the order of
  \<open>generate_filter\<close>, each in its own theory:
  \<^item> \<open>String_Utils\<close>: string-utils.c; normalization, classification and unescaping of star patterns, splitting.
  \<^item> \<open>Filter_AST\<close>: the grammar of filter-parser.y as derivations of trees from tokens, and
    filter-visitor-set-parent.c. The pass returns on every derived tree and leaves a complete one, or
    reports exactly the malformed links.
  \<^item> \<open>Filter_IR\<close>: filter-ir.h and filter-visitor-generate-ir.c. Generation implements a type system and
    never leaks.
  \<^item> \<open>Filter_Check\<close>: the four passes filter-visitor-ir-*.c. What the checks accept, exactly.
  \<^item> \<open>Filter_Bytecode\<close>: filter-bytecode.h and filter-visitor-generate-bytecode.c, with growth of the buffers,
    relocation table and patched jumps. \<open>Filter_Codegen\<close> proves that it implements a compiler to
    instructions, \<open>Filter_Program\<close> that the result decodes, needs two registers, and has sound jumps.
  \<^item> \<open>Filter_Program\<close> also has \<open>generate_filter\<close> of lttng-ctl.c, the correctness of the whole compilation, and
    the leak of its last error path.

  \<^bold>\<open>Bounds.\<close> All recursions are structural or have termination proofs; there is no fuel. Theorems about
  filters assume that strings are shorter than 2 GiB, the range of the \<open>int32_t\<close> lengths of the code.

  \<^bold>\<open>Not modelled.\<close> The lexer and parser tables are generated code; the parser's result is any tree of the
  grammar. Of the notification thread, the creation of its sockets, pipes,
  poll set and tables (\<open>init_thread_state\<close>, \<open>notification_thread_handle_create\<close>) is not modelled: it consists
  of system calls and calls of liburcu. The other threads of the daemons, the consumers, the command line tools, the XML configuration and the
  machine interface act on processes, shared memory, tracers and libraries outside of this
  repository. The Filter XML printer is debug output.
\<close>

end
